(* ===== verification/Prelude.thy ===== *)
theory Prelude
  imports Complex_Main "HOL-Library.Char_ord" "HOL-Library.List_Lexorder"
    "HOL-Library.Product_Lexorder" "HOL-Library.Multiset"
begin

text \<open>
  Shared foundations of the development: the result type that carries a raised Python
  exception (\<open>Inl\<close>) or a value (\<open>Inr\<close>) with its sequencing, Python's \<open>min\<close> with a key,
  generic lemmas on lists that the table operations and the scheduler share, and the
  locale of invariants of a step relation.
\<close>

section \<open>Exceptions\<close>

text \<open>
  The exceptions the code raises or lets through, with their messages. The last group
  stands for failures of services outside the program (database driver, broker, Docker,
  HTTP): the payload is the service's own message.
\<close>

datatype pyerr =
    TypeError string
  | ValueError string
  | KeyError string
  | AttributeError string
  | OverflowError string
  | AssertionError string
  | RuntimeError string
  | FileNotFoundError string
  | OSErr string
  | LDAPAuthError string
  | MultipleResultsFound
  | IntegrityError string
  | DataError string
  | HTTPError int
  | DockerNotFound
  | ServiceError string
  | JSONDecodeError

type_synonym 'a result = "pyerr + 'a"

named_theorems result_simps \<open>unfolding rules for sequenced results\<close>

fun ebind :: "'a result \<Rightarrow> ('a \<Rightarrow> 'b result) \<Rightarrow> 'b result" where
  "ebind (Inl e) k = Inl e"
| "ebind (Inr x) k = k x"

fun emap :: "('a \<Rightarrow> 'b result) \<Rightarrow> 'a list \<Rightarrow> 'b list result" where
  "emap f [] = Inr []"
| "emap f (x # xs) = ebind (f x) (\<lambda>y. ebind (emap f xs) (\<lambda>ys. Inr (y # ys)))"

text \<open>A plain \<open>assert\<close> statement (the images run without \<open>-O\<close>).\<close>

definition py_assert :: "bool \<Rightarrow> string \<Rightarrow> unit result" where
  "py_assert c msg = (if c then Inr () else Inl (AssertionError msg))"

fun is_ok :: "'a result \<Rightarrow> bool" where
  "is_ok (Inr _) = True"
| "is_ok (Inl _) = False"

lemma ebind_Inr_iff [result_simps]: "ebind r k = Inr y \<longleftrightarrow> (\<exists>x. r = Inr x \<and> k x = Inr y)"
  by (cases r) auto

lemma ebind_Inl_iff [result_simps]:
  "ebind r k = Inl e \<longleftrightarrow> r = Inl e \<or> (\<exists>x. r = Inr x \<and> k x = Inl e)"
  by (cases r) auto

lemma ebind_assoc: "ebind (ebind r k) l = ebind r (\<lambda>x. ebind (k x) l)"
  by (cases r) auto

lemma py_assert_Inr [result_simps]: "py_assert c m = Inr u \<longleftrightarrow> c"
  by (simp add: py_assert_def)

lemma py_assert_Inl [result_simps]: "py_assert c m = Inl e \<longleftrightarrow> \<not> c \<and> e = AssertionError m"
  by (auto simp: py_assert_def)

lemma py_assert_True [simp]: "py_assert True m = Inr ()"
  by (simp add: py_assert_def)

lemma is_ok_iff: "is_ok r \<longleftrightarrow> (\<exists>x. r = Inr x)"
  by (cases r) auto

lemma emap_total:
  assumes "\<And>x. x \<in> set xs \<Longrightarrow> f x = Inr (g x)"
  shows "emap f xs = Inr (map g xs)"
  using assms by (induction xs) auto

lemma emap_Inr_iff: "emap f xs = Inr ys \<longleftrightarrow> map f xs = map Inr ys"
proof (induction xs arbitrary: ys)
  case (Cons x xs)
  then show ?case
    by (cases ys) (auto simp: result_simps)
qed auto

section \<open>Python's min with a key\<close>

text \<open>
  \<open>min(xs, key=k)\<close> keeps the first element whose key is below every later candidate:
  it moves to a new element only when that element's key is strictly smaller.
\<close>

fun min_from :: "('k \<Rightarrow> 'k \<Rightarrow> bool) \<Rightarrow> 'k \<times> 'a \<Rightarrow> ('k \<times> 'a) list \<Rightarrow> 'k \<times> 'a" where
  "min_from lt best [] = best"
| "min_from lt best (x # xs) = min_from lt (if lt (fst x) (fst best) then x else best) xs"

lemma min_from_in: "min_from lt b xs \<in> set (b # xs)"
proof (induction xs arbitrary: b)
  case (Cons x xs)
  show ?case using Cons [of x] Cons [of b] by auto
qed simp

lemma min_from_least:
  fixes f :: "'k \<Rightarrow> 'o::linorder"
  assumes "\<And>x y. x \<in> set (b # xs) \<Longrightarrow> y \<in> set (b # xs) \<Longrightarrow>
      lt (fst x) (fst y) \<longleftrightarrow> f (fst x) < f (fst y)"
    and "y \<in> set (b # xs)"
  shows "f (fst (min_from lt b xs)) \<le> f (fst y)"
  using assms
proof (induction xs arbitrary: b y)
  case Nil
  then show ?case by simp
next
  case (Cons x xs)
  let ?b = "if lt (fst x) (fst b) then x else b"
  have cmp: "\<And>u v. u \<in> set (?b # xs) \<Longrightarrow> v \<in> set (?b # xs) \<Longrightarrow>
      lt (fst u) (fst v) \<longleftrightarrow> f (fst u) < f (fst v)"
    using Cons.prems(1) by (auto split: if_splits)
  have best: "f (fst (min_from lt ?b xs)) \<le> f (fst ?b)"
    and rest: "\<And>z. z \<in> set xs \<Longrightarrow> f (fst (min_from lt ?b xs)) \<le> f (fst z)"
    using Cons.IH [OF cmp] by auto
  have "f (fst ?b) \<le> f (fst b)" and "f (fst ?b) \<le> f (fst x)"
    using Cons.prems(1) [of x b] by auto
  from Cons.prems(2) consider "y = b" | "y = x" | "y \<in> set xs" by auto
  then have "f (fst (min_from lt ?b xs)) \<le> f (fst y)"
  proof cases
    case 1
    then show ?thesis using best \<open>f (fst ?b) \<le> f (fst b)\<close> by (metis order_trans)
  next
    case 2
    then show ?thesis using best \<open>f (fst ?b) \<le> f (fst x)\<close> by (metis order_trans)
  next
    case 3
    then show ?thesis by (rule rest)
  qed
  then show ?case by simp
qed

section \<open>Lists\<close>

lemma find_Some_in: "List.find P xs = Some x \<Longrightarrow> x \<in> set xs \<and> P x"
  by (auto simp: find_Some_iff)

lemma distinct_map_eq:
  "distinct (map f xs) \<Longrightarrow> x \<in> set xs \<Longrightarrow> y \<in> set xs \<Longrightarrow> f x = f y \<Longrightarrow> x = y"
  by (auto simp: distinct_map inj_on_def)

lemma filter_key_unique:
  "distinct (map f xs) \<Longrightarrow> x \<in> set xs \<Longrightarrow> filter (\<lambda>y. f y = f x) xs = [x]"
proof (induction xs)
  case (Cons a xs)
  show ?case
  proof (cases "x = a")
    case True
    with Cons.prems have "filter (\<lambda>y. f y = f x) xs = []"
      by (auto simp: filter_empty_conv image_iff)
    with True show ?thesis by simp
  next
    case False
    with Cons.prems have "x \<in> set xs" "f a \<noteq> f x"
      by (auto simp: image_iff)
    with Cons show ?thesis by simp
  qed
qed simp

lemma count_filter_update:
  assumes "\<And>x. x \<in> set xs \<Longrightarrow> P (g x) = Q x"
  shows "length (filter P (map g xs)) = length (filter Q xs)"
  using assms by (induction xs) auto

section \<open>Invariants of a step relation\<close>

text \<open>
  A component whose steps interleave is a step relation with an initial state. The locale
  states what such a component promises (its invariant holds initially and every step
  keeps it); its lemma lifts the promise to every reachable state.
\<close>

inductive reachable_from :: "('s \<Rightarrow> bool) \<Rightarrow> ('s \<Rightarrow> 's \<Rightarrow> bool) \<Rightarrow> 's \<Rightarrow> bool"
  for init step where
  reach_init: "init s \<Longrightarrow> reachable_from init step s"
| reach_step: "reachable_from init step s \<Longrightarrow> step s t \<Longrightarrow> reachable_from init step t"

locale invariant_system =
  fixes init :: "'s \<Rightarrow> bool"
    and step :: "'s \<Rightarrow> 's \<Rightarrow> bool"
    and inv :: "'s \<Rightarrow> bool"
  assumes inv_init: "init s \<Longrightarrow> inv s"
    and inv_step: "inv s \<Longrightarrow> step s t \<Longrightarrow> inv t"
begin

lemma reachable_inv: "reachable_from init step s \<Longrightarrow> inv s"
  by (induction rule: reachable_from.induct) (auto intro: inv_init inv_step)

lemma steps_inv: "step\<^sup>*\<^sup>* s t \<Longrightarrow> inv s \<Longrightarrow> inv t"
  by (induction rule: rtranclp_induct) (auto intro: inv_step)

end

end
