(* ===== verification/PyVal.thy ===== *)
theory PyVal
  imports PyStr
begin

text \<open>
  Dynamically typed Python values, as they arrive in a broker payload, a decoded JSON body
  or a constructor argument, and the built-ins the code applies to them: \<open>isinstance\<close>
  tests, \<open>type(v).__name__\<close>, truth value, \<open>list(v)\<close>, \<open>dict(v)\<close>, \<open>in\<close>, \<open>.get\<close>,
  \<open>str(v)\<close>. A finite float is its exact rational value; infinities and NaN are values
  of their own, so comparisons with NaN are false as in Python.
\<close>

section \<open>Floats\<close>

datatype pyfloat = NInf | Fin rat | PInf | NaN

text \<open>A total order for sorting keys; Python's own comparisons are below.\<close>

instantiation pyfloat :: linorder
begin

fun less_eq_pyfloat :: "pyfloat \<Rightarrow> pyfloat \<Rightarrow> bool" where
  "less_eq_pyfloat NInf y = True"
| "less_eq_pyfloat (Fin p) NInf = False"
| "less_eq_pyfloat (Fin p) (Fin q) = (p \<le> q)"
| "less_eq_pyfloat (Fin p) y = True"
| "less_eq_pyfloat PInf y = (y = PInf \<or> y = NaN)"
| "less_eq_pyfloat NaN y = (y = NaN)"

definition less_pyfloat :: "pyfloat \<Rightarrow> pyfloat \<Rightarrow> bool" where
  "less_pyfloat x y \<longleftrightarrow> x \<le> y \<and> \<not> y \<le> x"

instance
proof
  fix x y z :: pyfloat
  show "(x < y) = (x \<le> y \<and> \<not> y \<le> x)" by (simp add: less_pyfloat_def)
  show "x \<le> x" by (cases x) auto
  show "x \<le> y \<Longrightarrow> y \<le> z \<Longrightarrow> x \<le> z" by (cases x; cases y; cases z) auto
  show "x \<le> y \<Longrightarrow> y \<le> x \<Longrightarrow> x = y" by (cases x; cases y) auto
  show "x \<le> y \<or> y \<le> x" by (cases x; cases y) auto
qed

end

definition pf_le :: "pyfloat \<Rightarrow> pyfloat \<Rightarrow> bool" where
  "pf_le x y \<longleftrightarrow> x \<noteq> NaN \<and> y \<noteq> NaN \<and> x \<le> y"

definition pf_lt :: "pyfloat \<Rightarrow> pyfloat \<Rightarrow> bool" where
  "pf_lt x y \<longleftrightarrow> x \<noteq> NaN \<and> y \<noteq> NaN \<and> x < y"

definition pf_eq :: "pyfloat \<Rightarrow> pyfloat \<Rightarrow> bool" where
  "pf_eq x y \<longleftrightarrow> x \<noteq> NaN \<and> x = y"

fun pf_add :: "pyfloat \<Rightarrow> pyfloat \<Rightarrow> pyfloat" where
  "pf_add (Fin p) (Fin q) = Fin (p + q)"
| "pf_add NaN _ = NaN"
| "pf_add _ NaN = NaN"
| "pf_add PInf NInf = NaN"
| "pf_add NInf PInf = NaN"
| "pf_add PInf _ = PInf"
| "pf_add _ PInf = PInf"
| "pf_add NInf _ = NInf"
| "pf_add _ NInf = NInf"

lemma pf_less_simps [simp]:
  "Fin p < Fin q \<longleftrightarrow> p < q" "Fin p < PInf" "NInf < Fin p" "NInf < PInf"
  "\<not> PInf < Fin p" "\<not> x < NInf" "\<not> PInf < PInf"
  by (auto simp: less_pyfloat_def)

lemma pf_nonneg_cases: "pf_le (Fin 0) x \<longleftrightarrow> (\<exists>q. x = Fin q \<and> 0 \<le> q) \<or> x = PInf"
  by (cases x) (auto simp: pf_le_def)

text \<open>Python's two-argument \<open>min\<close> and \<open>max\<close>: the first argument unless the second wins.\<close>

definition pf_min :: "pyfloat \<Rightarrow> pyfloat \<Rightarrow> pyfloat" where
  "pf_min x y = (if pf_lt y x then y else x)"

definition pf_max :: "pyfloat \<Rightarrow> pyfloat \<Rightarrow> pyfloat" where
  "pf_max x y = (if pf_lt x y then y else x)"

text \<open>\<open>round(x, d)\<close>: to the nearest multiple of ten to the minus \<open>d\<close>, ties to even.\<close>

definition round_half_even :: "rat \<Rightarrow> int" where
  "round_half_even q =
     (let f = \<lfloor>q\<rfloor>; r = q - of_int f
      in if r < 1 / 2 then f else if 1 / 2 < r then f + 1 else if even f then f else f + 1)"

fun py_round :: "nat \<Rightarrow> pyfloat \<Rightarrow> pyfloat" where
  "py_round d (Fin q) = Fin (of_int (round_half_even (q * 10 ^ d)) / 10 ^ d)"
| "py_round d x = x"

lemma round_half_even_of_int [simp]: "round_half_even (of_int i) = i"
  by (simp add: round_half_even_def)

lemma round_half_even_le_floor: "round_half_even q \<le> \<lfloor>q\<rfloor> + 1"
  and round_half_even_ge_floor: "\<lfloor>q\<rfloor> \<le> round_half_even q"
  by (simp_all add: round_half_even_def Let_def)

lemma round_half_even_mono: "p \<le> q \<Longrightarrow> round_half_even p \<le> round_half_even q"
proof -
  assume pq: "p \<le> q"
  then have fl: "\<lfloor>p\<rfloor> \<le> \<lfloor>q\<rfloor>" by (rule floor_mono)
  show ?thesis
  proof (cases "\<lfloor>p\<rfloor> = \<lfloor>q\<rfloor>")
    case True
    with pq show ?thesis by (auto simp: round_half_even_def Let_def)
  next
    case False
    with fl have "\<lfloor>p\<rfloor> + 1 \<le> \<lfloor>q\<rfloor>" by simp
    with round_half_even_le_floor [of p] round_half_even_ge_floor [of q] show ?thesis
      by linarith
  qed
qed

lemma py_round_mono: "p \<le> q \<Longrightarrow> pf_le (py_round d (Fin p)) (py_round d (Fin q))"
  by (auto simp: pf_le_def divide_right_mono round_half_even_mono mult_right_mono)

lemma py_round_of_int: "py_round d (Fin (of_int i)) = Fin (of_int i)"
proof -
  have "(of_int i :: rat) * 10 ^ d = of_int (i * 10 ^ d)" by simp
  then show ?thesis by (simp only: py_round.simps round_half_even_of_int) simp
qed

section \<open>Values\<close>

datatype pyval =
    PNone
  | PBool bool
  | PInt int
  | PFloat pyfloat
  | PStr string
  | PList "pyval list"
  | PDict "(pyval \<times> pyval) list"

type_synonym pydict = "(pyval \<times> pyval) list"

fun type_name :: "pyval \<Rightarrow> string" where
  "type_name PNone = ''NoneType''"
| "type_name (PBool _) = ''bool''"
| "type_name (PInt _) = ''int''"
| "type_name (PFloat _) = ''float''"
| "type_name (PStr _) = ''str''"
| "type_name (PList _) = ''list''"
| "type_name (PDict _) = ''dict''"

fun truthy :: "pyval \<Rightarrow> bool" where
  "truthy PNone = False"
| "truthy (PBool b) = b"
| "truthy (PInt i) = (i \<noteq> 0)"
| "truthy (PFloat x) = (x \<noteq> Fin 0)"
| "truthy (PStr s) = (s \<noteq> [])"
| "truthy (PList xs) = (xs \<noteq> [])"
| "truthy (PDict d) = (d \<noteq> [])"

text \<open>Numbers compare across \<open>bool\<close>, \<open>int\<close> and \<open>float\<close>; dictionary keys use this equality.\<close>

fun num_of :: "pyval \<Rightarrow> pyfloat option" where
  "num_of (PBool b) = Some (Fin (if b then 1 else 0))"
| "num_of (PInt i) = Some (Fin (of_int i))"
| "num_of (PFloat x) = Some x"
| "num_of _ = None"

definition key_eq :: "pyval \<Rightarrow> pyval \<Rightarrow> bool" where
  "key_eq a b = (case (num_of a, num_of b) of
     (Some x, Some y) \<Rightarrow> pf_eq x y | (None, None) \<Rightarrow> a = b | _ \<Rightarrow> False)"

fun hashable :: "pyval \<Rightarrow> bool" where
  "hashable (PList _) = False"
| "hashable (PDict _) = False"
| "hashable _ = True"

lemma key_eq_str [simp]: "key_eq (PStr s) k \<longleftrightarrow> k = PStr s" "key_eq k (PStr s) \<longleftrightarrow> k = PStr s"
  by (cases k; auto simp: key_eq_def)+

section \<open>Dictionaries\<close>

text \<open>A dictionary lists its items in insertion order.\<close>

fun dict_lookup :: "pydict \<Rightarrow> pyval \<Rightarrow> pyval option" where
  "dict_lookup [] k = None"
| "dict_lookup ((k', v) # d) k = (if key_eq k' k then Some v else dict_lookup d k)"

definition dict_get :: "pydict \<Rightarrow> string \<Rightarrow> pyval \<Rightarrow> pyval" where
  "dict_get d k dflt = (case dict_lookup d (PStr k) of None \<Rightarrow> dflt | Some v \<Rightarrow> v)"

definition dict_has :: "pydict \<Rightarrow> string \<Rightarrow> bool" where
  "dict_has d k \<longleftrightarrow> dict_lookup d (PStr k) \<noteq> None"

text \<open>Storing under an existing key keeps the key object and its place.\<close>

fun dict_set :: "pydict \<Rightarrow> pyval \<Rightarrow> pyval \<Rightarrow> pydict" where
  "dict_set [] k v = [(k, v)]"
| "dict_set ((k', v') # d) k v =
     (if key_eq k' k then (k', v) # d else (k', v') # dict_set d k v)"

lemma dict_lookup_set_same:
  "key_eq k k \<Longrightarrow> dict_lookup (dict_set d k v) k = Some v"
  by (induction d) auto

lemma dict_lookup_set_str:
  "dict_lookup (dict_set d (PStr k) v) (PStr k') =
     (if k = k' then Some v else dict_lookup d (PStr k'))"
  by (induction d) auto

section \<open>list(v) and dict(v)\<close>

definition not_iterable :: "pyval \<Rightarrow> pyerr" where
  "not_iterable v = TypeError ([CHR 0x27] @ type_name v @ [CHR 0x27] @ '' object is not iterable'')"

fun py_list :: "pyval \<Rightarrow> pyval list result" where
  "py_list (PStr s) = Inr (map (\<lambda>c. PStr [c]) s)"
| "py_list (PList xs) = Inr xs"
| "py_list (PDict d) = Inr (map fst d)"
| "py_list v = Inl (not_iterable v)"

fun dict_fill :: "nat \<Rightarrow> pydict \<Rightarrow> pyval list \<Rightarrow> pydict result" where
  "dict_fill i d [] = Inr d"
| "dict_fill i d (x # xs) =
     (case py_list x of
        Inl _ \<Rightarrow> Inl (TypeError (''cannot convert dictionary update sequence element #''
                  @ nat_str i @ '' to a sequence''))
      | Inr [k, v] \<Rightarrow>
          (if hashable k then dict_fill (Suc i) (dict_set d k v) xs
           else Inl (TypeError (''unhashable type: '' @ [CHR 0x27] @ type_name k @ [CHR 0x27])))
      | Inr ys \<Rightarrow> Inl (ValueError (''dictionary update sequence element #'' @ nat_str i
                  @ '' has length '' @ nat_str (length ys) @ ''; 2 is required'')))"

fun py_dict :: "pyval \<Rightarrow> pydict result" where
  "py_dict (PDict d) = Inr d"
| "py_dict v = ebind (py_list v) (dict_fill 0 [])"

end
