(* ===== verification/Validation.thy ===== *)
theory Validation
  imports PyVal
begin

text \<open>
  \<open>shared/validation.py\<close>: the \<open>require_*\<close> guards used at every trust boundary. Each takes
  an arbitrary value and returns the validated content, or the exception the guard raises.
  The lemmas characterise exactly when a guard passes and which exceptions it can raise.
\<close>

section \<open>The guards\<close>

definition require :: "bool \<Rightarrow> string \<Rightarrow> unit result" where
  "require condition message = (if \<not> condition then Inl (ValueError message) else Inr ())"

definition require_non_empty_str :: "pyval \<Rightarrow> string \<Rightarrow> string result" where
  "require_non_empty_str value name = (case value of
     PStr s \<Rightarrow> if strip s = [] then Inl (ValueError (name @ '' must not be empty'')) else Inr s
   | _ \<Rightarrow> Inl (TypeError (name @ '' must be a str, got '' @ type_name value)))"

definition require_positive_int :: "pyval \<Rightarrow> string \<Rightarrow> int result" where
  "require_positive_int value name = (case value of
     PInt i \<Rightarrow> if i \<le> 0 then Inl (ValueError (name @ '' must be > 0, got '' @ int_str i)) else Inr i
   | _ \<Rightarrow> Inl (TypeError (name @ '' must be an int, got '' @ type_name value)))"

text \<open>
  \<open>float(value)\<close> of an integer overflows from the midpoint between the largest double and
  the next power of two on. \<open>frepr\<close> is the \<open>repr\<close> of a float, used in the message only.
\<close>

definition float_of_int :: "int \<Rightarrow> pyfloat result" where
  "float_of_int i =
     (if 2 ^ 1024 - 2 ^ 970 \<le> \<bar>i\<bar> then Inl (OverflowError ''int too large to convert to float'')
      else Inr (Fin (of_int i)))"

definition require_non_negative_number ::
    "(pyfloat \<Rightarrow> string) \<Rightarrow> pyval \<Rightarrow> string \<Rightarrow> pyfloat result" where
  "require_non_negative_number frepr value name = (case value of
     PInt i \<Rightarrow> if i < 0 then Inl (ValueError (name @ '' must be >= 0, got '' @ int_str i))
               else float_of_int i
   | PFloat x \<Rightarrow> if pf_lt x (Fin 0) then Inl (ValueError (name @ '' must be >= 0, got '' @ frepr x))
                 else Inr x
   | _ \<Rightarrow> Inl (TypeError (name @ '' must be a number, got '' @ type_name value)))"

definition require_mapping :: "pyval \<Rightarrow> string \<Rightarrow> pydict result" where
  "require_mapping value name = (case value of
     PDict d \<Rightarrow> Inr d
   | _ \<Rightarrow> Inl (TypeError (name @ '' must be a mapping, got '' @ type_name value)))"

definition require_keys :: "pydict \<Rightarrow> string list \<Rightarrow> string \<Rightarrow> unit result" where
  "require_keys mapping keys name =
     (let missing = filter (\<lambda>k. \<not> dict_has mapping k) keys
      in if missing \<noteq> []
         then Inl (ValueError (name @ '' missing required keys: '' @ join '', '' (sort missing)))
         else Inr ())"

section \<open>When a guard passes\<close>

named_theorems guard_simps \<open>characterisations of the guards\<close>

lemma require_Inr [guard_simps]: "require c m = Inr u \<longleftrightarrow> c"
  by (simp add: require_def)

definition blank :: "string \<Rightarrow> bool" where
  "blank s \<longleftrightarrow> strip s = []"

lemma require_non_empty_str_Inr [guard_simps]:
  "require_non_empty_str v n = Inr s \<longleftrightarrow> v = PStr s \<and> \<not> blank s"
  by (cases v) (auto simp: require_non_empty_str_def blank_def)

lemma require_positive_int_Inr [guard_simps]:
  "require_positive_int v n = Inr i \<longleftrightarrow> v = PInt i \<and> 0 < i"
  by (cases v) (auto simp: require_positive_int_def)

lemma require_mapping_Inr [guard_simps]: "require_mapping v n = Inr d \<longleftrightarrow> v = PDict d"
  by (cases v) (auto simp: require_mapping_def)

lemma require_keys_Inr [guard_simps]:
  "require_keys d ks n = Inr u \<longleftrightarrow> (\<forall>k \<in> set ks. dict_has d k)"
  by (auto simp: require_keys_def Let_def filter_empty_conv)

lemma blank_Nil [simp]: "blank []"
  by (simp add: blank_def)

lemma require_non_empty_str_ok [simp]: "\<not> blank s \<Longrightarrow> require_non_empty_str (PStr s) n = Inr s"
  by (simp add: guard_simps)

lemma require_positive_int_ok [simp]: "0 < i \<Longrightarrow> require_positive_int (PInt i) n = Inr i"
  by (simp add: guard_simps)

lemma require_mapping_ok [simp]: "require_mapping (PDict d) n = Inr d"
  by (simp add: guard_simps)

section \<open>Which exceptions a guard raises\<close>

text \<open>Callers catch exactly \<open>TypeError\<close> and \<open>ValueError\<close> from the guards.\<close>

fun is_input_error :: "pyerr \<Rightarrow> bool" where
  "is_input_error (TypeError _) = True"
| "is_input_error (ValueError _) = True"
| "is_input_error JSONDecodeError = True"
| "is_input_error _ = False"

definition raises_only_input :: "'a result \<Rightarrow> bool" where
  "raises_only_input r \<longleftrightarrow> (case r of Inl e \<Rightarrow> is_input_error e | Inr _ \<Rightarrow> True)"

named_theorems input_intros \<open>computations that raise input errors only\<close>

lemma raises_only_input_Inr [simp]: "raises_only_input (Inr x)"
  by (simp add: raises_only_input_def)

lemma raises_only_input_Inl [simp]: "raises_only_input (Inl e) = is_input_error e"
  by (simp add: raises_only_input_def)

lemma raises_only_input_bind [input_intros]:
  "raises_only_input r \<Longrightarrow> (\<And>x. r = Inr x \<Longrightarrow> raises_only_input (k x)) \<Longrightarrow>
   raises_only_input (ebind r k)"
  by (cases r) auto

lemma require_non_empty_str_input [input_intros]: "raises_only_input (require_non_empty_str v n)"
  by (cases v) (auto simp: require_non_empty_str_def)

lemma require_positive_int_input [input_intros]: "raises_only_input (require_positive_int v n)"
  by (cases v) (auto simp: require_positive_int_def)

lemma require_mapping_input [input_intros]: "raises_only_input (require_mapping v n)"
  by (cases v) (auto simp: require_mapping_def)

lemma require_keys_input [input_intros]: "raises_only_input (require_keys d ks n)"
  by (simp add: require_keys_def Let_def)

lemma py_list_input [input_intros]: "raises_only_input (py_list v)"
  by (cases v) (auto simp: not_iterable_def)

lemma dict_fill_input [input_intros]: "raises_only_input (dict_fill i d xs)"
  by (induction i d xs rule: dict_fill.induct) (auto split: sum.splits list.splits)

lemma py_dict_input [input_intros]: "raises_only_input (py_dict v)"
  by (cases v) (auto intro: input_intros simp: not_iterable_def simp flip: py_list.simps)

text \<open>
  \<open>require_non_negative_number\<close> accepts exactly the non-negative integers that a float
  can hold and the floats that are not below zero, and returns the value itself as a float;
  a \<open>bool\<close> is refused although it is an \<open>int\<close>.
\<close>

theorem require_non_negative_number_accepts:
  "require_non_negative_number frepr v n = Inr x \<longleftrightarrow>
     (\<exists>i. v = PInt i \<and> 0 \<le> i \<and> i < 2 ^ 1024 - 2 ^ 970 \<and> x = Fin (of_int i)) \<or>
     (v = PFloat x \<and> (x = NaN \<or> Fin 0 \<le> x))"
  by (cases v) (auto simp: require_non_negative_number_def float_of_int_def pf_lt_def not_less
      simp del: power_numeral)

end
