(* ===== verification/PyFormat.thy ===== *)
theory PyFormat
  imports Validation
begin

text \<open>
  Conversions between Python values and text: \<open>repr\<close> and \<open>str\<close>, the fixed-point format
  codes of f-strings, and \<open>int(v)\<close>. The shortest-digits algorithm of a float's \<open>repr\<close> is a
  parameter \<open>frepr\<close>; everything else is written out.
\<close>

section \<open>repr and str\<close>

definition hex2 :: "char \<Rightarrow> string" where
  "hex2 c = (let n = of_char c :: nat
     in [''0123456789abcdef'' ! (n div 16), ''0123456789abcdef'' ! (n mod 16)])"

definition printable :: "char \<Rightarrow> bool" where
  "printable c \<longleftrightarrow> (let n = of_char c :: nat in 32 \<le> n \<and> n < 127 \<or> 161 \<le> n \<and> n \<noteq> 173)"

definition repr_char :: "char \<Rightarrow> char \<Rightarrow> string" where
  "repr_char quote c =
     (if c = quote \<or> c = CHR 0x5C then [CHR 0x5C, c]
      else if c = CHR 0x0A then [CHR 0x5C, CHR ''n'']
      else if c = CHR 0x0D then [CHR 0x5C, CHR ''r'']
      else if c = CHR 0x09 then [CHR 0x5C, CHR ''t'']
      else if printable c then [c]
      else [CHR 0x5C, CHR ''x''] @ hex2 c)"

definition repr_str :: "string \<Rightarrow> string" where
  "repr_str s =
     (let quote = (if CHR 0x27 \<in> set s \<and> CHR 0x22 \<notin> set s then CHR 0x22 else CHR 0x27)
      in [quote] @ concat (map (repr_char quote) s) @ [quote])"

fun py_repr :: "(pyfloat \<Rightarrow> string) \<Rightarrow> pyval \<Rightarrow> string" where
  "py_repr fr PNone = ''None''"
| "py_repr fr (PBool b) = (if b then ''True'' else ''False'')"
| "py_repr fr (PInt i) = int_str i"
| "py_repr fr (PFloat x) = fr x"
| "py_repr fr (PStr s) = repr_str s"
| "py_repr fr (PList xs) = ''['' @ join '', '' (map (py_repr fr) xs) @ '']''"
| "py_repr fr (PDict d) =
     ''{'' @ join '', '' (map (\<lambda>(k, v). py_repr fr k @ '': '' @ py_repr fr v) d) @ ''}''"

definition py_str :: "(pyfloat \<Rightarrow> string) \<Rightarrow> pyval \<Rightarrow> string" where
  "py_str fr v = (case v of PStr s \<Rightarrow> s | _ \<Rightarrow> py_repr fr v)"

section \<open>Fixed-point formats\<close>

definition pad_left :: "nat \<Rightarrow> string \<Rightarrow> string" where
  "pad_left n s = replicate (n - length s) CHR ''0'' @ s"

definition fixed_nonneg :: "nat \<Rightarrow> rat \<Rightarrow> string" where
  "fixed_nonneg d q =
     (let n = nat (round_half_even (q * 10 ^ d))
      in nat_str (n div 10 ^ d) @ (if d = 0 then [] else ''.'' @ pad_left d (nat_str (n mod 10 ^ d))))"

text \<open>\<open>format(x, ".df")\<close> of a float.\<close>

fun format_fixed :: "nat \<Rightarrow> pyfloat \<Rightarrow> string" where
  "format_fixed d NaN = ''nan''"
| "format_fixed d PInf = ''inf''"
| "format_fixed d NInf = ''-inf''"
| "format_fixed d (Fin q) = (if q < 0 then ''-'' @ fixed_nonneg d (- q) else fixed_nonneg d q)"

text \<open>\<open>f"{v:.df}"\<close>: integers are converted, anything that is not a number raises.\<close>

fun format_value :: "nat \<Rightarrow> pyval \<Rightarrow> string result" where
  "format_value d (PInt i) = ebind (float_of_int i) (\<lambda>x. Inr (format_fixed d x))"
| "format_value d (PBool b) = Inr (format_fixed d (Fin (if b then 1 else 0)))"
| "format_value d (PFloat x) = Inr (format_fixed d x)"
| "format_value d (PStr s) =
     Inl (ValueError (''Unknown format code '' @ [CHR 0x27, CHR ''f'', CHR 0x27] @
       '' for object of type '' @ [CHR 0x27] @ ''str'' @ [CHR 0x27]))"
| "format_value d v =
     Inl (TypeError (''unsupported format string passed to '' @ type_name v @ ''.__format__''))"

definition number_chars :: "char set" where
  "number_chars = set ''0123456789.-naif''"

lemma digits_number: "set digits \<subseteq> number_chars"
  by (auto simp: digits_def number_chars_def)

lemma set_nat_str_number: "set (nat_str n) \<subseteq> number_chars"
  using set_nat_str digits_number by (rule subset_trans)

lemma set_int_str_number: "set (int_str i) \<subseteq> number_chars"
  using set_nat_str_number by (auto simp: int_str_def number_chars_def)

lemma set_pad_left: "set s \<subseteq> number_chars \<Longrightarrow> set (pad_left n s) \<subseteq> number_chars"
  by (auto simp: pad_left_def number_chars_def)

lemma set_fixed_nonneg: "set (fixed_nonneg d q) \<subseteq> number_chars"
proof -
  have "set (pad_left d (nat_str m)) \<subseteq> number_chars" for m
    by (intro set_pad_left set_nat_str_number)
  moreover have "CHR ''.'' \<in> number_chars" by (simp add: number_chars_def)
  ultimately show ?thesis
    using set_nat_str_number by (auto simp: fixed_nonneg_def Let_def)
qed

lemma set_format_fixed: "set (format_fixed d x) \<subseteq> number_chars"
proof (cases x)
  case (Fin q)
  have "CHR ''-'' \<in> number_chars" by (simp add: number_chars_def)
  with Fin show ?thesis using set_fixed_nonneg by auto
qed (auto simp: number_chars_def)

lemma set_format_value: "format_value d v = Inr s \<Longrightarrow> set s \<subseteq> number_chars"
  using set_format_fixed by (cases v) (auto simp: result_simps simp del: format_fixed.simps)

section \<open>int(v)\<close>

fun digit_groups :: "string list \<Rightarrow> bool" where
  "digit_groups [] = True"
| "digit_groups (g # gs) = (g \<noteq> [] \<and> set g \<subseteq> set digits \<and> digit_groups gs)"

text \<open>Decimal digits with single underscores between them, at most 4300 of them.\<close>

definition parse_digits :: "string \<Rightarrow> string \<Rightarrow> nat result" where
  "parse_digits orig s =
     (let groups = split_on CHR ''_'' s; ds = concat groups
      in if \<not> digit_groups groups
         then Inl (ValueError (''invalid literal for int() with base 10: '' @ repr_str orig))
         else if 4300 < length ds
         then Inl (ValueError (''Exceeds the limit (4300 digits) for integer string conversion: value has ''
                @ nat_str (length ds) @ '' digits; use sys.set_int_max_str_digits() to increase the limit''))
         else Inr (nat_of_digits ds))"

definition parse_int :: "string \<Rightarrow> int result" where
  "parse_int s = (case strip s of
     [] \<Rightarrow> ebind (parse_digits s []) (\<lambda>n. Inr (int n))
   | c # cs \<Rightarrow>
       if c = CHR ''-'' then ebind (parse_digits s cs) (\<lambda>n. Inr (- int n))
       else if c = CHR ''+'' then ebind (parse_digits s cs) (\<lambda>n. Inr (int n))
       else ebind (parse_digits s (c # cs)) (\<lambda>n. Inr (int n)))"

definition trunc :: "rat \<Rightarrow> int" where
  "trunc q = (if q < 0 then - \<lfloor>- q\<rfloor> else \<lfloor>q\<rfloor>)"

fun py_int :: "pyval \<Rightarrow> int result" where
  "py_int (PInt i) = Inr i"
| "py_int (PBool b) = Inr (if b then 1 else 0)"
| "py_int (PFloat (Fin q)) = Inr (trunc q)"
| "py_int (PFloat NaN) = Inl (ValueError ''cannot convert float NaN to integer'')"
| "py_int (PFloat x) = Inl (OverflowError ''cannot convert float infinity to integer'')"
| "py_int (PStr s) = parse_int s"
| "py_int v =
     Inl (TypeError (''int() argument must be a string, a bytes-like object or a real number, not ''
       @ [CHR 0x27] @ type_name v @ [CHR 0x27]))"

lemma split_on_nat_str: "split_on CHR ''_'' (nat_str n) = [nat_str n]"
  using set_nat_str [of n] by (intro split_on_no_sep) (auto simp: digits_def)

lemma strip_int_str: "strip (int_str i) = int_str i"
proof -
  have sp: "\<not> is_space c" if "c \<in> number_chars" for c
    using that by (auto simp: number_chars_def is_space_def)
  have "int_str i \<noteq> []" by (simp add: int_str_def)
  then have "hd (int_str i) \<in> number_chars" "last (int_str i) \<in> number_chars"
    using set_int_str_number [of i] hd_in_set last_in_set by blast+
  then have "\<not> is_space (hd (int_str i))" "\<not> is_space (last (int_str i))" using sp by auto
  then have "dropWhile is_space (int_str i) = int_str i" and "rstrip_by is_space (int_str i) = int_str i"
    by (cases "int_str i"; simp add: rstrip_by_id)+
  then show ?thesis by (simp add: strip_def)
qed

text \<open>Reading back a printed number of at most 4300 digits gives the number.\<close>

lemma parse_digits_nat_str:
  "length (nat_str n) \<le> 4300 \<Longrightarrow> parse_digits s (nat_str n) = Inr n"
  using set_nat_str [of n] by (simp add: parse_digits_def split_on_nat_str Let_def)

lemma hd_nat_str: "nat_str n = c # cs \<Longrightarrow> c \<in> set digits"
  using set_nat_str [of n] by auto

lemma py_int_int_str:
  assumes "length (int_str i) \<le> 4300"
  shows "py_int (PStr (int_str i)) = Inr i"
proof (cases "i < 0")
  case True
  with assms have "length (nat_str (nat (- i))) \<le> 4300" by (simp add: int_str_def)
  with True show ?thesis
    using strip_int_str [of i] by (simp add: parse_int_def parse_digits_nat_str int_str_def)
next
  case False
  with assms have "length (nat_str (nat i)) \<le> 4300" by (simp add: int_str_def)
  moreover obtain c cs where c: "nat_str (nat i) = c # cs"
    by (meson list.exhaust nat_str_not_Nil)
  moreover from hd_nat_str [OF c] have "c \<noteq> CHR ''-''" "c \<noteq> CHR ''+''" by (auto simp: digits_def)
  ultimately show ?thesis
    using strip_int_str [of i] parse_digits_nat_str [of "nat i" "int_str i"] False
    by (simp add: parse_int_def int_str_def)
qed

end
