(* ===== verification/HostStats.thy ===== *)
theory HostStats
  imports PyFormat
begin

text \<open>
  \<open>shared/host_stats.py\<close>: the validated snapshot of a host's resources and its collection.
  What \<open>psutil\<close>, \<open>shutil\<close> and \<open>os\<close> report is a parameter.
\<close>

record host_stats =
  hs_host_id :: string
  hs_cpu_percent :: pyfloat
  hs_ram_available_mb :: pyfloat
  hs_ram_total_mb :: pyfloat
  hs_disk_available_gb :: pyfloat
  hs_disk_total_gb :: pyfloat
  hs_active_users :: int
  hs_online :: bool

definition tolerance :: pyfloat where
  "tolerance = Fin (1 / 1000000)"

text \<open>Construction: the assertions of \<open>__post_init__\<close>, in order.\<close>

definition HostStats :: "(pyfloat \<Rightarrow> string) \<Rightarrow> host_stats \<Rightarrow> host_stats result" where
  "HostStats frepr s =
     ebind (py_assert (hs_host_id s \<noteq> []) ''host_id must be non-empty str'') (\<lambda>_.
     ebind (py_assert (pf_le (Fin 0) (hs_cpu_percent s) \<and> pf_le (hs_cpu_percent s) (Fin 100))
              (''cpu_percent out of range: '' @ frepr (hs_cpu_percent s))) (\<lambda>_.
     ebind (py_assert (pf_le (Fin 0) (hs_ram_available_mb s)) ''ram_available_mb must be >= 0'') (\<lambda>_.
     ebind (py_assert (pf_le (Fin 0) (hs_ram_total_mb s)) ''ram_total_mb must be >= 0'') (\<lambda>_.
     ebind (py_assert (pf_le (hs_ram_available_mb s) (pf_add (hs_ram_total_mb s) tolerance))
              ''avail RAM > total RAM'') (\<lambda>_.
     ebind (py_assert (pf_le (Fin 0) (hs_disk_available_gb s)) ''disk_available_gb must be >= 0'') (\<lambda>_.
     ebind (py_assert (pf_le (Fin 0) (hs_disk_total_gb s)) ''disk_total_gb must be >= 0'') (\<lambda>_.
     ebind (py_assert (pf_le (hs_disk_available_gb s) (pf_add (hs_disk_total_gb s) tolerance))
              ''avail disk > total disk'') (\<lambda>_.
     ebind (py_assert (0 \<le> hs_active_users s) ''active_users must be >= 0'') (\<lambda>_.
     Inr s)))))))))"

definition host_stats_dict :: "host_stats \<Rightarrow> pydict" where
  "host_stats_dict s =
     [(PStr ''host_id'', PStr (hs_host_id s)),
      (PStr ''cpu_percent'', PFloat (hs_cpu_percent s)),
      (PStr ''ram_available_mb'', PFloat (hs_ram_available_mb s)),
      (PStr ''ram_total_mb'', PFloat (hs_ram_total_mb s)),
      (PStr ''disk_available_gb'', PFloat (hs_disk_available_gb s)),
      (PStr ''disk_total_gb'', PFloat (hs_disk_total_gb s)),
      (PStr ''active_users'', PInt (hs_active_users s)),
      (PStr ''online'', PBool (hs_online s))]"

text \<open>The readings of the machine: bytes for memory and disk, \<open>None\<close> when utmp is unreadable.\<close>

record readings =
  rd_cpu :: pyfloat
  rd_ram_available :: int
  rd_ram_total :: int
  rd_path_exists :: "string \<Rightarrow> bool"
  rd_makedirs_fails :: "string \<Rightarrow> bool"
  rd_disk_usage :: "string \<Rightarrow> (int \<times> int) result"
  rd_users :: "string list option"

definition clamp_cpu :: "pyfloat \<Rightarrow> pyfloat" where
  "clamp_cpu x = pf_max (Fin 0) (pf_min (Fin 100) x)"

definition collect_host_stats ::
    "(pyfloat \<Rightarrow> string) \<Rightarrow> readings \<Rightarrow> pyval \<Rightarrow> pyval \<Rightarrow> host_stats result" where
  "collect_host_stats frepr rd host_id disk_path =
     ebind (require_non_empty_str host_id ''host_id'') (\<lambda>h.
     ebind (require_non_empty_str disk_path ''disk_path'') (\<lambda>p.
     let cpu = clamp_cpu (rd_cpu rd);
         ram_available = Fin (of_int (rd_ram_available rd) / of_int (1024 * 1024));
         ram_total = Fin (of_int (rd_ram_total rd) / of_int (1024 * 1024));
         path = (if \<not> rd_path_exists rd p \<and> rd_makedirs_fails rd p then ''/'' else p)
     in ebind (rd_disk_usage rd path) (\<lambda>(free, total).
        let disk_available = Fin (of_int free / of_int (1024 ^ 3));
            disk_total = Fin (of_int total / of_int (1024 ^ 3));
            active_users = (case rd_users rd of None \<Rightarrow> 0 | Some us \<Rightarrow> int (length (remdups us)))
        in HostStats frepr
             \<lparr>hs_host_id = h, hs_cpu_percent = py_round 1 cpu,
              hs_ram_available_mb = py_round 1 ram_available, hs_ram_total_mb = py_round 1 ram_total,
              hs_disk_available_gb = py_round 2 disk_available, hs_disk_total_gb = py_round 2 disk_total,
              hs_active_users = active_users, hs_online = True\<rparr>)))"

section \<open>The snapshot is always valid\<close>

lemma clamp_cpu_cases: "clamp_cpu x = (case x of
    Fin q \<Rightarrow> Fin (max 0 (min 100 q)) | NInf \<Rightarrow> Fin 0 | _ \<Rightarrow> Fin 100)"
  by (cases x) (auto simp: clamp_cpu_def pf_max_def pf_min_def pf_lt_def max_def min_def)

lemma clamp_cpu_range: "\<exists>q. clamp_cpu x = Fin q \<and> 0 \<le> q \<and> q \<le> 100"
  by (cases x) (auto simp: clamp_cpu_cases)

lemma py_round_0 [simp]: "py_round d (Fin 0) = Fin 0"
  using py_round_of_int [of d 0] by simp

lemma py_round_numeral [simp]: "py_round d (Fin (numeral n)) = Fin (numeral n)"
  using py_round_of_int [of d "numeral n"] by simp

lemma py_round_nonneg: "0 \<le> q \<Longrightarrow> pf_le (Fin 0) (py_round d (Fin q))"
  using py_round_mono [of 0 q d] by (simp only: py_round_0)

lemma py_round_le_total:
  assumes "p \<le> q"
  shows "pf_le (py_round d (Fin p)) (pf_add (py_round d (Fin q)) tolerance)"
  using py_round_mono [OF assms, of d] by (auto simp: pf_le_def tolerance_def)

lemma rounded_cpu:
  "pf_le (Fin 0) (py_round 1 (clamp_cpu x))" "pf_le (py_round 1 (clamp_cpu x)) (Fin 100)"
proof -
  obtain q where q: "clamp_cpu x = Fin q" "0 \<le> q" "q \<le> 100" using clamp_cpu_range by blast
  with py_round_mono [of q 100 1] py_round_nonneg [of q 1]
  show "pf_le (Fin 0) (py_round 1 (clamp_cpu x))" "pf_le (py_round 1 (clamp_cpu x)) (Fin 100)"
    by (simp_all only: py_round_numeral)
qed

text \<open>What the operating system promises of its readings.\<close>

definition sane_readings :: "readings \<Rightarrow> bool" where
  "sane_readings rd \<longleftrightarrow> 0 \<le> rd_ram_available rd \<and> rd_ram_available rd \<le> rd_ram_total rd"

definition sane_disk :: "int \<times> int \<Rightarrow> bool" where
  "sane_disk u \<longleftrightarrow> 0 \<le> fst u \<and> fst u \<le> snd u"

lemma collect_succeeds:
  assumes "sane_readings rd" "\<not> blank h" "\<not> blank p"
    and "rd_disk_usage rd (if \<not> rd_path_exists rd p \<and> rd_makedirs_fails rd p then ''/'' else p) = Inr u"
    and "sane_disk u"
  shows "\<exists>s. collect_host_stats frepr rd (PStr h) (PStr p) = Inr s \<and> HostStats frepr s = Inr s \<and>
    hs_host_id s = h \<and> hs_online s \<and>
    pf_le (Fin 0) (hs_cpu_percent s) \<and> pf_le (hs_cpu_percent s) (Fin 100)"
proof -
  obtain free total where u: "u = (free, total)" by (cases u)
  have d: "(0::rat) \<le> of_int free / of_int (1024 ^ 3)"
    "(0::rat) \<le> of_int total / of_int (1024 ^ 3)"
    "(of_int free :: rat) / of_int (1024 ^ 3) \<le> of_int total / of_int (1024 ^ 3)"
    using assms(5) by (auto simp: u sane_disk_def intro!: divide_right_mono)
  have r: "(0::rat) \<le> of_int (rd_ram_available rd) / of_int (1024 * 1024)"
    "(0::rat) \<le> of_int (rd_ram_total rd) / of_int (1024 * 1024)"
    "(of_int (rd_ram_available rd) :: rat) / of_int (1024 * 1024) \<le> of_int (rd_ram_total rd) / of_int (1024 * 1024)"
    using assms(1) by (auto simp: sane_readings_def intro!: divide_right_mono)
  have h: "h \<noteq> []" using assms(2) by auto
  note rounds = rounded_cpu py_round_nonneg [OF d(1)] py_round_nonneg [OF d(2)]
    py_round_nonneg [OF r(1)] py_round_nonneg [OF r(2)] py_round_le_total [OF d(3)] py_round_le_total [OF r(3)]
  show ?thesis
    using assms(2-4) h rounds
    by (simp add: collect_host_stats_def HostStats_def Let_def u del: py_round.simps of_int_mult of_int_power
        of_int_numeral split: option.splits)
qed

text \<open>
  C30: Whatever CPU load psutil reports, infinite or not a number included, and whatever users
  are logged in, a collection on a machine whose free memory and disk lie between zero and
  their totals returns a snapshot that passes every assertion of \<open>HostStats\<close>, with a CPU
  load between 0 and 100: rounding never pushes an available amount above its total.
\<close>

theorem collect_never_asserts:
  assumes "sane_readings rd" "\<not> blank h" "\<not> blank p"
    and "rd_disk_usage rd (if \<not> rd_path_exists rd p \<and> rd_makedirs_fails rd p then ''/'' else p) = Inr u"
    and "sane_disk u"
  shows "\<exists>s. collect_host_stats frepr rd (PStr h) (PStr p) = Inr s \<and> HostStats frepr s = Inr s \<and>
    hs_host_id s = h \<and> hs_online s \<and>
    pf_le (Fin 0) (hs_cpu_percent s) \<and> pf_le (hs_cpu_percent s) (Fin 100)"
  using assms by (rule collect_succeeds)

definition example_readings :: readings where
  "example_readings = \<lparr>rd_cpu = NaN, rd_ram_available = 104857600, rd_ram_total = 209715200,
     rd_path_exists = (\<lambda>_. False), rd_makedirs_fails = (\<lambda>_. True),
     rd_disk_usage = (\<lambda>p. if p = ''/'' then Inr (5368709120, 10737418240) else Inl (FileNotFoundError p)),
     rd_users = Some [''root'', ''ann'', ''root'']\<rparr>"

theorem collect_never_asserts_witness:
  "\<exists>s. collect_host_stats (\<lambda>_. ''x'') example_readings (PStr ''worker_x'') (PStr ''/tmp/runs'') = Inr s \<and>
     HostStats (\<lambda>_. ''x'') s = Inr s \<and> hs_host_id s = ''worker_x'' \<and> hs_online s \<and>
     pf_le (Fin 0) (hs_cpu_percent s) \<and> pf_le (hs_cpu_percent s) (Fin 100)"
proof (rule collect_never_asserts)
  show "sane_readings example_readings" by (simp add: sane_readings_def example_readings_def)
  show "\<not> blank ''worker_x''" "\<not> blank ''/tmp/runs''" by code_simp+
  show "rd_disk_usage example_readings
      (if \<not> rd_path_exists example_readings ''/tmp/runs'' \<and> rd_makedirs_fails example_readings ''/tmp/runs''
       then ''/'' else ''/tmp/runs'') = Inr (5368709120, 10737418240)"
    by (simp add: example_readings_def)
  show "sane_disk (5368709120, 10737418240)" by (simp add: sane_disk_def)
qed

end
