(* ===== verification/Codec.thy ===== *)
theory Codec
  imports Prelude
begin

text \<open>
  The contract of a serialization: what a valid value is encoded to decodes to the value. Two
  serializations in a row are one.
\<close>

locale codec =
  fixes enc :: "'a \<Rightarrow> 'b"
    and dec :: "'b \<Rightarrow> 'a result"
    and ok :: "'a \<Rightarrow> bool"
  assumes dec_enc: "ok a \<Longrightarrow> dec (enc a) = Inr a"
begin

lemma enc_inj: "ok a \<Longrightarrow> ok b \<Longrightarrow> enc a = enc b \<Longrightarrow> a = b"
  by (metis dec_enc sum.inject(2))

lemma then_decode: "ok a \<Longrightarrow> ebind (dec (enc a)) k = k a"
  by (simp add: dec_enc)

end

locale codec_chain = outer: codec enc1 dec1 ok1 + inner: codec enc2 dec2 ok2
  for enc1 :: "'a \<Rightarrow> 'b" and dec1 :: "'b \<Rightarrow> 'a result" and ok1 :: "'a \<Rightarrow> bool"
    and enc2 :: "'b \<Rightarrow> 'c" and dec2 :: "'c \<Rightarrow> 'b result" and ok2 :: "'b \<Rightarrow> bool"

sublocale codec_chain \<subseteq> chain: codec "\<lambda>a. enc2 (enc1 a)" "\<lambda>t. ebind (dec2 t) dec1" "\<lambda>a. ok1 a \<and> ok2 (enc1 a)"
  by unfold_locales (simp add: outer.dec_enc inner.then_decode)

end
