(* ===== verification/Json.thy ===== *)
theory Json
  imports PyFormat Codec
begin

text \<open>
  The \<open>json\<close> module as the program uses it: \<open>dumps\<close> and \<open>dump(..., indent=2)\<close> with the
  default options, and \<open>loads\<close>. The digits of a float are the parameter \<open>frepr\<close>; reading them
  is exact. A character above U+00FF, which the model's strings do not have, is what the
  parameter \<open>wide\<close> stands in for it. The depth limit of the interpreter is not modelled.
\<close>

section \<open>Encoding\<close>

abbreviation quote_char :: char where "quote_char \<equiv> CHR 0x22"
abbreviation backslash :: char where "backslash \<equiv> CHR 0x5C"

text \<open>\<open>ensure_ascii\<close>: everything outside the printable ASCII range is escaped.\<close>

definition json_char :: "char \<Rightarrow> string" where
  "json_char c =
     (if c = quote_char \<or> c = backslash then [backslash, c]
      else if c = CHR 0x0A then [backslash, CHR ''n'']
      else if c = CHR 0x0D then [backslash, CHR ''r'']
      else if c = CHR 0x09 then [backslash, CHR ''t'']
      else if c = CHR 0x0C then [backslash, CHR ''f'']
      else if c = CHR 0x08 then [backslash, CHR ''b'']
      else if 32 \<le> (of_char c :: nat) \<and> (of_char c :: nat) < 127 then [c]
      else [backslash, CHR ''u'', CHR ''0'', CHR ''0''] @ hex2 c)"

definition json_str :: "string \<Rightarrow> string" where
  "json_str s = [quote_char] @ concat (map json_char s) @ [quote_char]"

fun json_float :: "(pyfloat \<Rightarrow> string) \<Rightarrow> pyfloat \<Rightarrow> string" where
  "json_float fr NaN = ''NaN''"
| "json_float fr PInf = ''Infinity''"
| "json_float fr NInf = ''-Infinity''"
| "json_float fr x = fr x"

text \<open>Keys that are not strings are converted; lists and dictionaries cannot be keys.\<close>

fun json_key :: "(pyfloat \<Rightarrow> string) \<Rightarrow> pyval \<Rightarrow> string" where
  "json_key fr (PStr s) = s"
| "json_key fr (PBool b) = (if b then ''true'' else ''false'')"
| "json_key fr (PInt i) = int_str i"
| "json_key fr (PFloat x) = json_float fr x"
| "json_key fr _ = ''null''"

text \<open>The line break and indentation at a level, with \<open>indent\<close>.\<close>

definition gap :: "nat option \<Rightarrow> nat \<Rightarrow> string" where
  "gap ind l = (case ind of None \<Rightarrow> [] | Some n \<Rightarrow> CHR 0x0A # replicate (n * l) CHR '' '')"

definition item_sep :: "nat option \<Rightarrow> nat \<Rightarrow> string" where
  "item_sep ind l = (case ind of None \<Rightarrow> '', '' | Some n \<Rightarrow> '','' @ gap ind l)"

fun json_text :: "(pyfloat \<Rightarrow> string) \<Rightarrow> nat option \<Rightarrow> nat \<Rightarrow> pyval \<Rightarrow> string" where
  "json_text fr ind l PNone = ''null''"
| "json_text fr ind l (PBool b) = (if b then ''true'' else ''false'')"
| "json_text fr ind l (PInt i) = int_str i"
| "json_text fr ind l (PFloat x) = json_float fr x"
| "json_text fr ind l (PStr s) = json_str s"
| "json_text fr ind l (PList xs) =
     (if xs = [] then ''[]''
      else ''['' @ gap ind (Suc l) @ join (item_sep ind (Suc l)) (map (json_text fr ind (Suc l)) xs)
           @ gap ind l @ '']'')"
| "json_text fr ind l (PDict d) =
     (if d = [] then ''{}''
      else ''{'' @ gap ind (Suc l)
           @ join (item_sep ind (Suc l))
               (map (\<lambda>(k, v). json_str (json_key fr k) @ '': '' @ json_text fr ind (Suc l) v) d)
           @ gap ind l @ ''}'')"

definition json_dumps :: "(pyfloat \<Rightarrow> string) \<Rightarrow> pyval \<Rightarrow> string" where
  "json_dumps fr v = json_text fr None 0 v"

definition json_dump_indented :: "(pyfloat \<Rightarrow> string) \<Rightarrow> pyval \<Rightarrow> string" where
  "json_dump_indented fr v = json_text fr (Some 2) 0 v"

section \<open>Decoding\<close>

text \<open>
  A parser returns \<open>None\<close> when its fuel is spent; otherwise an exception, or what it read with
  the rest of the text.
\<close>

type_synonym 'a parsed = "('a \<times> string) result option"

definition pbind :: "'a parsed \<Rightarrow> ('a \<Rightarrow> string \<Rightarrow> 'b parsed) \<Rightarrow> 'b parsed" where
  "pbind m k = (case m of None \<Rightarrow> None | Some (Inl e) \<Rightarrow> Some (Inl e) | Some (Inr (x, rest)) \<Rightarrow> k x rest)"

abbreviation json_error :: "'a result" where
  "json_error \<equiv> Inl JSONDecodeError"

definition is_ws :: "char \<Rightarrow> bool" where
  "is_ws c \<longleftrightarrow> c = CHR '' '' \<or> c = CHR 0x09 \<or> c = CHR 0x0A \<or> c = CHR 0x0D"

definition skip_ws :: "string \<Rightarrow> string" where
  "skip_ws s = dropWhile is_ws s"

definition hex_val :: "char \<Rightarrow> nat option" where
  "hex_val c =
     (let n = of_char c :: nat
      in if 48 \<le> n \<and> n < 58 then Some (n - 48)
         else if 97 \<le> n \<and> n < 103 then Some (n - 87)
         else if 65 \<le> n \<and> n < 71 then Some (n - 55) else None)"

text \<open>Four hexadecimal digits.\<close>

fun hex4 :: "string \<Rightarrow> (nat \<times> string) option" where
  "hex4 (a # b # c # d # rest) =
     (case (hex_val a, hex_val b, hex_val c, hex_val d) of
        (Some w, Some x, Some y, Some z) \<Rightarrow> Some (((w * 16 + x) * 16 + y) * 16 + z, rest)
      | _ \<Rightarrow> None)"
| "hex4 _ = None"

definition char_code :: "(nat \<Rightarrow> char) \<Rightarrow> nat \<Rightarrow> char" where
  "char_code wide n = (if n < 256 then char_of n else wide n)"

text \<open>A high surrogate is joined with a low one that follows.\<close>

definition unicode_escape :: "(nat \<Rightarrow> char) \<Rightarrow> string \<Rightarrow> (char \<times> string) result" where
  "unicode_escape wide s = (case hex4 s of
     None \<Rightarrow> json_error
   | Some (n, rest) \<Rightarrow>
       if 0xD800 \<le> n \<and> n \<le> 0xDBFF \<and> startswith rest [backslash, CHR ''u'']
       then (case hex4 (drop 2 rest) of
               None \<Rightarrow> json_error
             | Some (m, rest') \<Rightarrow>
                 if 0xDC00 \<le> m \<and> m \<le> 0xDFFF
                 then Inr (char_code wide (0x10000 + (n - 0xD800) * 0x400 + (m - 0xDC00)), rest')
                 else Inr (char_code wide n, rest))
       else Inr (char_code wide n, rest))"

definition simple_escape :: "char \<Rightarrow> char option" where
  "simple_escape c = map_of
     [(quote_char, quote_char), (backslash, backslash), (CHR ''/'', CHR ''/''), (CHR ''b'', CHR 0x08),
      (CHR ''f'', CHR 0x0C), (CHR ''n'', CHR 0x0A), (CHR ''r'', CHR 0x0D), (CHR ''t'', CHR 0x09)] c"

lemma hex4_shorter: "hex4 s = Some (n, rest) \<Longrightarrow> length rest < length s"
  by (induction s rule: hex4.induct) (auto split: option.splits)

lemma unicode_escape_shorter: "unicode_escape wide s = Inr (c, rest) \<Longrightarrow> length rest < length s"
  by (auto simp: unicode_escape_def split: option.splits if_splits dest!: hex4_shorter)

text \<open>The characters up to the closing quote.\<close>

function parse_chars :: "(nat \<Rightarrow> char) \<Rightarrow> string \<Rightarrow> (string \<times> string) result" where
  "parse_chars wide [] = json_error"
| "parse_chars wide (c # cs) =
     (if c = quote_char then Inr ([], cs)
      else if c = backslash then
        (case cs of
           [] \<Rightarrow> json_error
         | e # cs' \<Rightarrow>
             (case (if e = CHR ''u'' then unicode_escape wide cs'
                    else case simple_escape e of None \<Rightarrow> json_error | Some x \<Rightarrow> Inr (x, cs')) of
                Inl err \<Rightarrow> Inl err
              | Inr (x, rest) \<Rightarrow> ebind (parse_chars wide rest) (\<lambda>(t, rest'). Inr (x # t, rest'))))
      else if (of_char c :: nat) < 32 then json_error
      else ebind (parse_chars wide cs) (\<lambda>(t, rest). Inr (c # t, rest)))"
  by pat_completeness auto
termination
  by (relation "measure (\<lambda>(_, s). length s)")
     (auto split: if_splits option.splits dest: unicode_escape_shorter)

text \<open>Numbers: the integer part without leading zeros, then a fraction and an exponent if well-formed.\<close>

definition is_digit :: "char \<Rightarrow> bool" where
  "is_digit c \<longleftrightarrow> c \<in> set digits"

fun int_part :: "string \<Rightarrow> (string \<times> string) option" where
  "int_part [] = None"
| "int_part (c # cs) =
     (if c = CHR ''0'' then Some ([c], cs)
      else if is_digit c then Some (c # takeWhile is_digit cs, dropWhile is_digit cs) else None)"

fun frac_part :: "string \<Rightarrow> string \<times> string" where
  "frac_part [] = ([], [])"
| "frac_part (c # cs) =
     (if c = CHR ''.'' \<and> takeWhile is_digit cs \<noteq> [] then (takeWhile is_digit cs, dropWhile is_digit cs)
      else ([], c # cs))"

fun exp_sign :: "string \<Rightarrow> bool \<times> string" where
  "exp_sign [] = (False, [])"
| "exp_sign (c # cs) =
     (if c = CHR ''-'' then (True, cs) else if c = CHR ''+'' then (False, cs) else (False, c # cs))"

fun exp_part :: "string \<Rightarrow> int option \<times> string" where
  "exp_part [] = (None, [])"
| "exp_part (c # cs) =
     (if c = CHR ''e'' \<or> c = CHR ''E''
      then (case exp_sign cs of (neg, t) \<Rightarrow>
        let ds = takeWhile is_digit t; n = int (nat_of_digits ds)
        in if ds = [] then (None, c # cs) else (Some (if neg then - n else n), dropWhile is_digit t))
      else (None, c # cs))"

text \<open>\<open>float(text)\<close>: the exact value, infinite from where the rounding to 64 bits overflows.\<close>

definition float_limit :: int where
  "float_limit = 2 ^ 1024 - 2 ^ 970"

lemma float_limit_code [code]:
  "float_limit =
     179769313486231580793728971405303415079934132710037826936173778980444968292764750946649017977587207096330286416692887910946555547851940402630657488671505820681908902000708383676273854845817711531764475730270069855571366959622842914819860834936475292719074168444365510704342711559699508093042880177904174497792"
  by (simp add: float_limit_def)

definition decimal_float :: "bool \<Rightarrow> string \<Rightarrow> string \<Rightarrow> int option \<Rightarrow> pyfloat" where
  "decimal_float neg ds fs ex =
     (let m = of_nat (nat_of_digits (ds @ fs)) / 10 ^ length fs :: rat;
          q = (case ex of None \<Rightarrow> m | Some e \<Rightarrow> if e < 0 then m / 10 ^ nat (- e) else m * 10 ^ nat e)
      in if of_int float_limit \<le> q then (if neg then NInf else PInf) else Fin (if neg then - q else q))"

definition number_value :: "bool \<Rightarrow> string \<Rightarrow> string \<Rightarrow> int option \<Rightarrow> pyval result" where
  "number_value neg ds fs ex =
     (if fs = [] \<and> ex = None then
        (if 4300 < length ds
         then Inl (ValueError (''Exceeds the limit (4300 digits) for integer string conversion: value has ''
                @ nat_str (length ds) @ '' digits; use sys.set_int_max_str_digits() to increase the limit''))
         else Inr (PInt (if neg then - int (nat_of_digits ds) else int (nat_of_digits ds))))
      else Inr (PFloat (decimal_float neg ds fs ex)))"

definition parse_number :: "string \<Rightarrow> (pyval \<times> string) result" where
  "parse_number s =
     (let neg = startswith s ''-''; t = (if neg then tl s else s)
      in case int_part t of
           None \<Rightarrow> json_error
         | Some (ds, t1) \<Rightarrow>
             (case frac_part t1 of (fs, t2) \<Rightarrow>
              case exp_part t2 of (ex, t3) \<Rightarrow> ebind (number_value neg ds fs ex) (\<lambda>v. Inr (v, t3))))"

definition constants :: "(string \<times> pyval) list" where
  "constants = [(''null'', PNone), (''true'', PBool True), (''false'', PBool False), (''NaN'', PFloat NaN),
     (''Infinity'', PFloat PInf), (''-Infinity'', PFloat NInf)]"

definition parse_scalar :: "string \<Rightarrow> (pyval \<times> string) result" where
  "parse_scalar s = (case List.find (\<lambda>(name, _). startswith s name) constants of
     Some (name, v) \<Rightarrow> Inr (v, drop (length name) s)
   | None \<Rightarrow> parse_number s)"

text \<open>The pairs of an object: a key that occurs again replaces the value.\<close>

definition object_of :: "(string \<times> pyval) list \<Rightarrow> pyval" where
  "object_of ms = PDict (foldl (\<lambda>d (k, v). dict_set d (PStr k) v) [] ms)"

fun parse_value :: "(nat \<Rightarrow> char) \<Rightarrow> nat \<Rightarrow> string \<Rightarrow> pyval parsed"
  and parse_items :: "(nat \<Rightarrow> char) \<Rightarrow> nat \<Rightarrow> string \<Rightarrow> pyval list parsed"
  and parse_members :: "(nat \<Rightarrow> char) \<Rightarrow> nat \<Rightarrow> string \<Rightarrow> (string \<times> pyval) list parsed" where
  "parse_value wide 0 s = None"
| "parse_value wide (Suc n) s = (case s of
     [] \<Rightarrow> Some json_error
   | c # cs \<Rightarrow>
       if c = quote_char then Some (ebind (parse_chars wide cs) (\<lambda>(t, rest). Inr (PStr t, rest)))
       else if c = CHR ''['' then
         (if startswith (skip_ws cs) '']'' then Some (Inr (PList [], tl (skip_ws cs)))
          else pbind (parse_items wide n (skip_ws cs)) (\<lambda>xs rest. Some (Inr (PList xs, rest))))
       else if c = CHR ''{'' then
         (if startswith (skip_ws cs) ''}'' then Some (Inr (PDict [], tl (skip_ws cs)))
          else pbind (parse_members wide n (skip_ws cs)) (\<lambda>ms rest. Some (Inr (object_of ms, rest))))
       else Some (parse_scalar s))"
| "parse_items wide 0 s = None"
| "parse_items wide (Suc n) s =
     pbind (parse_value wide n s) (\<lambda>v rest. case skip_ws rest of
       [] \<Rightarrow> Some json_error
     | c # r \<Rightarrow>
         if c = CHR '']'' then Some (Inr ([v], r))
         else if c = CHR '','' then pbind (parse_items wide n (skip_ws r)) (\<lambda>vs rest'. Some (Inr (v # vs, rest')))
         else Some json_error)"
| "parse_members wide 0 s = None"
| "parse_members wide (Suc n) s = (case s of
     [] \<Rightarrow> Some json_error
   | q # cs \<Rightarrow>
       if q \<noteq> quote_char then Some json_error
       else pbind (Some (parse_chars wide cs)) (\<lambda>k rest. case skip_ws rest of
           [] \<Rightarrow> Some json_error
         | colon # r \<Rightarrow>
             if colon \<noteq> CHR '':'' then Some json_error
             else pbind (parse_value wide n (skip_ws r)) (\<lambda>v rest. case skip_ws rest of
                 [] \<Rightarrow> Some json_error
               | c # r \<Rightarrow>
                   if c = CHR ''}'' then Some (Inr ([(k, v)], r))
                   else if c = CHR '','' then pbind (parse_members wide n (skip_ws r)) (\<lambda>ms rest'. Some (Inr ((k, v) # ms, rest')))
                   else Some json_error)))"

text \<open>\<open>json.loads\<close>: one value between white space and nothing else.\<close>

definition fuel_for :: "string \<Rightarrow> nat" where
  "fuel_for s = 2 * length s + 1"

definition json_loads :: "(nat \<Rightarrow> char) \<Rightarrow> string \<Rightarrow> pyval result" where
  "json_loads wide s = (case parse_value wide (fuel_for s) (skip_ws s) of
     None \<Rightarrow> Inl (RuntimeError ''out of fuel'')
   | Some (Inl e) \<Rightarrow> Inl e
   | Some (Inr (v, rest)) \<Rightarrow> if skip_ws rest = [] then Inr v else json_error)"

section \<open>The fuel is enough\<close>

lemma pbind_Inr: "pbind m k = Some (Inr y) \<longleftrightarrow> (\<exists>x r. m = Some (Inr (x, r)) \<and> k x r = Some (Inr y))"
  by (auto simp: pbind_def split: option.splits sum.splits)

lemma pbind_not_None:
  "m \<noteq> None \<Longrightarrow> (\<And>x r. m = Some (Inr (x, r)) \<Longrightarrow> k x r \<noteq> None) \<Longrightarrow> pbind m k \<noteq> None"
  by (auto simp: pbind_def split: option.splits sum.splits)

lemma length_skip_ws: "length (skip_ws s) \<le> length s"
  by (simp add: skip_ws_def length_dropWhile_le)

lemma skip_ws_shorter: "skip_ws s = c # r \<Longrightarrow> length r < length s"
  using length_skip_ws [of s] by simp

lemma parse_chars_shorter: "parse_chars wide s = Inr (t, r) \<Longrightarrow> length r < length s"
proof (induction wide s arbitrary: t r rule: parse_chars.induct)
  case (2 wide c cs)
  show ?case
  proof (cases "c = quote_char \<or> c \<noteq> backslash")
    case True
    with 2 show ?thesis by (fastforce simp: result_simps split: if_splits)
  next
    case False
    with 2(3) obtain e cs' x rest t' where cs: "cs = e # cs'"
      and esc: "(if e = CHR ''u'' then unicode_escape wide cs'
        else case simple_escape e of None \<Rightarrow> json_error | Some x \<Rightarrow> Inr (x, cs')) = Inr (x, rest)"
      and rest: "parse_chars wide rest = Inr (t', r)"
      by (auto simp: result_simps split: list.splits sum.splits)
    have "length rest \<le> length cs'"
      using esc unicode_escape_shorter [of wide cs' x rest] by (auto split: if_splits option.splits)
    moreover have "length r < length rest" using 2(1) False cs esc rest by simp
    ultimately show ?thesis using cs by simp
  qed
qed simp

lemma int_part_shorter: "int_part s = Some (ds, t) \<Longrightarrow> length t < length s"
  by (cases s) (auto simp: less_Suc_eq_le length_dropWhile_le split: if_splits)

lemma frac_part_le: "frac_part s = (fs, t) \<Longrightarrow> length t \<le> length s"
  by (cases s) (auto simp: le_SucI length_dropWhile_le split: if_splits)

lemma exp_sign_le: "exp_sign s = (b, t) \<Longrightarrow> length t \<le> length s"
  by (cases s) (auto split: if_splits)

lemma exp_part_le: "exp_part s = (ex, t) \<Longrightarrow> length t \<le> length s"
proof (cases s)
  case (Cons c cs)
  obtain neg u where u: "exp_sign cs = (neg, u)" by (cases "exp_sign cs")
  assume "exp_part s = (ex, t)"
  with Cons u exp_sign_le [OF u] length_dropWhile_le [of is_digit u] show ?thesis
    by (auto simp: Let_def split: if_splits)
qed auto

lemma parse_number_Inr:
  "parse_number s = Inr (v, r) \<longleftrightarrow>
     (\<exists>ds t1 fs t2 ex. int_part (if startswith s ''-'' then tl s else s) = Some (ds, t1) \<and>
        frac_part t1 = (fs, t2) \<and> exp_part t2 = (ex, r) \<and> number_value (startswith s ''-'') ds fs ex = Inr v)"
  by (auto simp: parse_number_def Let_def result_simps split: option.splits prod.splits)

lemma parse_number_shorter:
  assumes "parse_number s = Inr (v, r)"
  shows "length r < length s"
proof -
  from assms obtain ds t1 fs t2 ex where t: "int_part (if startswith s ''-'' then tl s else s) = Some (ds, t1)"
    "frac_part t1 = (fs, t2)" "exp_part t2 = (ex, r)"
    by (auto simp: parse_number_Inr)
  have "length (if startswith s ''-'' then tl s else s) \<le> length s" by simp
  with int_part_shorter [OF t(1)] frac_part_le [OF t(2)] exp_part_le [OF t(3)] show ?thesis by linarith
qed

lemma constants_nonempty: "(name, v) \<in> set constants \<Longrightarrow> name \<noteq> []"
  by (auto simp: constants_def)

lemma parse_scalar_shorter:
  assumes "parse_scalar (c # s) = Inr (v, r)"
  shows "length r < length (c # s)"
proof (cases "List.find (\<lambda>(name, _). startswith (c # s) name) constants")
  case None
  with assms have "parse_number (c # s) = Inr (v, r)" by (simp add: parse_scalar_def)
  then show ?thesis by (rule parse_number_shorter)
next
  case (Some a)
  then obtain name x where a: "a = (name, x)" "name \<noteq> []"
    by (metis constants_nonempty find_Some_in prod.exhaust)
  with assms Some have "r = drop (length name) (c # s)" by (simp add: parse_scalar_def)
  with a(2) show ?thesis by (cases name) auto
qed

text \<open>Inversion of one round of the two loops.\<close>

lemma parse_items_Inr:
  assumes "parse_items wide (Suc n) s = Some (Inr (vs, r))"
  obtains x r1 where "parse_value wide n s = Some (Inr (x, r1))" "skip_ws r1 = CHR '']'' # r"
  | x r1 q us where "parse_value wide n s = Some (Inr (x, r1))" "skip_ws r1 = CHR '','' # q"
      "parse_items wide n (skip_ws q) = Some (Inr (us, r))"
proof -
  from assms obtain x r1 where x: "parse_value wide n s = Some (Inr (x, r1))"
    and k: "(case skip_ws r1 of [] \<Rightarrow> Some json_error
      | c # q \<Rightarrow> if c = CHR '']'' then Some (Inr ([x], q))
         else if c = CHR '','' then pbind (parse_items wide n (skip_ws q)) (\<lambda>vs rest'. Some (Inr (x # vs, rest')))
         else Some json_error) = Some (Inr (vs, r))"
    by (auto simp: pbind_Inr simp del: list.case)
  from k show thesis
    by (auto simp: pbind_Inr split: list.split_asm if_split_asm intro: that x)
qed

lemma parse_members_Inr:
  assumes "parse_members wide (Suc n) s = Some (Inr (ms, r))"
  obtains cs k r1 q x r2 where "s = quote_char # cs" "parse_chars wide cs = Inr (k, r1)" "skip_ws r1 = CHR '':'' # q"
      "parse_value wide n (skip_ws q) = Some (Inr (x, r2))" "skip_ws r2 = CHR ''}'' # r"
  | cs k r1 q x r2 q2 us where "s = quote_char # cs" "parse_chars wide cs = Inr (k, r1)" "skip_ws r1 = CHR '':'' # q"
      "parse_value wide n (skip_ws q) = Some (Inr (x, r2))" "skip_ws r2 = CHR '','' # q2"
      "parse_members wide n (skip_ws q2) = Some (Inr (us, r))"
proof -
  from assms obtain cs where s: "s = quote_char # cs" by (auto split: list.split_asm if_split_asm)
  with assms obtain k r1 where k: "parse_chars wide cs = Inr (k, r1)"
    by (auto simp: pbind_def split: option.split_asm sum.split_asm)
  with assms s obtain q where q: "skip_ws r1 = CHR '':'' # q"
    by (auto simp: pbind_def split: list.split_asm if_split_asm)
  with assms s k obtain x r2 where x: "parse_value wide n (skip_ws q) = Some (Inr (x, r2))"
    and t: "(case skip_ws r2 of [] \<Rightarrow> Some json_error
      | c # r \<Rightarrow> if c = CHR ''}'' then Some (Inr ([(k, x)], r))
         else if c = CHR '','' then pbind (parse_members wide n (skip_ws r)) (\<lambda>ms rest'. Some (Inr ((k, x) # ms, rest')))
         else Some json_error) = Some (Inr (ms, r))"
    by (auto simp: pbind_Inr)
  from t show thesis
    by (auto simp: pbind_Inr split: list.split_asm if_split_asm intro: that s k q x)
qed

lemma parse_value_Inr:
  "parse_value wide (Suc n) s = Some (Inr (v, r)) \<Longrightarrow>
     \<exists>c cs. s = c # cs \<and>
       ((\<exists>t. parse_chars wide cs = Inr (t, r)) \<or> r = tl (skip_ws cs) \<or>
        (\<exists>xs. parse_items wide n (skip_ws cs) = Some (Inr (xs, r))) \<or>
        (\<exists>ms. parse_members wide n (skip_ws cs) = Some (Inr (ms, r))) \<or> parse_scalar s = Inr (v, r))"
  by (cases s) (auto simp: pbind_Inr result_simps split: if_splits)

lemma parse_shorter:
  "(\<forall>s v r. parse_value wide n s = Some (Inr (v, r)) \<longrightarrow> length r < length s) \<and>
   (\<forall>s v r. parse_items wide n s = Some (Inr (v, r)) \<longrightarrow> length r < length s) \<and>
   (\<forall>s v r. parse_members wide n s = Some (Inr (v, r)) \<longrightarrow> length r < length s)"
proof (induction n)
  case (Suc n)
  then have iv: "\<And>s v r. parse_value wide n s = Some (Inr (v, r)) \<Longrightarrow> length r < length s"
    and ii: "\<And>s v r. parse_items wide n s = Some (Inr (v, r)) \<Longrightarrow> length r < length s"
    and im: "\<And>s v r. parse_members wide n s = Some (Inr (v, r)) \<Longrightarrow> length r < length s" by blast+
  have "length r < length s" if v: "parse_value wide (Suc n) s = Some (Inr (v, r))" for s v r
  proof -
    from parse_value_Inr [OF v] obtain c cs where cs: "s = c # cs"
      "(\<exists>t. parse_chars wide cs = Inr (t, r)) \<or> r = tl (skip_ws cs) \<or>
        (\<exists>xs. parse_items wide n (skip_ws cs) = Some (Inr (xs, r))) \<or>
        (\<exists>ms. parse_members wide n (skip_ws cs) = Some (Inr (ms, r))) \<or> parse_scalar (c # cs) = Inr (v, r)"
      by blast
    then show ?thesis
      using length_skip_ws [of cs] parse_chars_shorter [of wide cs _ r] ii [of "skip_ws cs" _ r] im [of "skip_ws cs" _ r]
        parse_scalar_shorter [of c cs v r]
      by auto
  qed
  moreover have "length r < length s" if "parse_items wide (Suc n) s = Some (Inr (vs, r))" for s vs r
  proof -
    from that obtain x r1 where x: "parse_value wide n s = Some (Inr (x, r1))"
      and k: "skip_ws r1 = CHR '']'' # r \<or>
        (\<exists>q us. skip_ws r1 = CHR '','' # q \<and> parse_items wide n (skip_ws q) = Some (Inr (us, r)))"
      by (elim parse_items_Inr) blast+
    have "length r < length r1"
      using k skip_ws_shorter [of r1] ii length_skip_ws by (meson less_trans order_less_le_trans)
    with iv [OF x] show ?thesis by simp
  qed
  moreover have "length r < length s" if "parse_members wide (Suc n) s = Some (Inr (ms, r))" for s ms r
  proof -
    from that obtain cs k r1 q x r2 where s: "s = quote_char # cs"
      "parse_chars wide cs = Inr (k, r1)" "skip_ws r1 = CHR '':'' # q"
      "parse_value wide n (skip_ws q) = Some (Inr (x, r2))"
      and t: "skip_ws r2 = CHR ''}'' # r \<or>
        (\<exists>q us. skip_ws r2 = CHR '','' # q \<and> parse_members wide n (skip_ws q) = Some (Inr (us, r)))"
      by (elim parse_members_Inr) blast+
    have "length r < length r2"
      using t skip_ws_shorter [of r2] im length_skip_ws by (meson less_trans order_less_le_trans)
    then show ?thesis
      using iv [OF s(4)] length_skip_ws [of q] skip_ws_shorter [OF s(3)] parse_chars_shorter [OF s(2)] s(1) by simp
  qed
  ultimately show ?case by blast
qed simp

lemmas parse_value_shorter = parse_shorter [THEN conjunct1, rule_format]
  and parse_items_shorter = parse_shorter [THEN conjunct2, THEN conjunct1, rule_format]
  and parse_members_shorter = parse_shorter [THEN conjunct2, THEN conjunct2, rule_format]

lemma parse_fuel:
  "(\<forall>s. 2 * length s < n \<longrightarrow> parse_value wide n s \<noteq> None) \<and>
   (\<forall>s. 2 * length s + 1 < n \<longrightarrow> parse_items wide n s \<noteq> None) \<and>
   (\<forall>s. 2 * length s + 1 < n \<longrightarrow> parse_members wide n s \<noteq> None)"
proof (induction n)
  case (Suc n)
  then have iv: "\<And>s. 2 * length s < n \<Longrightarrow> parse_value wide n s \<noteq> None"
    and ii: "\<And>s. 2 * length s + 1 < n \<Longrightarrow> parse_items wide n s \<noteq> None"
    and im: "\<And>s. 2 * length s + 1 < n \<Longrightarrow> parse_members wide n s \<noteq> None" by blast+
  have "parse_value wide (Suc n) s \<noteq> None" if l: "2 * length s < Suc n" for s
  proof (cases s)
    case (Cons c cs)
    with l length_skip_ws [of cs] have "2 * length (skip_ws cs) + 1 < n" by simp
    then have "parse_items wide n (skip_ws cs) \<noteq> None" "parse_members wide n (skip_ws cs) \<noteq> None"
      using ii im by blast+
    with Cons show ?thesis by (auto simp: pbind_def split: option.splits sum.splits)
  qed simp
  moreover have "parse_items wide (Suc n) s \<noteq> None" if l: "2 * length s + 1 < Suc n" for s
  proof -
    have next_item: "parse_items wide n (skip_ws q) \<noteq> None"
      if "parse_value wide n s = Some (Inr (x, r))" "skip_ws r = c # q" for x r c q
      using l parse_value_shorter [OF that(1)] skip_ws_shorter [OF that(2)] length_skip_ws [of q]
      by (intro ii) simp
    have "parse_value wide n s \<noteq> None" using l iv by simp
    then show ?thesis
      by (auto simp: pbind_def dest: next_item split: option.splits sum.splits list.splits)
  qed
  moreover have "parse_members wide (Suc n) s \<noteq> None" if l: "2 * length s + 1 < Suc n" for s
  proof (cases s)
    case (Cons quo cs)
    have val: "2 * length (skip_ws q) + 1 < n" if "parse_chars wide cs = Inr (k, r)" "skip_ws r = c # q" for k r c q
      using l Cons parse_chars_shorter [OF that(1)] skip_ws_shorter [OF that(2)] length_skip_ws [of q] by simp
    have first: "parse_value wide n (skip_ws q) \<noteq> None" if "parse_chars wide cs = Inr (k, r)" "skip_ws r = c # q" for k r c q
      using val [OF that] by (intro iv) simp
    have more: "parse_members wide n (skip_ws q2) \<noteq> None"
      if "parse_chars wide cs = Inr (k, r)" "skip_ws r = c # q" "parse_value wide n (skip_ws q) = Some (Inr (x, r2))"
        "skip_ws r2 = c2 # q2" for k r c q x r2 c2 q2
      using val [OF that(1,2)] parse_value_shorter [OF that(3)] skip_ws_shorter [OF that(4)] length_skip_ws [of q2]
      by (intro im) simp
    show ?thesis
      using Cons by (auto simp: pbind_def dest: first more split: option.splits sum.splits list.splits)
  qed simp
  ultimately show ?case by blast
qed simp

lemma json_loads_fuel: "parse_value wide (fuel_for s) (skip_ws s) \<noteq> None"
  using parse_fuel [of "fuel_for s" wide] length_skip_ws [of s]
  by (simp add: fuel_for_def order_le_less_trans)

section \<open>Reading back what was written\<close>

lemma of_char_bound: "(of_char c :: nat) < 256"
proof -
  have "(of_char c :: nat) = of_char c mod 256" using of_char_of [of "of_char c :: nat"] by simp
  then show ?thesis by (metis mod_less_divisor zero_less_numeral)
qed

lemma hex_val_digit: "n < 16 \<Longrightarrow> hex_val (''0123456789abcdef'' ! n) = Some n"
  by (auto simp: hex_val_def less_Suc_eq numeral_eq_Suc)

lemma hex4_hex2: "hex4 (CHR ''0'' # CHR ''0'' # hex2 c @ t) = Some (of_char c, t)"
proof -
  have "(of_char c :: nat) < 256" by (rule of_char_bound)
  then have "(of_char c :: nat) div 16 < 16" by (simp add: less_mult_imp_div_less)
  then have "hex_val (''0123456789abcdef'' ! (of_char c div 16)) = Some (of_char c div 16)"
    "hex_val (''0123456789abcdef'' ! (of_char c mod 16)) = Some (of_char c mod 16)"
    by (auto intro!: hex_val_digit)
  moreover have "hex_val CHR ''0'' = Some 0" by (simp add: hex_val_def)
  ultimately show ?thesis by (simp add: hex2_def Let_def)
qed

lemma unicode_escape_hex2: "unicode_escape wide (CHR ''0'' # CHR ''0'' # hex2 c @ t) = Inr (c, t)"
proof -
  have b: "(of_char c :: nat) < 256" by (rule of_char_bound)
  then have "\<not> 0xD800 \<le> (of_char c :: nat)" by linarith
  with b show ?thesis by (simp add: unicode_escape_def hex4_hex2 char_code_def del: hex4.simps)
qed

lemma parse_json_char:
  "parse_chars wide (json_char c @ t) = ebind (parse_chars wide t) (\<lambda>(u, r). Inr (c # u, r))"
proof -
  consider "c = quote_char \<or> c = backslash" | "c = CHR 0x0A \<or> c = CHR 0x0D \<or> c = CHR 0x09 \<or> c = CHR 0x0C \<or> c = CHR 0x08"
    | "c \<notin> {quote_char, backslash, CHR 0x0A, CHR 0x0D, CHR 0x09, CHR 0x0C, CHR 0x08}" by blast
  then show ?thesis
  proof cases
    case 3
    then show ?thesis
      by (cases "32 \<le> (of_char c :: nat) \<and> (of_char c :: nat) < 127")
         (simp_all add: json_char_def unicode_escape_hex2)
  qed (auto simp: json_char_def simple_escape_def)
qed

lemma parse_json_str: "parse_chars wide (concat (map json_char s) @ quote_char # rest) = Inr (s, rest)"
  by (induction s) (simp_all add: parse_json_char)

text \<open>What may follow a number without being read as part of it.\<close>

definition number_char :: "char \<Rightarrow> bool" where
  "number_char c \<longleftrightarrow> is_digit c \<or> c = CHR ''.'' \<or> c = CHR ''e'' \<or> c = CHR ''E'' \<or> c = CHR ''+'' \<or> c = CHR ''-''"

fun number_ends :: "string \<Rightarrow> bool" where
  "number_ends [] = True"
| "number_ends (c # _) = (\<not> number_char c)"

lemma while_digits_append:
  "number_ends rest \<Longrightarrow> takeWhile is_digit (s @ rest) = takeWhile is_digit s \<and>
     dropWhile is_digit (s @ rest) = dropWhile is_digit s @ rest"
  by (induction s) (cases rest; auto simp: number_char_def)+

lemma int_part_append:
  "number_ends rest \<Longrightarrow> int_part s = Some (ds, t) \<Longrightarrow> int_part (s @ rest) = Some (ds, t @ rest)"
  by (cases s) (auto simp: while_digits_append split: if_splits)

lemma frac_part_append:
  "number_ends rest \<Longrightarrow> frac_part s = (fs, t) \<Longrightarrow> frac_part (s @ rest) = (fs, t @ rest)"
  by (cases s; cases rest) (auto simp: while_digits_append number_char_def split: if_splits)

lemma exp_sign_append:
  "number_ends rest \<Longrightarrow> exp_sign s = (b, t) \<Longrightarrow> exp_sign (s @ rest) = (b, t @ rest)"
  by (cases s; cases rest) (auto simp: number_char_def split: if_splits)

lemma exp_part_append:
  assumes "number_ends rest" "exp_part s = (ex, t)"
  shows "exp_part (s @ rest) = (ex, t @ rest)"
proof (cases s)
  case Nil
  with assms show ?thesis by (cases rest) (auto simp: number_char_def)
next
  case (Cons c cs)
  obtain neg u where "exp_sign cs = (neg, u)" by (cases "exp_sign cs")
  with exp_sign_append [OF assms(1)] while_digits_append [OF assms(1)] Cons assms(2) show ?thesis
    by (auto simp: Let_def split: if_splits)
qed

lemma parse_number_append:
  assumes "number_ends rest" "parse_number s = Inr (v, r)"
  shows "parse_number (s @ rest) = Inr (v, r @ rest)"
proof -
  from assms(2) obtain ds t1 fs t2 ex where t: "int_part (if startswith s ''-'' then tl s else s) = Some (ds, t1)"
    "frac_part t1 = (fs, t2)" "exp_part t2 = (ex, r)" "number_value (startswith s ''-'') ds fs ex = Inr v"
    by (auto simp: parse_number_Inr)
  have s: "s \<noteq> []" using t(1) by auto
  then have "startswith (s @ rest) ''-'' = startswith s ''-''" "tl (s @ rest) = tl s @ rest"
    by (cases s; simp)+
  with t int_part_append [OF assms(1) t(1)] frac_part_append [OF assms(1) t(2)] exp_part_append [OF assms(1) t(3)]
  show ?thesis by (auto simp: parse_number_Inr split: if_splits)
qed

lemma is_digit_not [simp]:
  "\<not> is_digit CHR ''-''" "\<not> is_digit quote_char" "\<not> is_digit CHR ''[''" "\<not> is_digit CHR ''{''"
  "\<not> is_digit CHR ''n''" "\<not> is_digit CHR ''t''" "\<not> is_digit CHR ''f''" "\<not> is_digit CHR ''N''" "\<not> is_digit CHR ''I''"
  by (simp_all add: is_digit_def digits_def)

lemma nat_str_digits: "list_all is_digit (nat_str n)"
  using set_nat_str [of n] by (auto simp: list_all_iff is_digit_def)

lemma nat_str_hd_zero: "hd (nat_str n) = CHR ''0'' \<longleftrightarrow> n = 0"
proof (induction n rule: nat_str.induct)
  case (1 n)
  have "digit_char d = CHR ''0'' \<longleftrightarrow> d = 0" if "d < 10" for d
    using digit_char_inj [OF that, of 0] by (auto simp: digit_char_def)
  with 1 show ?case
    by (subst nat_str.simps) (auto simp: hd_append)
qed

lemma int_part_nat_str: "int_part (nat_str n) = Some (nat_str n, [])"
proof (cases "n = 0")
  case True
  then show ?thesis by (subst (1 2) nat_str.simps) (simp add: digit_char_def)
next
  case False
  obtain c cs where c: "nat_str n = c # cs" by (meson list.exhaust nat_str_not_Nil)
  moreover have "c \<noteq> CHR ''0''" using nat_str_hd_zero [of n] False c by simp
  moreover have "is_digit c" "takeWhile is_digit cs = cs" "dropWhile is_digit cs = []"
    using nat_str_digits [of n] c by (auto simp: list_all_iff takeWhile_eq_all_conv)
  ultimately show ?thesis by simp
qed

lemma parse_int_str:
  assumes "length (nat_str (nat \<bar>i\<bar>)) \<le> 4300"
  shows "parse_number (int_str i) = Inr (PInt i, [])"
proof -
  obtain c cs where c: "nat_str (nat i) = c # cs" by (meson list.exhaust nat_str_not_Nil)
  moreover have "c \<noteq> CHR ''-''" using hd_nat_str [OF c] by (auto simp: digits_def)
  ultimately have "\<not> startswith (nat_str (nat i)) ''-''" by simp
  with assms show ?thesis
    by (cases "i < 0") (simp_all add: int_str_def parse_number_def int_part_nat_str number_value_def)
qed

lemma parse_number_start:
  assumes "parse_number s = Inr (v, r)"
  obtains c cs where "s = c # cs" "c = CHR ''-'' \<and> (\<exists>d ds. cs = d # ds \<and> is_digit d) \<or> is_digit c"
proof -
  have digit: "\<exists>d ds. t = d # ds \<and> is_digit d" if "int_part t = Some x" for t x
    using that by (cases t) (auto simp: is_digit_def digits_def split: if_splits)
  from assms obtain x where x: "int_part (if startswith s ''-'' then tl s else s) = Some x"
    by (auto simp: parse_number_Inr)
  show thesis
  proof (cases "startswith s ''-''")
    case True
    then obtain cs where "s = CHR ''-'' # cs" by (cases s) auto
    with x digit [of cs] that show ?thesis by auto
  next
    case False
    with x digit [of s] that show ?thesis by auto
  qed
qed

lemma number_not_constant:
  assumes "parse_number s = Inr (v, r)"
  shows "List.find (\<lambda>(name, _). startswith (s @ t) name) constants = None"
proof -
  from assms obtain c cs where s: "s = c # cs" "c = CHR ''-'' \<and> (\<exists>d ds. cs = d # ds \<and> is_digit d) \<or> is_digit c"
    by (rule parse_number_start)
  then have "c \<notin> set ''ntfNI''" by auto
  moreover have "\<not> startswith (s @ t) ''-Infinity''" using s by auto
  ultimately show ?thesis using s(1) by (simp add: constants_def)
qed

lemma parse_scalar_number:
  "number_ends rest \<Longrightarrow> parse_number s = Inr (v, []) \<Longrightarrow> parse_scalar (s @ rest) = Inr (v, rest)"
  using parse_number_append [of rest s v "[]"] by (simp add: parse_scalar_def number_not_constant)

lemma parse_value_scalar:
  assumes "number_ends rest" "parse_number s = Inr (v, [])"
  shows "parse_value wide (Suc n) (s @ rest) = Some (Inr (v, rest))"
proof -
  obtain c cs where "s = c # cs" "c = CHR ''-'' \<and> (\<exists>d ds. cs = d # ds \<and> is_digit d) \<or> is_digit c"
    using assms(2) by (rule parse_number_start)
  moreover from this have "c \<noteq> quote_char" "c \<noteq> CHR ''[''" "c \<noteq> CHR ''{''" by auto
  ultimately show ?thesis using parse_scalar_number [OF assms] by simp
qed

text \<open>
  The values that survive: string keys, each once; integers the interpreter prints; floats that
  are not finite, or whose digits \<open>frepr\<close> prints so that they read back.
\<close>

fun float_ok :: "(pyfloat \<Rightarrow> string) \<Rightarrow> pyfloat \<Rightarrow> bool" where
  "float_ok fr (Fin q) = (parse_number (fr (Fin q)) = Inr (PFloat (Fin q), []))"
| "float_ok fr _ = True"

fun str_key :: "pyval \<Rightarrow> bool" where
  "str_key (PStr _) = True"
| "str_key _ = False"

fun_cases str_keyE: "str_key k"

fun jsonable :: "(pyfloat \<Rightarrow> string) \<Rightarrow> pyval \<Rightarrow> bool" where
  "jsonable fr (PInt i) = (length (nat_str (nat \<bar>i\<bar>)) \<le> 4300)"
| "jsonable fr (PFloat x) = float_ok fr x"
| "jsonable fr (PList xs) = list_all (jsonable fr) xs"
| "jsonable fr (PDict d) = (distinct (map fst d) \<and> list_all (\<lambda>(k, v). str_key k \<and> jsonable fr v) d)"
| "jsonable fr _ = True"

lemma gap_ws: "list_all is_ws (gap ind l)"
  by (auto simp: gap_def is_ws_def list_all_iff split: option.split)

lemma item_sep_comma: "\<exists>w. item_sep ind l = CHR '','' # w \<and> list_all is_ws w"
  using gap_ws by (cases ind) (auto simp: item_sep_def is_ws_def)

lemma skip_ws_to: "list_all is_ws w \<Longrightarrow> \<not> is_ws c \<Longrightarrow> skip_ws (w @ c # s) = c # s"
  by (induction w) (simp_all add: skip_ws_def)

lemma number_ends_gap: "\<not> number_char c \<Longrightarrow> number_ends (gap ind l @ c # s)"
  by (cases ind) (simp_all add: gap_def number_char_def is_digit_def digits_def)

text \<open>The text of a value starts with a character that is not white space.\<close>

definition starts :: "string \<Rightarrow> bool" where
  "starts s \<longleftrightarrow> (\<exists>c cs. s = c # cs \<and> \<not> is_ws c)"

lemma starts_number: "parse_number s = Inr (v, r) \<Longrightarrow> starts s"
  by (erule parse_number_start) (auto simp: starts_def is_ws_def is_digit_def digits_def)

lemma starts_text: "jsonable fr v \<Longrightarrow> starts (json_text fr ind l v)"
proof (cases v)
  case (PInt i)
  then show "jsonable fr v \<Longrightarrow> ?thesis" by (auto intro: starts_number parse_int_str)
next
  case (PFloat x)
  have "starts ''NaN''" "starts ''Infinity''" "starts ''-Infinity''" by (simp_all add: starts_def is_ws_def)
  with PFloat show "jsonable fr v \<Longrightarrow> ?thesis" by (cases x) (auto intro: starts_number)
qed (auto simp: starts_def json_str_def is_ws_def)

lemma starts_skip: "starts s \<Longrightarrow> list_all is_ws w \<Longrightarrow> skip_ws (w @ s @ t) = s @ t"
  by (auto simp: starts_def skip_ws_to)

lemma starts_append: "starts s \<Longrightarrow> starts (s @ t)"
  by (auto simp: starts_def)

lemma starts_not_Nil: "starts s \<Longrightarrow> s \<noteq> []"
  by (auto simp: starts_def)

lemma starts_join: "xs \<noteq> [] \<Longrightarrow> starts (f (hd xs)) \<Longrightarrow> starts (join sep (map f xs))"
  by (cases xs rule: remdups_adj.cases) (auto intro: starts_append)

text \<open>The two loops read what \<open>join\<close> wrote, given that each element is read back.\<close>

lemma parse_items_text:
  assumes "xs \<noteq> []" "\<And>x. x \<in> set xs \<Longrightarrow> starts (f x)"
    and "\<And>x m r. x \<in> set xs \<Longrightarrow> number_ends r \<Longrightarrow> 2 * length (f x @ r) < m \<Longrightarrow>
      parse_value wide m (f x @ r) = Some (Inr (x, r))"
    and "2 * length (join (item_sep ind l) (map f xs) @ gap ind k @ CHR '']'' # rest) + 1 < n"
  shows "parse_items wide n (join (item_sep ind l) (map f xs) @ gap ind k @ CHR '']'' # rest) = Some (Inr (xs, rest))"
  using assms
proof (induction xs arbitrary: n)
  case (Cons x xs)
  from Cons.prems(4) obtain m where n: "n = Suc m" by (cases n) auto
  show ?case
  proof (cases "xs = []")
    case True
    let ?r = "gap ind k @ CHR '']'' # rest"
    have "parse_value wide m (f x @ ?r) = Some (Inr (x, ?r))"
      using Cons.prems True n
      by (intro Cons.prems(3) number_ends_gap) (simp_all add: number_char_def is_digit_def digits_def)
    with True n show ?thesis by (simp add: pbind_def skip_ws_to gap_ws is_ws_def)
  next
    case False
    let ?t = "join (item_sep ind l) (map f xs)" and ?e = "gap ind k @ CHR '']'' # rest"
    obtain w where w: "item_sep ind l = CHR '','' # w" "list_all is_ws w" using item_sep_comma by blast
    have j: "join (item_sep ind l) (map f (x # xs)) = f x @ CHR '','' # w @ ?t"
      using False w(1) by (cases xs) auto
    have r: "parse_items wide m (?t @ ?e) = Some (Inr (xs, rest))"
      using False Cons.prems(2,3) Cons.prems(4) [unfolded j n] by (intro Cons.IH) auto
    have "parse_value wide m (f x @ CHR '','' # w @ ?t @ ?e) = Some (Inr (x, CHR '','' # w @ ?t @ ?e))"
      using Cons.prems(4) [unfolded j n]
      by (intro Cons.prems(3)) (simp_all add: number_char_def is_digit_def digits_def)
    moreover have "skip_ws (w @ ?t @ ?e) = ?t @ ?e"
      using False Cons.prems(2) w(2) by (intro starts_skip starts_join) auto
    moreover have "skip_ws (CHR '','' # w @ ?t @ ?e) = CHR '','' # w @ ?t @ ?e"
      using skip_ws_to [of "[]"] by (simp add: is_ws_def)
    ultimately show ?thesis using r n unfolding j by (simp add: pbind_def)
  qed
qed simp

lemma parse_members_text:
  assumes "ms \<noteq> []" "\<And>k x. (k, x) \<in> set ms \<Longrightarrow> starts (f x)"
    and "\<And>k x m r. (k, x) \<in> set ms \<Longrightarrow> number_ends r \<Longrightarrow> 2 * length (f x @ r) < m \<Longrightarrow>
      parse_value wide m (f x @ r) = Some (Inr (x, r))"
    and "2 * length (join (item_sep ind l) (map (\<lambda>(k, x). json_str k @ '': '' @ f x) ms) @ gap ind j @ CHR ''}'' # rest) + 1 < n"
  shows "parse_members wide n (join (item_sep ind l) (map (\<lambda>(k, x). json_str k @ '': '' @ f x) ms)
      @ gap ind j @ CHR ''}'' # rest) = Some (Inr (ms, rest))"
  using assms
proof (induction ms arbitrary: n)
  case (Cons a ms)
  obtain k x where a: "a = (k, x)" by (cases a)
  from Cons.prems(4) obtain m where n: "n = Suc m" by (cases n) auto
  let ?g = "\<lambda>(k, x). json_str k @ '': '' @ f x"
  have head: "json_str k @ '': '' @ f x @ r = quote_char # concat (map json_char k) @ quote_char # CHR '':'' # [CHR '' ''] @ f x @ r" for r
    by (simp add: json_str_def)
  have colon: "skip_ws (CHR '':'' # s) = CHR '':'' # s" for s
    using skip_ws_to [of "[]"] by (simp add: is_ws_def)
  have space: "skip_ws ([CHR '' ''] @ f x @ r) = f x @ r" for r
    using Cons.prems(2) a by (intro starts_skip) (auto simp: is_ws_def)
  show ?case
  proof (cases "ms = []")
    case True
    let ?r = "gap ind j @ CHR ''}'' # rest"
    have "parse_value wide m (f x @ ?r) = Some (Inr (x, ?r))"
      using Cons.prems True n a
      by (intro Cons.prems(3) number_ends_gap) (auto simp: number_char_def is_digit_def digits_def)
    moreover have "skip_ws ?r = CHR ''}'' # rest" by (simp add: skip_ws_to gap_ws is_ws_def)
    ultimately show ?thesis
      using True n a space [of ?r]
      by (simp add: head [of ?r, simplified] pbind_def parse_json_str colon)
  next
    case False
    let ?t = "join (item_sep ind l) (map ?g ms)" and ?e = "gap ind j @ CHR ''}'' # rest"
    obtain w where w: "item_sep ind l = CHR '','' # w" "list_all is_ws w" using item_sep_comma by blast
    have jo: "join (item_sep ind l) (map ?g (a # ms)) = json_str k @ '': '' @ f x @ CHR '','' # w @ ?t"
      using False w(1) a by (cases ms) auto
    let ?r = "CHR '','' # w @ ?t @ ?e"
    have r: "parse_members wide m (?t @ ?e) = Some (Inr (ms, rest))"
      using False Cons.prems(2) Cons.prems(4) [unfolded jo n]
      by (intro Cons.IH) (auto intro: Cons.prems(3))
    have "parse_value wide m (f x @ ?r) = Some (Inr (x, ?r))"
      using Cons.prems(4) [unfolded jo n] a
      by (intro Cons.prems(3)) (auto simp: number_char_def is_digit_def digits_def)
    moreover have "skip_ws (w @ ?t @ ?e) = ?t @ ?e"
      using False w(2) by (intro starts_skip starts_join) (auto simp: starts_def json_str_def is_ws_def split: prod.split)
    moreover have "skip_ws ?r = ?r" using skip_ws_to [of "[]"] by (simp add: is_ws_def)
    moreover have "join (item_sep ind l) (map ?g (a # ms)) @ ?e = json_str k @ '': '' @ f x @ ?r"
      unfolding jo by simp
    ultimately show ?thesis
      using r n a space [of ?r] by (simp only: head) (simp add: pbind_def parse_json_str colon)
  qed
qed simp

lemma dict_fold_distinct:
  "distinct (map fst (d @ map (\<lambda>(k, v). (PStr k, v)) ms)) \<Longrightarrow> list_all (\<lambda>(k, _). str_key k) d \<Longrightarrow>
     foldl (\<lambda>d (k, v). dict_set d (PStr k) v) d ms = d @ map (\<lambda>(k, v). (PStr k, v)) ms"
proof (induction ms arbitrary: d)
  case (Cons a ms)
  have set_new: "PStr k \<notin> fst ` set d \<Longrightarrow> dict_set d (PStr k) v = d @ [(PStr k, v)]" for k v d
    by (induction d) auto
  obtain k v where a: "a = (k, v)" by (cases a)
  with Cons.prems set_new [of k d v] Cons.IH [of "d @ [(PStr k, v)]"] show ?case by auto
qed simp

lemma object_of_members:
  assumes "jsonable fr (PDict d)"
  shows "object_of (map (\<lambda>(k, v). (json_key fr k, v)) d) = PDict d"
proof -
  let ?ms = "map (\<lambda>(k, v). (json_key fr k, v)) d"
  have "map (\<lambda>(k, v). (PStr k, v)) ?ms = d"
    using assms by (auto simp: list_all_iff intro!: map_idI elim!: str_keyE)
  then show ?thesis
    using assms dict_fold_distinct [of "[]" ?ms] by (simp add: object_of_def)
qed

text \<open>Text that starts with a bracket goes to the loop of the bracket.\<close>

lemma parse_open_list:
  assumes "starts t" "hd t \<noteq> CHR '']''" "parse_items wide n (t @ u) = Some (Inr (xs, rest))" "list_all is_ws w"
  shows "parse_value wide (Suc n) (CHR ''['' # w @ t @ u) = Some (Inr (PList xs, rest))"
  using assms(1,2) starts_skip [OF assms(1,4), of u] assms(3)
  by (auto simp: pbind_def starts_def)

lemma parse_open_object:
  assumes "starts t" "hd t \<noteq> CHR ''}''" "parse_members wide n (t @ u) = Some (Inr (ms, rest))" "list_all is_ws w"
  shows "parse_value wide (Suc n) (CHR ''{'' # w @ t @ u) = Some (Inr (object_of ms, rest))"
  using assms(1,2) starts_skip [OF assms(1,4), of u] assms(3)
  by (auto simp: pbind_def starts_def)

lemma hd_text: "jsonable fr v \<Longrightarrow> hd (json_text fr ind l v) \<noteq> CHR '']''"
proof (cases v)
  case (PInt i)
  then show "jsonable fr v \<Longrightarrow> ?thesis"
    using parse_int_str [of i] by (auto elim: parse_number_start simp: is_digit_def digits_def)
next
  case (PFloat x)
  then show "jsonable fr v \<Longrightarrow> ?thesis"
    by (cases x) (auto elim: parse_number_start simp: is_digit_def digits_def)
qed (auto simp: json_str_def)

lemma hd_join: "xs \<noteq> [] \<Longrightarrow> starts (f (hd xs)) \<Longrightarrow> hd (join sep (map f xs)) = hd (f (hd xs))"
  by (cases xs rule: remdups_adj.cases) (auto simp: hd_append dest: starts_not_Nil)

lemma parse_list_text:
  assumes IH: "\<And>x m r. x \<in> set xs \<Longrightarrow> jsonable fr x \<Longrightarrow> number_ends r \<Longrightarrow>
      2 * length (json_text fr ind (Suc l) x @ r) < m \<Longrightarrow>
      parse_value wide m (json_text fr ind (Suc l) x @ r) = Some (Inr (x, r))"
    and js: "jsonable fr (PList xs)" and len: "2 * length (json_text fr ind l (PList xs) @ rest) < n"
  shows "parse_value wide n (json_text fr ind l (PList xs) @ rest) = Some (Inr (PList xs, rest))"
proof -
  from len obtain m where n: "n = Suc m" by (cases n) auto
  show ?thesis
  proof (cases "xs = []")
    case True
    with n show ?thesis by (simp add: skip_ws_def is_ws_def)
  next
    case False
    let ?f = "json_text fr ind (Suc l)" and ?e = "gap ind l @ CHR '']'' # rest"
    have j: "\<And>x. x \<in> set xs \<Longrightarrow> jsonable fr x" using js by (simp add: list_all_iff)
    have items: "parse_items wide m (join (item_sep ind (Suc l)) (map ?f xs) @ ?e) = Some (Inr (xs, rest))"
      using len n False by (intro parse_items_text False IH starts_text j) auto
    have first: "starts (?f (hd xs))" "hd (?f (hd xs)) \<noteq> CHR '']''"
      using False j by (auto intro!: starts_text hd_text)
    then have "starts (join (item_sep ind (Suc l)) (map ?f xs))"
      "hd (join (item_sep ind (Suc l)) (map ?f xs)) \<noteq> CHR '']''"
      using False by (simp_all add: starts_join hd_join)
    from parse_open_list [OF this items gap_ws] show ?thesis using False n by simp
  qed
qed

lemma parse_dict_text:
  assumes IH: "\<And>kv m r. kv \<in> set d \<Longrightarrow> jsonable fr (snd kv) \<Longrightarrow> number_ends r \<Longrightarrow>
      2 * length (json_text fr ind (Suc l) (snd kv) @ r) < m \<Longrightarrow>
      parse_value wide m (json_text fr ind (Suc l) (snd kv) @ r) = Some (Inr (snd kv, r))"
    and js: "jsonable fr (PDict d)" and len: "2 * length (json_text fr ind l (PDict d) @ rest) < n"
  shows "parse_value wide n (json_text fr ind l (PDict d) @ rest) = Some (Inr (PDict d, rest))"
proof -
  from len obtain m where n: "n = Suc m" by (cases n) auto
  show ?thesis
  proof (cases "d = []")
    case True
    with n show ?thesis by (simp add: skip_ws_def is_ws_def)
  next
    case False
    let ?f = "json_text fr ind (Suc l)" and ?e = "gap ind l @ CHR ''}'' # rest"
    let ?ms = "map (\<lambda>(k, v). (json_key fr k, v)) d"
    let ?g = "\<lambda>(k, x). json_str k @ '': '' @ ?f x"
    have j: "jsonable fr x" if "(k, x) \<in> set ?ms" for k x using js that by (auto simp: list_all_iff)
    have g: "map (\<lambda>(k, v). json_str (json_key fr k) @ '': '' @ ?f v) d = map ?g ?ms"
      by (simp add: case_prod_beta comp_def)
    have ih: "parse_value wide k (?f x @ r) = Some (Inr (x, r))"
      if "(key, x) \<in> set ?ms" "number_ends r" "2 * length (?f x @ r) < k" for key x k r
      using IH j [OF that(1)] that by fastforce
    have "2 * length (join (item_sep ind (Suc l)) (map (\<lambda>(k, v). json_str (json_key fr k) @ '': '' @ ?f v) d) @ ?e) + 1 < m"
      using len n False by simp
    then have "2 * length (join (item_sep ind (Suc l)) (map ?g ?ms) @ ?e) + 1 < m" unfolding g .
    then have members: "parse_members wide m (join (item_sep ind (Suc l)) (map ?g ?ms) @ ?e) = Some (Inr (?ms, rest))"
      using False by (intro parse_members_text ih starts_text j) auto
    have pair: "starts (?g kv)" "hd (?g kv) \<noteq> CHR ''}''" for kv
      by (auto simp: starts_def json_str_def is_ws_def split: prod.split)
    then have "starts (join (item_sep ind (Suc l)) (map ?g ?ms))" "hd (join (item_sep ind (Suc l)) (map ?g ?ms)) \<noteq> CHR ''}''"
      using False starts_join [of ?ms ?g] hd_join [of ?ms ?g] by auto
    note parse_open_object [OF this members gap_ws, of ind "Suc l"]
    moreover have "json_text fr ind l (PDict d) @ rest =
        CHR ''{'' # gap ind (Suc l) @ join (item_sep ind (Suc l)) (map ?g ?ms) @ ?e"
      using False unfolding g [symmetric] by simp
    ultimately show ?thesis using object_of_members [OF js] by (simp only: n)
  qed
qed

theorem parse_text:
  "jsonable fr v \<Longrightarrow> number_ends rest \<Longrightarrow> 2 * length (json_text fr ind l v @ rest) < n \<Longrightarrow>
     parse_value wide n (json_text fr ind l v @ rest) = Some (Inr (v, rest))"
proof (induction fr ind l v arbitrary: n rest rule: json_text.induct)
  case (1 fr ind l)
  then show ?case by (cases n) (simp_all add: parse_scalar_def constants_def)
next
  case (2 fr ind l b)
  then show ?case by (cases n) (auto simp: parse_scalar_def constants_def)
next
  case (3 fr ind l i)
  then show ?case using parse_value_scalar [OF 3(2) parse_int_str] by (cases n) simp_all
next
  case (4 fr ind l x)
  then obtain m where n: "n = Suc m" by (cases n) auto
  show ?case
  proof (cases x)
    case (Fin q)
    with 4 n show ?thesis using parse_value_scalar [OF 4(2)] by simp
  qed (simp_all add: n parse_scalar_def constants_def)
next
  case (5 fr ind l s)
  then show ?case by (cases n) (simp_all add: json_str_def parse_json_str)
next
  case (6 fr ind l xs)
  show ?case by (rule parse_list_text [OF _ 6(2,4)], rule 6(1)) auto
next
  case (7 fr ind l d)
  show ?case by (rule parse_dict_text [OF _ 7(2,4)], rule 7(1) [OF _ _ surjective_pairing [symmetric]]) auto
qed

section \<open>The codec as a whole\<close>

lemma json_loads_text:
  assumes "jsonable fr v"
  shows "json_loads wide (json_text fr ind l v) = Inr v"
proof -
  have sk: "skip_ws (json_text fr ind l v) = json_text fr ind l v"
    using starts_skip [OF starts_text [OF assms], of "[]" ind l "[]"] by simp
  have "parse_value wide (fuel_for (json_text fr ind l v)) (json_text fr ind l v) = Some (Inr (v, []))"
    using parse_text [OF assms, of "[]" ind l "fuel_for (json_text fr ind l v)" wide]
    by (simp add: fuel_for_def)
  then show ?thesis unfolding json_loads_def sk by (simp add: skip_ws_def)
qed

interpretation json_codec: codec "json_text fr ind l" "json_loads wide" "jsonable fr" for fr ind l wide
  by unfold_locales (rule json_loads_text)

lemma json_loads_dumps: "jsonable fr v \<Longrightarrow> json_loads wide (json_dumps fr v) = Inr v"
  unfolding json_dumps_def by (rule json_codec.dec_enc)

text \<open>What a decoding can raise.\<close>

fun decode_error :: "pyerr \<Rightarrow> bool" where
  "decode_error JSONDecodeError = True"
| "decode_error (ValueError _) = True"
| "decode_error _ = False"

lemma unicode_escape_error: "unicode_escape wide s = Inl e \<Longrightarrow> decode_error e"
  by (auto simp: unicode_escape_def split: option.splits if_splits)

lemma parse_chars_error: "parse_chars wide s = Inl e \<Longrightarrow> decode_error e"
proof (induction wide s arbitrary: e rule: parse_chars.induct)
  case (2 wide c cs)
  show ?case
  proof (cases "c = backslash")
    case False
    with 2 show ?thesis by (auto simp: result_simps split: if_splits)
  next
    case True
    with 2(1) [of _ _ "(_, _)"] 2(3) show ?thesis
      by (auto simp: result_simps split: list.splits sum.splits if_splits option.splits
          dest: unicode_escape_error)
  qed
qed simp

lemma parse_scalar_error: "parse_scalar s = Inl e \<Longrightarrow> decode_error e"
  by (auto simp: parse_scalar_def parse_number_def number_value_def Let_def result_simps
      split: option.splits prod.splits if_splits)

lemma parse_errors:
  "(\<forall>s e. parse_value wide n s = Some (Inl e) \<longrightarrow> decode_error e) \<and>
   (\<forall>s e. parse_items wide n s = Some (Inl e) \<longrightarrow> decode_error e) \<and>
   (\<forall>s e. parse_members wide n s = Some (Inl e) \<longrightarrow> decode_error e)"
proof (induction n)
  case (Suc n)
  then have ih: "\<And>s e. parse_value wide n s = Some (Inl e) \<Longrightarrow> decode_error e"
    "\<And>s e. parse_items wide n s = Some (Inl e) \<Longrightarrow> decode_error e"
    "\<And>s e. parse_members wide n s = Some (Inl e) \<Longrightarrow> decode_error e" by blast+
  have "parse_value wide (Suc n) s = Some (Inl e) \<Longrightarrow> decode_error e" for s e
    by (auto simp: pbind_def result_simps split: list.splits if_splits option.splits sum.splits
        dest: ih parse_chars_error parse_scalar_error)
  moreover have "parse_items wide (Suc n) s = Some (Inl e) \<Longrightarrow> decode_error e" for s e
    by (auto simp: pbind_def split: list.splits if_splits option.splits sum.splits dest: ih)
  moreover have "parse_members wide (Suc n) s = Some (Inl e) \<Longrightarrow> decode_error e" for s e
    by (auto simp: pbind_def split: list.splits if_splits option.splits sum.splits dest!: ih parse_chars_error)
  ultimately show ?case by blast
qed simp

text \<open>
  The decoder always ends, with a value or with one of two exceptions of Python, however
  malformed the text is: the fuel it starts with is enough for every text, because every bracket,
  key and element uses some of it up.
\<close>

theorem json_loads_ends:
  "parse_value wide (fuel_for s) (skip_ws s) \<noteq> None \<and> (\<exists>v. json_loads wide s = Inr v) \<noteq>
     (\<exists>e. json_loads wide s = Inl e \<and> decode_error e)"
  using json_loads_fuel [of wide s] parse_errors [of wide "fuel_for s"]
  by (auto simp: json_loads_def split: option.splits sum.splits)

text \<open>
  What \<open>json.dumps\<close> or \<open>json.dump\<close> with an indentation writes, \<open>json.loads\<close> reads back: for
  every value made of null, truth values, integers of up to 4300 digits, floats, strings with
  any characters, lists, and dictionaries with distinct string keys.
\<close>

theorem json_roundtrip:
  assumes "jsonable fr v"
  shows "json_loads wide (json_dumps fr v) = Inr v \<and> json_loads wide (json_dump_indented fr v) = Inr v"
  using json_codec.dec_enc [OF assms] by (simp add: json_dumps_def json_dump_indented_def)

lemmas parse_number_eval = parse_number_def is_digit_def digits_def number_value_def decimal_float_def
  float_limit_def nat_of_digits_def digit_val_def

definition one_decimal :: "pyfloat \<Rightarrow> string" where
  "one_decimal x = format_fixed 1 x"

definition nested_value :: pyval where
  "nested_value = PDict [(PStr [CHR ''a'', CHR 0x22, CHR 0xE9], PList [PNone, PBool True, PInt (-12), PFloat (Fin (5/2))]),
     (PStr [], PDict []), (PStr ''b'', PList [])]"

theorem json_roundtrip_witness:
  "json_loads (\<lambda>_. CHR ''?'') (json_dumps one_decimal nested_value) = Inr nested_value \<and>
   json_loads (\<lambda>_. CHR ''?'') (json_dump_indented one_decimal nested_value) = Inr nested_value"
proof (rule json_roundtrip)
  show "jsonable one_decimal nested_value" by code_simp
qed

end
