(* ===== verification/StatusRender.thy ===== *)
theory StatusRender
  imports HostStats Json
begin

text \<open>
  \<open>backend/services/status_render.py\<close>: the HTML fragments of the admin poll.
\<close>

section \<open>Escaping\<close>

definition escape :: "string \<Rightarrow> string" where
  "escape text = replace1 CHR ''>'' ''&gt;'' (replace1 CHR ''<'' ''&lt;'' (replace1 CHR ''&'' ''&amp;'' text))"

text \<open>The one-pass specification, and reading the entities back.\<close>

fun escape_char :: "char \<Rightarrow> string" where
  "escape_char c =
     (if c = CHR ''&'' then ''&amp;'' else if c = CHR ''<'' then ''&lt;''
      else if c = CHR ''>'' then ''&gt;'' else [c])"

fun unescape :: "string \<Rightarrow> string" where
  "unescape [] = []"
| "unescape (c # cs) =
     (if startswith (c # cs) ''&amp;'' then CHR ''&'' # unescape (drop 4 cs)
      else if startswith (c # cs) ''&lt;'' then CHR ''<'' # unescape (drop 3 cs)
      else if startswith (c # cs) ''&gt;'' then CHR ''>'' # unescape (drop 3 cs)
      else c # unescape cs)"

lemma escape_chars: "escape s = concat (map escape_char s)"
  unfolding escape_def by (induction s) auto

lemma escape_append: "escape (s @ t) = escape s @ escape t"
  by (simp add: escape_chars)

lemma unescape_escape: "unescape (escape s) = s"
proof (induction s)
  case (Cons c s)
  then show ?case
    by (cases "c = CHR ''&'' \<or> c = CHR ''<'' \<or> c = CHR ''>''")
       (auto simp: escape_chars)
qed (simp add: escape_chars)

lemma escape_no_markup: "CHR ''<'' \<notin> set (escape s)" "CHR ''>'' \<notin> set (escape s)"
  by (auto simp: escape_chars split: if_splits)

text \<open>
  The three successive replacements act as one pass over the text: the result contains no
  markup character, every ampersand in it starts an entity, and the original text can be
  read back from it, so different texts never render alike.
\<close>

theorem escape_correct:
  "escape s = concat (map escape_char s) \<and> unescape (escape s) = s \<and>
   {CHR ''<'', CHR ''>''} \<inter> set (escape s) = {}"
  using escape_no_markup [of s] by (intro conjI escape_chars unescape_escape) blast

section \<open>A status row\<close>

definition row_open :: string where
  "row_open = ''<tbody id='' @ [CHR 0x22] @ ''host-status-results'' @ [CHR 0x22] @
     '' hx-swap-oob='' @ [CHR 0x22] @ ''beforeend'' @ [CHR 0x22] @ ''>''"

definition cell :: "string \<Rightarrow> string" where
  "cell s = ''<td>'' @ s @ ''</td>''"

definition slash :: "string \<Rightarrow> string \<Rightarrow> string" where
  "slash a b = a @ '' / '' @ b"

definition render_row :: "(pyfloat \<Rightarrow> string) \<Rightarrow> pydict \<Rightarrow> string result" where
  "render_row frepr s =
     (let host = escape (py_str frepr (dict_get s ''host_id'' (PStr ''?'')))
      in ebind (format_value 1 (dict_get s ''cpu_percent'' (PInt 0))) (\<lambda>cpu.
         ebind (format_value 1 (dict_get s ''ram_available_mb'' (PInt 0))) (\<lambda>ram_a.
         ebind (format_value 0 (dict_get s ''ram_total_mb'' (PInt 0))) (\<lambda>ram_t.
         ebind (format_value 2 (dict_get s ''disk_available_gb'' (PInt 0))) (\<lambda>disk_a.
         ebind (format_value 0 (dict_get s ''disk_total_gb'' (PInt 0))) (\<lambda>disk_t.
         let users = py_str frepr (dict_get s ''active_users'' (PInt 0))
         in Inr (row_open @ ''<tr>'' @ cell host @ cell cpu @ cell (slash ram_a ram_t)
                 @ cell (slash disk_a disk_t) @ cell users @ ''</tr></tbody>'')))))))"

definition render_status_row :: "(nat \<Rightarrow> char) \<Rightarrow> (pyfloat \<Rightarrow> string) \<Rightarrow> string \<Rightarrow> string result" where
  "render_status_row wide frepr body = (case json_loads wide body of
     Inl e \<Rightarrow> if e = JSONDecodeError then Inr [] else Inl e
   | Inr (PDict s) \<Rightarrow> render_row frepr s
   | Inr v \<Rightarrow> Inl (AttributeError ([CHR 0x27] @ type_name v @ [CHR 0x27] @
                '' object has no attribute '' @ [CHR 0x27] @ ''get'' @ [CHR 0x27])))"

section \<open>The sentinel\<close>

definition sentinel_frame :: "string \<Rightarrow> string \<Rightarrow> string" where
  "sentinel_frame css msg =
     ''<div id='' @ [CHR 0x22] @ ''poll-sentinel'' @ [CHR 0x22] @ '' hx-swap-oob='' @ [CHR 0x22]
     @ ''innerHTML'' @ [CHR 0x22] @ ''>'' @ ''<span class='' @ [CHR 0x22] @ css @ [CHR 0x22] @ ''>''
     @ msg @ ''</span></div>''"

definition render_sentinel :: "int \<Rightarrow> int \<Rightarrow> string" where
  "render_sentinel received expected =
     (if expected = 0 then
        sentinel_frame ''sentinel-empty'' ''No worker hosts registered to poll.''
      else if received \<ge> expected then
        sentinel_frame ''sentinel-ok'' (''All '' @ int_str expected @ '' runner(s) responded.'')
      else
        (let missing = expected - received
         in sentinel_frame ''sentinel-warn''
              (''Polling complete - '' @ int_str received @ '' of '' @ int_str expected
               @ '' runner(s) responded ('' @ int_str missing @ '' did not respond in time).'')))"

section \<open>What a row may contain\<close>

lemma no_markup_number: "CHR ''<'' \<notin> number_chars"
  by (simp add: number_chars_def)

lemma count_format:
  "format_value d v = Inr s \<Longrightarrow> count_list s CHR ''<'' = 0"
  using set_format_value no_markup_number by (metis count_notin subsetD)

lemma count_escape [simp]: "count_list (escape s) CHR ''<'' = 0"
  by (simp add: escape_no_markup count_notin)

lemma count_cell [simp]: "count_list (cell s) CHR ''<'' = 2 + count_list s CHR ''<''"
  by (simp add: cell_def)

lemma count_slash [simp]: "count_list (slash a b) c = count_list a c + count_list '' / '' c + count_list b c"
  unfolding slash_def by (simp only: count_list_append add.assoc)

lemma count_row_open [simp]: "count_list row_open CHR ''<'' = 1"
  by (simp add: row_open_def)

text \<open>
  C35: A rendered row has the fourteen opening brackets of its template and no other markup,
  except what the \<open>active_users\<close> value contributes: the host name is escaped, the numeric
  columns cannot hold a bracket, but \<open>active_users\<close> is copied unescaped.
\<close>

theorem status_row_markup:
  assumes "render_status_row wide frepr body = Inr html" "json_loads wide body = Inr (PDict d)"
  shows "count_list html CHR ''<'' =
    14 + count_list (py_str frepr (dict_get d ''active_users'' (PInt 0))) CHR ''<''"
proof -
  from assms obtain cpu ram_a ram_t disk_a disk_t where
    cells: "format_value 1 (dict_get d ''cpu_percent'' (PInt 0)) = Inr cpu"
      "format_value 1 (dict_get d ''ram_available_mb'' (PInt 0)) = Inr ram_a"
      "format_value 0 (dict_get d ''ram_total_mb'' (PInt 0)) = Inr ram_t"
      "format_value 2 (dict_get d ''disk_available_gb'' (PInt 0)) = Inr disk_a"
      "format_value 0 (dict_get d ''disk_total_gb'' (PInt 0)) = Inr disk_t"
    and html: "html = row_open @ ''<tr>'' @ cell (escape (py_str frepr (dict_get d ''host_id'' (PStr ''?''))))
      @ cell cpu @ cell (slash ram_a ram_t) @ cell (slash disk_a disk_t)
      @ cell (py_str frepr (dict_get d ''active_users'' (PInt 0))) @ ''</tr></tbody>''"
    by (auto simp: render_status_row_def render_row_def Let_def result_simps)
  from cells [THEN count_format] show ?thesis
    unfolding html by simp
qed

definition script_reply :: pydict where
  "script_reply = [(PStr ''host_id'', PStr ''<b>''), (PStr ''active_users'', PStr ''<script>'')]"

theorem status_row_markup_witness:
  "\<exists>html. render_status_row (\<lambda>_. CHR ''?'') one_decimal (json_dumps one_decimal (PDict script_reply)) = Inr html \<and>
     count_list html CHR ''<'' = 15"
proof -
  let ?body = "json_dumps one_decimal (PDict script_reply)"
  have "jsonable one_decimal (PDict script_reply)" by code_simp
  then have l: "json_loads (\<lambda>_. CHR ''?'') ?body = Inr (PDict script_reply)"
    by (rule json_loads_dumps)
  then obtain html where h: "render_status_row (\<lambda>_. CHR ''?'') one_decimal ?body = Inr html"
    by (simp add: render_status_row_def render_row_def script_reply_def dict_get_def Let_def
        float_of_int_def)
  from status_row_markup [OF this l] h show ?thesis
    by (simp add: script_reply_def dict_get_def py_str_def)
qed

text \<open>A reply whose JSON decodes to the fields of a snapshot shows them, and no other markup.\<close>

lemma render_snapshot:
  assumes "json_loads wide body = Inr (PDict (host_stats_dict s))"
  shows "render_status_row wide frepr body =
    Inr (row_open @ ''<tr>'' @ cell (escape (hs_host_id s)) @ cell (format_fixed 1 (hs_cpu_percent s))
      @ cell (slash (format_fixed 1 (hs_ram_available_mb s)) (format_fixed 0 (hs_ram_total_mb s)))
      @ cell (slash (format_fixed 2 (hs_disk_available_gb s)) (format_fixed 0 (hs_disk_total_gb s)))
      @ cell (int_str (hs_active_users s)) @ ''</tr></tbody>'')"
  using assms
  by (simp add: render_status_row_def render_row_def host_stats_dict_def dict_get_def Let_def py_str_def)

definition example_stats :: host_stats where
  "example_stats = \<lparr>hs_host_id = ''<w>'', hs_cpu_percent = Fin (123 / 10),
     hs_ram_available_mb = Fin (5 / 2), hs_ram_total_mb = Fin 8, hs_disk_available_gb = Fin (1 / 4),
     hs_disk_total_gb = Fin 1, hs_active_users = 3, hs_online = True\<rparr>"

definition example_repr :: "pyfloat \<Rightarrow> string" where
  "example_repr x = (case map_of [(Fin (123 / 10), ''12.3''), (Fin (5 / 2), ''2.5''), (Fin 8, ''8.0''),
     (Fin (1 / 4), ''0.25''), (Fin 1, ''1.0'')] x of None \<Rightarrow> [] | Some t \<Rightarrow> t)"

text \<open>
  What a worker serializes the panel shows: the JSON text of any snapshot whose numbers
  Python prints exactly is rendered without raising to the row of its host name, escaped, its
  load, memory, disk and users at the precision of each column, and nothing else.
\<close>

theorem status_row_of_snapshot:
  assumes "jsonable frepr (PDict (host_stats_dict s))"
  shows "render_status_row wide frepr (json_dumps frepr (PDict (host_stats_dict s))) =
    Inr (row_open @ ''<tr>'' @ cell (escape (hs_host_id s)) @ cell (format_fixed 1 (hs_cpu_percent s))
      @ cell (slash (format_fixed 1 (hs_ram_available_mb s)) (format_fixed 0 (hs_ram_total_mb s)))
      @ cell (slash (format_fixed 2 (hs_disk_available_gb s)) (format_fixed 0 (hs_disk_total_gb s)))
      @ cell (int_str (hs_active_users s)) @ ''</tr></tbody>'')"
  by (rule render_snapshot) (rule json_loads_dumps [OF assms])

theorem status_row_of_snapshot_witness:
  "render_status_row (\<lambda>_. CHR ''?'') example_repr (json_dumps example_repr (PDict (host_stats_dict example_stats))) =
    Inr (row_open @ ''<tr>'' @ cell ''&lt;w&gt;'' @ cell ''12.3'' @ cell ''2.5 / 8''
      @ cell ''0.25 / 1'' @ cell ''3'' @ ''</tr></tbody>'')"
proof -
  have "length (nat_str 3) \<le> 4300" by code_simp
  then have "jsonable example_repr (PDict (host_stats_dict example_stats))"
    by (simp add: host_stats_dict_def example_stats_def example_repr_def parse_number_eval)
  then have "render_status_row (\<lambda>_. CHR ''?'') example_repr (json_dumps example_repr (PDict (host_stats_dict example_stats))) =
    Inr (row_open @ ''<tr>'' @ cell (escape (hs_host_id example_stats)) @ cell (format_fixed 1 (hs_cpu_percent example_stats))
      @ cell (slash (format_fixed 1 (hs_ram_available_mb example_stats)) (format_fixed 0 (hs_ram_total_mb example_stats)))
      @ cell (slash (format_fixed 2 (hs_disk_available_gb example_stats)) (format_fixed 0 (hs_disk_total_gb example_stats)))
      @ cell (int_str (hs_active_users example_stats)) @ ''</tr></tbody>'')"
    by (rule status_row_of_snapshot)
  also have "escape (hs_host_id example_stats) = ''&lt;w&gt;''" by code_simp
  also have "format_fixed 1 (hs_cpu_percent example_stats) = ''12.3''" by code_simp
  also have "slash (format_fixed 1 (hs_ram_available_mb example_stats)) (format_fixed 0 (hs_ram_total_mb example_stats)) =
      ''2.5 / 8''" by code_simp
  also have "slash (format_fixed 2 (hs_disk_available_gb example_stats)) (format_fixed 0 (hs_disk_total_gb example_stats)) =
      ''0.25 / 1''" by code_simp
  also have "int_str (hs_active_users example_stats) = ''3''" by code_simp
  finally show ?thesis .
qed

end
