(* ===== verification/PollState.thy ===== *)
theory PollState
  imports StatusRender
begin

text \<open>
  \<open>_PollState\<close> of \<open>backend/main.py\<close>: the coroutines that answer one poll (the consumer's
  \<open>on_reply\<close>, the grace timer) share a counter, a lock and the \<open>_completed\<close> latch. A
  coroutine runs without interruption up to its next \<open>await\<close>; the steps are those runs, for
  any number of callers in any interleaving, with failing sends and cancellation of the poll.
\<close>

section \<open>The steps\<close>

datatype pc = Idle | Waiting | Sending string | Done

record poll =
  received :: int
  expected :: int
  completed :: bool
  holder :: "nat option"
  sent :: "string list"
  pcs :: "nat \<Rightarrow> pc"

definition new_poll :: "int \<Rightarrow> poll" where
  "new_poll num = \<lparr>received = 0, expected = num, completed = False, holder = None, sent = [],
     pcs = (\<lambda>_. Idle)\<rparr>"

definition set_pc :: "nat \<Rightarrow> pc \<Rightarrow> poll \<Rightarrow> poll" where
  "set_pc i p s = s\<lparr>pcs := (pcs s)(i := p)\<rparr>"

text \<open>\<open>on_reply\<close> up to its first \<open>await\<close>: count, and go for the sentinel when complete.\<close>

definition on_reply :: "nat \<Rightarrow> poll \<Rightarrow> poll" where
  "on_reply i s =
     (let s' = s\<lparr>received := received s + 1\<rparr>
      in if expected s' \<noteq> 0 \<and> received s' \<ge> expected s' then set_pc i Waiting s' else s')"

text \<open>
  \<open>emit_sentinel\<close> once the lock is free: return if the latch is set, else render with the
  counts of this moment and start the send while holding the lock.
\<close>

definition enter_lock :: "nat \<Rightarrow> poll \<Rightarrow> poll" where
  "enter_lock i s =
     (if completed s then set_pc i Idle s
      else (set_pc i (Sending (render_sentinel (received s) (expected s))) s)\<lparr>holder := Some i\<rparr>)"

definition finish_send :: "nat \<Rightarrow> string \<Rightarrow> poll \<Rightarrow> poll" where
  "finish_send i frag s =
     (set_pc i Idle s)\<lparr>sent := sent s @ [frag], completed := True, holder := None\<rparr>"

definition fail_send :: "nat \<Rightarrow> poll \<Rightarrow> poll" where
  "fail_send i s = (set_pc i Done s)\<lparr>holder := None\<rparr>"

text \<open>
  Cancelling the poll stops all its coroutines; the frame being sent may still have left.
\<close>

definition cancel_poll :: "string list \<Rightarrow> poll \<Rightarrow> poll" where
  "cancel_poll out s = s\<lparr>pcs := (\<lambda>_. Done), holder := None, sent := sent s @ out\<rparr>"

inductive poll_step :: "poll \<Rightarrow> poll \<Rightarrow> bool" where
  reply: "pcs s i = Idle \<Longrightarrow> poll_step s (on_reply i s)"
| timer: "pcs s i = Idle \<Longrightarrow> poll_step s (set_pc i Waiting s)"
| acquire: "pcs s i = Waiting \<Longrightarrow> holder s = None \<Longrightarrow> poll_step s (enter_lock i s)"
| sent_ok: "pcs s i = Sending frag \<Longrightarrow> poll_step s (finish_send i frag s)"
| sent_failed: "pcs s i = Sending frag \<Longrightarrow> poll_step s (fail_send i s)"
| cancelled: "out = [] \<or> (\<exists>i frag. pcs s i = Sending frag \<and> out = [frag]) \<Longrightarrow>
    poll_step s (cancel_poll out s)"

inductive_cases poll_stepE: "poll_step s t"

definition poll_init :: "int \<Rightarrow> poll \<Rightarrow> bool" where
  "poll_init num s \<longleftrightarrow> s = new_poll num"

section \<open>The latch\<close>

text \<open>
  The invariant: the lock holder is exactly the caller that is sending, it started before
  the latch was set and before anything was sent, and what was or is being sent was rendered
  from a count of replies received up to then.
\<close>

definition rendered_now :: "poll \<Rightarrow> string \<Rightarrow> bool" where
  "rendered_now s frag \<longleftrightarrow> (\<exists>r. 0 \<le> r \<and> r \<le> received s \<and> frag = render_sentinel r (expected s))"

definition poll_inv :: "int \<Rightarrow> poll \<Rightarrow> bool" where
  "poll_inv num s \<longleftrightarrow> expected s = num \<and> 0 \<le> received s \<and> length (sent s) \<le> 1 \<and>
     (\<forall>i frag. pcs s i = Sending frag \<longrightarrow> holder s = Some i \<and> \<not> completed s \<and> sent s = [] \<and> rendered_now s frag) \<and>
     (\<forall>i. holder s = Some i \<longrightarrow> (\<exists>frag. pcs s i = Sending frag)) \<and>
     (sent s \<noteq> [] \<longrightarrow> completed s \<or> (\<forall>i. pcs s i = Done)) \<and>
     (completed s \<longrightarrow> sent s \<noteq> []) \<and>
     (\<forall>frag \<in> set (sent s). rendered_now s frag)"

lemma poll_inv_new: "poll_inv num (new_poll num)"
  by (simp add: poll_inv_def new_poll_def)

lemma rendered_now_more: "rendered_now s frag \<Longrightarrow> rendered_now (s\<lparr>received := received s + 1\<rparr>) frag"
  by (auto simp: rendered_now_def intro: order_trans)

lemma rendered_now_frame [simp]:
  "rendered_now (s\<lparr>pcs := p\<rparr>) = rendered_now s" "rendered_now (s\<lparr>holder := h\<rparr>) = rendered_now s"
  "rendered_now (s\<lparr>sent := x\<rparr>) = rendered_now s" "rendered_now (s\<lparr>completed := c\<rparr>) = rendered_now s"
  by (simp_all add: rendered_now_def fun_eq_iff)

lemma on_reply_inv: "poll_inv num s \<Longrightarrow> pcs s i = Idle \<Longrightarrow> poll_inv num (on_reply i s)"
  by (auto simp: poll_inv_def on_reply_def set_pc_def Let_def rendered_now_more)

lemma enter_lock_inv:
  "poll_inv num s \<Longrightarrow> pcs s i = Waiting \<Longrightarrow> holder s = None \<Longrightarrow> poll_inv num (enter_lock i s)"
  by (auto simp: poll_inv_def enter_lock_def set_pc_def rendered_now_def)

lemma sending_facts:
  assumes "poll_inv num s" "pcs s i = Sending frag"
  shows "holder s = Some i" "\<not> completed s" "sent s = []" "rendered_now s frag"
    and "j \<noteq> i \<Longrightarrow> pcs s j \<noteq> Sending u"
proof -
  show h: "holder s = Some i" "\<not> completed s" "sent s = []" "rendered_now s frag"
    using assms unfolding poll_inv_def by blast+
  assume "j \<noteq> i"
  show "pcs s j \<noteq> Sending u"
  proof
    assume "pcs s j = Sending u"
    then have "holder s = Some j" using assms(1) unfolding poll_inv_def by blast
    with h \<open>j \<noteq> i\<close> show False by simp
  qed
qed

lemma finish_send_inv:
  assumes "poll_inv num s" "pcs s i = Sending frag"
  shows "poll_inv num (finish_send i frag s)"
  using assms(1) sending_facts [OF assms]
  by (simp add: poll_inv_def finish_send_def set_pc_def)

lemma fail_send_inv:
  assumes "poll_inv num s" "pcs s i = Sending frag"
  shows "poll_inv num (fail_send i s)"
  using assms(1) sending_facts [OF assms]
  by (simp add: poll_inv_def fail_send_def set_pc_def)

lemma cancel_poll_inv:
  "poll_inv num s \<Longrightarrow> out = [] \<or> (\<exists>i frag. pcs s i = Sending frag \<and> out = [frag]) \<Longrightarrow>
   poll_inv num (cancel_poll out s)"
  by (auto simp: poll_inv_def cancel_poll_def)

lemma timer_inv: "poll_inv num s \<Longrightarrow> pcs s i = Idle \<Longrightarrow> poll_inv num (set_pc i Waiting s)"
  by (auto simp: poll_inv_def set_pc_def)

interpretation poll: invariant_system "poll_init num" poll_step "poll_inv num"
proof
  show "poll_init num s \<Longrightarrow> poll_inv num s" for s
    by (simp add: poll_init_def poll_inv_new)
  show "poll_inv num s \<Longrightarrow> poll_step s t \<Longrightarrow> poll_inv num t" for s t
    by (erule poll_stepE)
       (auto intro: on_reply_inv timer_inv enter_lock_inv finish_send_inv fail_send_inv cancel_poll_inv)
qed

text \<open>
  C16: Under every interleaving of any number of replies, timers, failing sends and a
  cancellation, at most one sentinel frame leaves the socket for a poll, and it was rendered
  from the poll's number of hosts and a number of replies actually received.
\<close>

theorem sentinel_at_most_once:
  assumes "reachable_from (poll_init num) poll_step s"
  shows "sent s = [] \<or> (\<exists>r. 0 \<le> r \<and> r \<le> received s \<and> sent s = [render_sentinel r num])"
proof -
  have inv: "poll_inv num s" using assms by (rule poll.reachable_inv)
  then show ?thesis
    by (cases "sent s") (auto simp: poll_inv_def rendered_now_def)
qed

definition racing_poll :: poll where
  "racing_poll = enter_lock 1 (finish_send 0 (render_sentinel 1 1)
     (enter_lock 0 (on_reply 0 (set_pc 1 Waiting (new_poll 1)))))"

lemma racing_poll_reachable: "reachable_from (poll_init 1) poll_step racing_poll"
proof -
  let ?s1 = "set_pc 1 Waiting (new_poll 1)" and ?s2 = "on_reply 0 (set_pc 1 Waiting (new_poll 1))"
  let ?s3 = "enter_lock 0 ?s2"
  have s0: "reachable_from (poll_init 1) poll_step (new_poll 1)"
    by (rule reach_init) (simp add: poll_init_def)
  have s1: "reachable_from (poll_init 1) poll_step ?s1"
    by (rule reach_step [OF s0], rule poll_step.timer) (simp add: new_poll_def)
  have s2: "reachable_from (poll_init 1) poll_step ?s2"
    by (rule reach_step [OF s1], rule poll_step.reply) (simp add: new_poll_def set_pc_def)
  have s3: "reachable_from (poll_init 1) poll_step ?s3"
    by (rule reach_step [OF s2], rule poll_step.acquire)
       (simp_all add: new_poll_def set_pc_def on_reply_def)
  have s4: "reachable_from (poll_init 1) poll_step (finish_send 0 (render_sentinel 1 1) ?s3)"
    by (rule reach_step [OF s3], rule poll_step.sent_ok)
       (simp add: new_poll_def set_pc_def on_reply_def enter_lock_def)
  show ?thesis unfolding racing_poll_def
    by (rule reach_step [OF s4], rule poll_step.acquire)
       (simp_all add: new_poll_def set_pc_def on_reply_def enter_lock_def finish_send_def)
qed

theorem sentinel_at_most_once_witness:
  "reachable_from (poll_init 1) poll_step racing_poll \<and> sent racing_poll = [render_sentinel 1 1]"
proof -
  have "sent racing_poll \<noteq> []"
    by (simp add: racing_poll_def new_poll_def set_pc_def on_reply_def enter_lock_def finish_send_def)
  moreover have "received racing_poll = 1" "length (sent racing_poll) = 1"
    by (simp_all add: racing_poll_def new_poll_def set_pc_def on_reply_def enter_lock_def finish_send_def)
  moreover have "sent racing_poll = [render_sentinel 1 1]"
    by (simp add: racing_poll_def new_poll_def set_pc_def on_reply_def enter_lock_def finish_send_def)
  ultimately show ?thesis
    using sentinel_at_most_once [OF racing_poll_reachable] racing_poll_reachable by blast
qed

text \<open>
  C26: The lock is never left behind: in every reachable state either some caller is sending
  and its send can complete, or the lock is free and any caller waiting for it can go on; so a
  caller that asks for the sentinel of a poll that has none gets it out in two steps.
\<close>

theorem sentinel_progress:
  assumes "reachable_from (poll_init num) poll_step s" "pcs s i = Waiting"
  shows "\<exists>t. poll_step\<^sup>*\<^sup>* s t \<and> length (sent t) = 1"
proof -
  have inv: "poll_inv num s" using assms(1) by (rule poll.reachable_inv)
  show ?thesis
  proof (cases "holder s")
    case (Some j)
    then obtain frag where j: "pcs s j = Sending frag" using inv by (auto simp: poll_inv_def)
    then have "sent s = []" using inv by (auto simp: poll_inv_def)
    then have "length (sent (finish_send j frag s)) = 1" by (simp add: finish_send_def set_pc_def)
    with j show ?thesis by (blast intro: poll_step.sent_ok)
  next
    case None
    show ?thesis
    proof (cases "completed s")
      case True
      then have "sent s \<noteq> []" "length (sent s) \<le> 1" using inv by (auto simp: poll_inv_def)
      then have "length (sent s) = 1" by (cases "sent s") auto
      then show ?thesis by blast
    next
      case False
      let ?frag = "render_sentinel (received s) (expected s)"
      have "sent s = []" using inv False assms(2) by (auto simp: poll_inv_def)
      then have out: "length (sent (finish_send i ?frag (enter_lock i s))) = 1"
        by (simp add: finish_send_def enter_lock_def set_pc_def)
      have "poll_step s (enter_lock i s)" using assms(2) None by (rule poll_step.acquire)
      moreover have "poll_step (enter_lock i s) (finish_send i ?frag (enter_lock i s))"
        using False by (intro poll_step.sent_ok) (simp add: enter_lock_def set_pc_def)
      ultimately show ?thesis using out by (meson converse_rtranclp_into_rtranclp rtranclp.rtrancl_refl)
    qed
  qed
qed

theorem sentinel_progress_witness:
  "\<exists>t. poll_step\<^sup>*\<^sup>* (set_pc 1 Waiting (new_poll 2)) t \<and> length (sent t) = 1"
proof (rule sentinel_progress)
  show "reachable_from (poll_init 2) poll_step (set_pc 1 Waiting (new_poll 2))"
    by (rule reach_step [OF reach_init], simp add: poll_init_def, rule poll_step.timer)
       (simp add: new_poll_def)
  show "pcs (set_pc 1 Waiting (new_poll 2)) 1 = Waiting" by (simp add: set_pc_def)
qed

end
