(* ===== verification/Tables.thy ===== *)
theory Tables
  imports Prelude
begin

text \<open>
  Table access as the code does it through SQLAlchemy: \<open>query(T).filter_by(key=k)
  .one_or_none()\<close>, an attribute update of the rows found, and \<open>add\<close> under a unique column.
  A table is the list of its rows. The locale states the contract the handlers rely on;
  its lemmas are what they use, and \<open>Models\<close> interprets it for every table of the program.
\<close>

section \<open>Operations\<close>

definition one_or_none :: "('r \<Rightarrow> bool) \<Rightarrow> 'r list \<Rightarrow> 'r option result" where
  "one_or_none P t = (case filter P t of
     [] \<Rightarrow> Inr None | [r] \<Rightarrow> Inr (Some r) | _ \<Rightarrow> Inl MultipleResultsFound)"

definition find_by :: "('r \<Rightarrow> 'k) \<Rightarrow> 'k \<Rightarrow> 'r list \<Rightarrow> 'r option result" where
  "find_by key k t = one_or_none (\<lambda>r. key r = k) t"

definition update_by :: "('r \<Rightarrow> 'k) \<Rightarrow> 'k \<Rightarrow> ('r \<Rightarrow> 'r) \<Rightarrow> 'r list \<Rightarrow> 'r list" where
  "update_by key k f t = map (\<lambda>r. if key r = k then f r else r) t"

text \<open>Adding a row under a unique column fails when the key is taken.\<close>

definition insert_by :: "('r \<Rightarrow> 'k) \<Rightarrow> 'r \<Rightarrow> 'r list \<Rightarrow> 'r list result" where
  "insert_by key r t =
     (if key r \<in> key ` set t then Inl (IntegrityError ''duplicate key'') else Inr (t @ [r]))"

definition unique_by :: "('r \<Rightarrow> 'k) \<Rightarrow> 'r list \<Rightarrow> bool" where
  "unique_by key t \<longleftrightarrow> distinct (map key t)"

section \<open>The contract\<close>

locale keyed_table =
  fixes find :: "'k \<Rightarrow> 't \<Rightarrow> 'r option result"
    and update :: "'k \<Rightarrow> ('r \<Rightarrow> 'r) \<Rightarrow> 't \<Rightarrow> 't"
    and insert :: "'r \<Rightarrow> 't \<Rightarrow> 't result"
    and key :: "'r \<Rightarrow> 'k"
    and uniq :: "'t \<Rightarrow> bool"
  assumes find_total: "uniq t \<Longrightarrow> \<exists>x. find k t = Inr x"
    and find_key: "uniq t \<Longrightarrow> find k t = Inr (Some r) \<Longrightarrow> key r = k"
    and find_update: "uniq t \<Longrightarrow> (\<And>r. key (f r) = key r) \<Longrightarrow>
      find k' (update k f t) = (if k' = k then ebind (find k t) (\<lambda>x. Inr (map_option f x)) else find k' t)"
    and find_insert: "uniq t \<Longrightarrow> insert r t = Inr t' \<Longrightarrow>
      find k t' = (if k = key r then Inr (Some r) else find k t)"
    and insert_fresh: "uniq t \<Longrightarrow> find (key r) t = Inr None \<Longrightarrow> \<exists>t'. insert r t = Inr t'"
    and insert_taken: "uniq t \<Longrightarrow> find (key r) t = Inr (Some r') \<Longrightarrow>
      \<exists>m. insert r t = Inl (IntegrityError m)"
    and uniq_update: "uniq t \<Longrightarrow> (\<And>r. key (f r) = key r) \<Longrightarrow> uniq (update k f t)"
    and uniq_insert: "uniq t \<Longrightarrow> insert r t = Inr t' \<Longrightarrow> uniq t'"
begin

lemma find_update_same:
  "uniq t \<Longrightarrow> (\<And>r. key (f r) = key r) \<Longrightarrow> find k t = Inr (Some r) \<Longrightarrow>
   find k (update k f t) = Inr (Some (f r))"
  by (simp add: find_update)

lemma find_update_other:
  "uniq t \<Longrightarrow> (\<And>r. key (f r) = key r) \<Longrightarrow> k' \<noteq> k \<Longrightarrow> find k' (update k f t) = find k' t"
  by (simp add: find_update)

lemma find_update_missing:
  "uniq t \<Longrightarrow> (\<And>r. key (f r) = key r) \<Longrightarrow> find k t = Inr None \<Longrightarrow>
   find k' (update k f t) = find k' t"
  by (simp add: find_update)

text \<open>A second update of the same row works on the result of the first.\<close>

lemma find_update_twice:
  assumes "uniq t" "\<And>r. key (f r) = key r" "\<And>r. key (g r) = key r"
    and "find k t = Inr (Some r)"
  shows "find k (update k g (update k f t)) = Inr (Some (g (f r)))"
  using assms by (simp add: find_update uniq_update)

lemma find_not_error: "uniq t \<Longrightarrow> find k t \<noteq> Inl e"
  using find_total [of t k] by auto

end

section \<open>The list tables satisfy it\<close>

lemma find_by_unique:
  "unique_by key t \<Longrightarrow> find_by key k t = Inr (List.find (\<lambda>r. key r = k) t)"
proof (cases "List.find (\<lambda>r. key r = k) t")
  case None
  then have "filter (\<lambda>r. key r = k) t = []"
    by (simp add: find_None_iff filter_empty_conv)
  with None show ?thesis by (simp add: find_by_def one_or_none_def)
next
  case (Some r)
  assume "unique_by key t"
  moreover from Some have "r \<in> set t" "key r = k" by (auto dest: find_Some_in)
  ultimately have "filter (\<lambda>r. key r = k) t = [r]"
    using filter_key_unique [of key t r] by (simp add: unique_by_def)
  with Some show ?thesis by (simp add: find_by_def one_or_none_def)
qed

lemma find_by_Some:
  "unique_by key t \<Longrightarrow> find_by key k t = Inr (Some r) \<longleftrightarrow> r \<in> set t \<and> key r = k"
proof -
  assume u: "unique_by key t"
  show ?thesis
  proof
    assume "find_by key k t = Inr (Some r)"
    with u show "r \<in> set t \<and> key r = k"
      by (auto simp: find_by_unique dest: find_Some_in)
  next
    assume "r \<in> set t \<and> key r = k"
    with u show "find_by key k t = Inr (Some r)"
      using filter_key_unique [of key t r]
      by (auto simp: find_by_def one_or_none_def unique_by_def)
  qed
qed

lemma find_by_None:
  "unique_by key t \<Longrightarrow> find_by key k t = Inr None \<longleftrightarrow> k \<notin> key ` set t"
  by (auto simp: find_by_unique find_None_iff)

lemma map_key_update_by [simp]:
  "(\<And>r. key (f r) = key r) \<Longrightarrow> map key (update_by key k f t) = map key t"
  by (simp add: update_by_def)

lemma unique_update_by:
  "unique_by key t \<Longrightarrow> (\<And>r. key (f r) = key r) \<Longrightarrow> unique_by key (update_by key k f t)"
  by (simp add: unique_by_def)

lemma in_set_update_by:
  "x \<in> set (update_by key k f t) \<Longrightarrow> \<exists>r \<in> set t. x = (if key r = k then f r else r)"
  by (auto simp: update_by_def)

lemma find_update_by:
  assumes "\<And>r. key (f r) = key r"
  shows "List.find (\<lambda>r. key r = k') (update_by key k f t) =
     (if k' = k then map_option f (List.find (\<lambda>r. key r = k) t)
      else List.find (\<lambda>r. key r = k') t)"
  using assms by (induction t) (auto simp: update_by_def)

lemma find_append:
  "List.find P (t @ [r]) = (case List.find P t of None \<Rightarrow> if P r then Some r else None | x \<Rightarrow> x)"
  by (induction t) auto

lemma update_by_update_by:
  "(\<And>r. key (g r) = key r) \<Longrightarrow>
   update_by key k f (update_by key k g t) = update_by key k (\<lambda>r. f (g r)) t"
  by (simp add: update_by_def)

lemma filter_update_by_other:
  "(\<And>r. key (f r) = key r) \<Longrightarrow> filter (\<lambda>r. key r \<noteq> k) (update_by key k f t) = filter (\<lambda>r. key r \<noteq> k) t"
  by (induction t) (simp_all add: update_by_def)

lemma update_by_id_on:
  "(\<And>r. r \<in> set t \<Longrightarrow> key r = k \<Longrightarrow> f r = r) \<Longrightarrow> update_by key k f t = t"
  by (auto simp: update_by_def intro!: map_idI)

lemma update_by_cong_on:
  "(\<And>r. r \<in> set t \<Longrightarrow> key r = k \<Longrightarrow> f r = g r) \<Longrightarrow> update_by key k f t = update_by key k g t"
  by (auto simp: update_by_def)

lemma unique_insert_by: "unique_by key t \<Longrightarrow> insert_by key r t = Inr t' \<Longrightarrow> unique_by key t'"
  by (auto simp: insert_by_def unique_by_def split: if_splits)

lemma find_insert_by:
  assumes "unique_by key t" "insert_by key r t = Inr t'"
  shows "find_by key k t' = (if k = key r then Inr (Some r) else find_by key k t)"
proof -
  from assms have t': "t' = t @ [r]" "key r \<notin> key ` set t"
    by (auto simp: insert_by_def split: if_splits)
  then have "List.find (\<lambda>x. key x = key r) t = None"
    by (auto simp: find_None_iff image_iff)
  with t' show ?thesis
    using assms unique_insert_by [OF assms]
    by (auto simp: find_by_unique find_append split: option.splits)
qed

lemma keyed_table_list:
  fixes key :: "'r \<Rightarrow> 'k"
  shows "keyed_table (find_by key) (update_by key) (insert_by key) key (unique_by key)"
proof
  fix t :: "'r list" and f :: "'r \<Rightarrow> 'r" and k k' :: 'k
  assume u: "unique_by key t" and k: "\<And>r. key (f r) = key r"
  show "find_by key k' (update_by key k f t) =
     (if k' = k then ebind (find_by key k t) (\<lambda>x. Inr (map_option f x)) else find_by key k' t)"
    using u k by (simp add: find_by_unique unique_update_by find_update_by)
next
  fix t :: "'r list" and r :: 'r
  assume "unique_by key t" "find_by key (key r) t = Inr None"
  then show "\<exists>t'. insert_by key r t = Inr t'"
    by (simp add: find_by_None insert_by_def)
next
  fix t :: "'r list" and r r' :: 'r
  assume "unique_by key t" "find_by key (key r) t = Inr (Some r')"
  then have "key r \<in> key ` set t" by (metis find_by_Some imageI)
  then show "\<exists>m. insert_by key r t = Inl (IntegrityError m)"
    by (simp add: insert_by_def)
next
  fix t t' :: "'r list" and r :: 'r and k :: 'k
  assume "unique_by key t" "insert_by key r t = Inr t'"
  then show "find_by key k t' = (if k = key r then Inr (Some r) else find_by key k t)"
    by (rule find_insert_by)
qed (auto simp: find_by_unique unique_update_by unique_insert_by dest: find_Some_in)

end
