(* ===== verification/Schemas.thy ===== *)
theory Schemas
  imports Validation Codec
begin

text \<open>
  \<open>shared/schemas.py\<close>: the life-cycle states of a test execution and the test-bundle
  contract that crosses the broker. Construction takes arbitrary values, as the dataclass
  does, and returns a bundle with typed fields or the exception of \<open>__post_init__\<close>.
\<close>

section \<open>TestStatus\<close>

datatype test_status = PENDING | DISPATCHED | RUNNING | PASSED | FAILED | CANCELLED

fun status_value :: "test_status \<Rightarrow> string" where
  "status_value PENDING = ''PENDING''"
| "status_value DISPATCHED = ''DISPATCHED''"
| "status_value RUNNING = ''RUNNING''"
| "status_value PASSED = ''PASSED''"
| "status_value FAILED = ''FAILED''"
| "status_value CANCELLED = ''CANCELLED''"

lemma status_value_inj [simp]: "status_value s = status_value t \<longleftrightarrow> s = t"
  by (cases s; cases t) auto

section \<open>TestBundleRequest\<close>

text \<open>The constructor's arguments, of any type.\<close>

record bundle_args =
  a_test_id :: pyval
  a_user_id :: pyval
  a_runner_type :: pyval
  a_framework_image :: pyval
  a_required_hw_tags :: pyval
  a_requires_emulation :: pyval
  a_quali_reservation_id :: pyval
  a_runner_variables :: pyval

text \<open>A constructed bundle.\<close>

record test_bundle =
  tb_test_id :: string
  tb_user_id :: int
  tb_runner_type :: string
  tb_framework_image :: string
  tb_required_hw_tags :: "string list"
  tb_requires_emulation :: bool
  tb_quali_reservation_id :: "string option"
  tb_runner_variables :: pydict

fun all_strs :: "pyval list \<Rightarrow> string list option" where
  "all_strs [] = Some []"
| "all_strs (PStr s # xs) = map_option ((#) s) (all_strs xs)"
| "all_strs (_ # xs) = None"

definition require_str_list :: "pyval \<Rightarrow> string list result" where
  "require_str_list v =
     (let err = Inl (TypeError ''required_hw_tags must be a list[str]'')
      in case v of PList xs \<Rightarrow> (case all_strs xs of Some ss \<Rightarrow> Inr ss | None \<Rightarrow> err) | _ \<Rightarrow> err)"

definition require_bool :: "pyval \<Rightarrow> bool result" where
  "require_bool v = (case v of
     PBool b \<Rightarrow> Inr b | _ \<Rightarrow> Inl (TypeError ''requires_emulation must be a bool''))"

definition require_quali :: "pyval \<Rightarrow> string option result" where
  "require_quali v = (if v = PNone then Inr None
     else ebind (require_non_empty_str v ''quali_reservation_id'') (\<lambda>s. Inr (Some s)))"

text \<open>Construction runs \<open>__post_init__\<close>, in its order of checks.\<close>

definition TestBundleRequest :: "bundle_args \<Rightarrow> test_bundle result" where
  "TestBundleRequest a =
     ebind (require_non_empty_str (a_test_id a) ''test_id'') (\<lambda>tid.
     ebind (require_positive_int (a_user_id a) ''user_id'') (\<lambda>uid.
     ebind (require_non_empty_str (a_runner_type a) ''runner_type'') (\<lambda>rt.
     ebind (require_non_empty_str (a_framework_image a) ''framework_image'') (\<lambda>img.
     ebind (require_str_list (a_required_hw_tags a)) (\<lambda>tags.
     ebind (require_bool (a_requires_emulation a)) (\<lambda>emu.
     ebind (require_quali (a_quali_reservation_id a)) (\<lambda>q.
     ebind (require_mapping (a_runner_variables a) ''runner_variables'') (\<lambda>vars.
       Inr \<lparr>tb_test_id = tid, tb_user_id = uid, tb_runner_type = rt, tb_framework_image = img,
            tb_required_hw_tags = tags, tb_requires_emulation = emu,
            tb_quali_reservation_id = q, tb_runner_variables = vars\<rparr>))))))))"

definition to_dict :: "test_bundle \<Rightarrow> pydict" where
  "to_dict b =
     [(PStr ''test_id'', PStr (tb_test_id b)),
      (PStr ''user_id'', PInt (tb_user_id b)),
      (PStr ''runner_type'', PStr (tb_runner_type b)),
      (PStr ''framework_image'', PStr (tb_framework_image b)),
      (PStr ''required_hw_tags'', PList (map PStr (tb_required_hw_tags b))),
      (PStr ''requires_emulation'', PBool (tb_requires_emulation b)),
      (PStr ''quali_reservation_id'',
         (case tb_quali_reservation_id b of None \<Rightarrow> PNone | Some s \<Rightarrow> PStr s)),
      (PStr ''runner_variables'', PDict (tb_runner_variables b))]"

definition from_dict :: "pyval \<Rightarrow> test_bundle result" where
  "from_dict data =
     ebind (require_mapping data ''bundle'') (\<lambda>d.
     ebind (require_keys d [''test_id'', ''user_id'', ''runner_type'', ''framework_image'']
              ''bundle'') (\<lambda>_.
     ebind (py_list (dict_get d ''required_hw_tags'' (PList []))) (\<lambda>tags.
     ebind (Inr (truthy (dict_get d ''requires_emulation'' (PBool False)))) (\<lambda>emu.
     ebind (py_dict (dict_get d ''runner_variables'' (PDict []))) (\<lambda>vars.
       TestBundleRequest
         \<lparr>a_test_id = dict_get d ''test_id'' PNone, a_user_id = dict_get d ''user_id'' PNone,
          a_runner_type = dict_get d ''runner_type'' PNone,
          a_framework_image = dict_get d ''framework_image'' PNone,
          a_required_hw_tags = PList tags, a_requires_emulation = PBool emu,
          a_quali_reservation_id = dict_get d ''quali_reservation_id'' PNone,
          a_runner_variables = PDict vars\<rparr>)))))"

section \<open>What construction guarantees\<close>

definition valid_bundle :: "test_bundle \<Rightarrow> bool" where
  "valid_bundle b \<longleftrightarrow> \<not> blank (tb_test_id b) \<and> 0 < tb_user_id b \<and> \<not> blank (tb_runner_type b) \<and>
     \<not> blank (tb_framework_image b) \<and>
     (case tb_quali_reservation_id b of None \<Rightarrow> True | Some s \<Rightarrow> \<not> blank s)"

lemma map_PStr_eq [simp]: "map PStr xs = map PStr ys \<longleftrightarrow> xs = ys"
  by (rule inj_map_eq_map) (simp add: inj_def)

lemma all_strs_map [simp]: "all_strs (map PStr ss) = Some ss"
  by (induction ss) auto

lemma all_strs_Some: "all_strs xs = Some ss \<longleftrightarrow> xs = map PStr ss"
proof (induction xs arbitrary: ss rule: all_strs.induct)
  case (2 s xs)
  then show ?case by (cases ss) auto
qed auto

lemma require_str_list_Inr [guard_simps]:
  "require_str_list v = Inr ss \<longleftrightarrow> v = PList (map PStr ss)"
  by (cases v) (auto simp: require_str_list_def Let_def all_strs_Some split: option.splits)

lemma require_bool_Inr [guard_simps]: "require_bool v = Inr b \<longleftrightarrow> v = PBool b"
  by (cases v) (auto simp: require_bool_def)

lemma require_quali_Inr [guard_simps]:
  "require_quali v = Inr q \<longleftrightarrow>
     (case q of None \<Rightarrow> v = PNone | Some s \<Rightarrow> v = PStr s \<and> \<not> blank s)"
  by (auto simp: require_quali_def result_simps guard_simps split: option.splits)

lemma require_str_list_input [input_intros]: "raises_only_input (require_str_list v)"
  by (cases v) (auto simp: require_str_list_def Let_def split: option.splits)

lemma require_bool_input [input_intros]: "raises_only_input (require_bool v)"
  by (cases v) (auto simp: require_bool_def)

lemma require_quali_input [input_intros]: "raises_only_input (require_quali v)"
  by (auto simp: require_quali_def intro!: input_intros)

lemma TestBundleRequest_Inr:
  "TestBundleRequest a = Inr b \<longleftrightarrow>
     valid_bundle b \<and> a_test_id a = PStr (tb_test_id b) \<and> a_user_id a = PInt (tb_user_id b) \<and>
     a_runner_type a = PStr (tb_runner_type b) \<and>
     a_framework_image a = PStr (tb_framework_image b) \<and>
     a_required_hw_tags a = PList (map PStr (tb_required_hw_tags b)) \<and>
     a_requires_emulation a = PBool (tb_requires_emulation b) \<and>
     a_quali_reservation_id a =
       (case tb_quali_reservation_id b of None \<Rightarrow> PNone | Some s \<Rightarrow> PStr s) \<and>
     a_runner_variables a = PDict (tb_runner_variables b)"
  by (cases b)
     (auto simp: TestBundleRequest_def result_simps guard_simps valid_bundle_def
        split: option.splits)

lemma TestBundleRequest_input [input_intros]: "raises_only_input (TestBundleRequest a)"
  unfolding TestBundleRequest_def by (intro input_intros) simp

lemma from_dict_input: "raises_only_input (from_dict v)"
  unfolding from_dict_def by (intro input_intros) simp

lemma from_dict_valid: "from_dict v = Inr b \<Longrightarrow> valid_bundle b"
  by (auto simp: from_dict_def result_simps TestBundleRequest_Inr)

lemma from_dict_to_dict: "valid_bundle b \<Longrightarrow> from_dict (PDict (to_dict b)) = Inr b"
  by (simp add: from_dict_def result_simps guard_simps TestBundleRequest_Inr
      to_dict_def dict_get_def dict_has_def)

interpretation bundle_codec: codec "\<lambda>b. PDict (to_dict b)" from_dict valid_bundle
  by unfold_locales (rule from_dict_to_dict)

text \<open>
  Every bundle the constructor accepts survives the trip through the broker: decoding
  its \<open>to_dict\<close> form gives back the same bundle, with every validation passed again.
\<close>

theorem bundle_roundtrip:
  assumes "TestBundleRequest a = Inr b"
  shows "from_dict (PDict (to_dict b)) = Inr b"
  using assms by (simp add: TestBundleRequest_Inr from_dict_to_dict)

definition example_args :: bundle_args where
  "example_args =
     \<lparr>a_test_id = PStr ''t-1'', a_user_id = PInt 7, a_runner_type = PStr ''pytest'',
      a_framework_image = PStr ''img:1'', a_required_hw_tags = PList [PStr ''DUT_A''],
      a_requires_emulation = PBool True, a_quali_reservation_id = PStr ''resv-1'',
      a_runner_variables = PDict [(PStr ''target_dut'', PStr ''dut'')]\<rparr>"

definition example_bundle :: test_bundle where
  "example_bundle =
     \<lparr>tb_test_id = ''t-1'', tb_user_id = 7, tb_runner_type = ''pytest'',
      tb_framework_image = ''img:1'', tb_required_hw_tags = [''DUT_A''],
      tb_requires_emulation = True, tb_quali_reservation_id = Some ''resv-1'',
      tb_runner_variables = [(PStr ''target_dut'', PStr ''dut'')]\<rparr>"

lemma example_constructs: "TestBundleRequest example_args = Inr example_bundle"
  by code_simp

theorem bundle_roundtrip_witness:
  "from_dict (PDict (to_dict example_bundle)) = Inr example_bundle"
  by (rule bundle_roundtrip [OF example_constructs])

text \<open>
  C25: Decoding any value at all either raises \<open>TypeError\<close> or \<open>ValueError\<close>, the two
  exceptions the callers handle, or returns a bundle that satisfies every field rule.
\<close>

theorem from_dict_safe:
  "case from_dict v of Inl e \<Rightarrow> is_input_error e | Inr b \<Rightarrow> valid_bundle b"
  using from_dict_input [of v] from_dict_valid [of v]
  by (auto simp: raises_only_input_def split: sum.splits)

text \<open>
  \<open>from_dict\<close> does not reject a wrongly typed \<open>requires_emulation\<close> or
  \<open>required_hw_tags\<close>: the first is replaced by its truth value, so the string "no" demands
  emulation, and a string of tags is taken apart into one tag per character.
\<close>

theorem from_dict_coerces:
  assumes "valid_bundle b"
  shows "from_dict (PDict (dict_set (dict_set (to_dict b)
            (PStr ''requires_emulation'') (PStr e)) (PStr ''required_hw_tags'') (PStr t))) =
         Inr (b\<lparr>tb_requires_emulation := (e \<noteq> []), tb_required_hw_tags := map (\<lambda>c. [c]) t\<rparr>)"
  using assms
  by (cases b) (simp add: from_dict_def result_simps guard_simps TestBundleRequest_Inr
      to_dict_def dict_get_def dict_has_def valid_bundle_def)

theorem from_dict_coerces_witness:
  "valid_bundle example_bundle \<and>
   from_dict (PDict (dict_set (dict_set (to_dict example_bundle)
      (PStr ''requires_emulation'') (PStr ''no'')) (PStr ''required_hw_tags'') (PStr ''AB''))) =
   Inr (example_bundle\<lparr>tb_requires_emulation := True, tb_required_hw_tags := [''A'', ''B'']\<rparr>)"
proof -
  have v: "valid_bundle example_bundle" by code_simp
  show ?thesis using from_dict_coerces [OF v, of "''no''" "''AB''"] v by simp
qed

end
