(* ===== verification/Models.thy ===== *)
theory Models
  imports Tables Schemas
begin

text \<open>
  \<open>backend/models.py\<close>: the five tables of the central database with their column defaults
  and unique columns, the comma-separated hardware tags of a worker host, and the database
  state the handlers read and write. Time stamps are microseconds; a datetime without a
  time zone is a value of its own, because comparing it with an aware one raises.
\<close>

section \<open>Datetimes\<close>

datatype py_datetime = Naive int | Aware int

fun dt_lt :: "py_datetime \<Rightarrow> py_datetime \<Rightarrow> bool result" where
  "dt_lt (Naive a) (Naive b) = Inr (a < b)"
| "dt_lt (Aware a) (Aware b) = Inr (a < b)"
| "dt_lt _ _ = Inl (TypeError ''can't compare offset-naive and offset-aware datetimes'')"

text \<open>\<open>replace(tzinfo=utc)\<close> when the value has no time zone.\<close>

fun assume_utc :: "py_datetime \<Rightarrow> py_datetime" where
  "assume_utc (Naive t) = Aware t"
| "assume_utc (Aware t) = Aware t"

fun utc_micros :: "py_datetime \<Rightarrow> int" where
  "utc_micros (Naive t) = t"
| "utc_micros (Aware t) = t"

lemma dt_lt_assume_utc [simp]: "dt_lt (assume_utc d) (Aware t) = Inr (utc_micros d < t)"
  by (cases d) auto

definition seconds :: "int \<Rightarrow> int" where
  "seconds s = s * 1000000"

section \<open>Rows\<close>

record user =
  u_id :: int
  u_username :: string
  u_display_name :: "string option"
  u_email :: "string option"
  u_created_at :: py_datetime

record user_session =
  us_id :: int
  us_token :: string
  us_user_id :: int
  us_created_at :: py_datetime
  us_expires_at :: py_datetime

record worker_host =
  wh_id :: int
  wh_host_id :: string
  wh_is_online :: bool
  wh_active_containers :: int
  wh_max_containers :: int
  wh_cpu_utilization :: pyfloat
  wh_hardware_tags :: string
  wh_supports_emulation :: bool
  wh_last_heartbeat :: "py_datetime option"

record test_execution =
  te_id :: int
  te_test_id :: string
  te_user_id :: int
  te_target_host_id :: "string option"
  te_runner_type :: string
  te_framework_image :: string
  te_status :: string
  te_quali_reservation_id :: "string option"
  te_artifact_url :: "string option"
  te_created_at :: py_datetime
  te_updated_at :: py_datetime

record log_line =
  ll_id :: int
  ll_test_id :: string
  ll_line_no :: int
  ll_content :: string
  ll_created_at :: py_datetime

text \<open>A new host row with the column defaults.\<close>

definition new_worker_host :: "int \<Rightarrow> string \<Rightarrow> worker_host" where
  "new_worker_host i h =
     \<lparr>wh_id = i, wh_host_id = h, wh_is_online = False, wh_active_containers = 0,
      wh_max_containers = 10, wh_cpu_utilization = Fin 0, wh_hardware_tags = [],
      wh_supports_emulation = False, wh_last_heartbeat = None\<rparr>"

definition new_test_execution ::
    "int \<Rightarrow> string \<Rightarrow> int \<Rightarrow> string \<Rightarrow> string \<Rightarrow> test_status \<Rightarrow> py_datetime \<Rightarrow> test_execution" where
  "new_test_execution i tid uid rt img st now =
     \<lparr>te_id = i, te_test_id = tid, te_user_id = uid, te_target_host_id = None,
      te_runner_type = rt, te_framework_image = img, te_status = status_value st,
      te_quali_reservation_id = None, te_artifact_url = None,
      te_created_at = now, te_updated_at = now\<rparr>"

text \<open>
  \<open>onupdate\<close>: writing a row stamps \<open>updated_at\<close>, and a row whose columns all keep their
  values is not written.
\<close>

definition touch :: "py_datetime \<Rightarrow> (test_execution \<Rightarrow> test_execution) \<Rightarrow> test_execution \<Rightarrow> test_execution"
  where "touch now f r = (if f r = r then r else (f r)\<lparr>te_updated_at := now\<rparr>)"

section \<open>Hardware tags\<close>

text \<open>\<open>[t.strip() for t in s.split(",") if t.strip()]\<close>\<close>

definition parse_tags :: "string \<Rightarrow> string list" where
  "parse_tags s = map strip (filter (\<lambda>t. strip t \<noteq> []) (split_on CHR '','' s))"

definition tag_set :: "worker_host \<Rightarrow> string set" where
  "tag_set h = set (parse_tags (wh_hardware_tags h))"

definition clean_tag :: "string \<Rightarrow> bool" where
  "clean_tag t \<longleftrightarrow> t \<noteq> [] \<and> strip t = t \<and> CHR '','' \<notin> set t"

lemma parse_tags_clean: "t \<in> set (parse_tags s) \<Longrightarrow> clean_tag t"
proof -
  assume "t \<in> set (parse_tags s)"
  then obtain w where w: "w \<in> set (split_on CHR '','' s)" "strip w \<noteq> []" "t = strip w"
    by (auto simp: parse_tags_def)
  then have "CHR '','' \<notin> set t"
    using split_on_pieces [OF w(1)] set_strip [of w] by auto
  with w show ?thesis by (simp add: clean_tag_def)
qed

lemma parse_tags_join: "\<forall>t \<in> set ts. clean_tag t \<Longrightarrow> parse_tags (join '','' ts) = ts"
proof (cases "ts = []")
  case False
  assume c: "\<forall>t \<in> set ts. clean_tag t"
  then have "split_on CHR '','' (join '','' ts) = ts"
    using False by (intro split_on_join) (auto simp: clean_tag_def)
  moreover have "filter (\<lambda>t. strip t \<noteq> []) ts = ts" "map strip ts = ts"
    using c by (auto simp: clean_tag_def filter_id_conv intro: map_idI)
  ultimately show ?thesis by (simp add: parse_tags_def)
qed (simp add: parse_tags_def)

section \<open>The database\<close>

record db =
  users :: "user list"
  sessions :: "user_session list"
  hosts :: "worker_host list"
  executions :: "test_execution list"
  log_lines :: "log_line list"
  next_id :: int

interpretation user_table: keyed_table
  "find_by u_username" "update_by u_username" "insert_by u_username" u_username "unique_by u_username"
  by (rule keyed_table_list)

interpretation session_table: keyed_table
  "find_by us_token" "update_by us_token" "insert_by us_token" us_token "unique_by us_token"
  by (rule keyed_table_list)

interpretation host_table: keyed_table
  "find_by wh_host_id" "update_by wh_host_id" "insert_by wh_host_id" wh_host_id "unique_by wh_host_id"
  by (rule keyed_table_list)

interpretation execution_table: keyed_table
  "find_by te_test_id" "update_by te_test_id" "insert_by te_test_id" te_test_id "unique_by te_test_id"
  by (rule keyed_table_list)

text \<open>
  Well-formedness: the unique columns and the host ids are unique, and every host row carries a host name,
  a non-negative container count, a capacity of at least one and a CPU load that is a number
  not below zero, which the scheduler's assertions demand.
\<close>

definition wf_host :: "worker_host \<Rightarrow> bool" where
  "wf_host h \<longleftrightarrow> \<not> blank (wh_host_id h) \<and> 0 \<le> wh_active_containers h \<and> 1 \<le> wh_max_containers h \<and>
     pf_le (Fin 0) (wh_cpu_utilization h)"

definition wf_hosts :: "worker_host list \<Rightarrow> bool" where
  "wf_hosts hs \<longleftrightarrow> unique_by wh_host_id hs \<and> unique_by wh_id hs \<and> list_all wf_host hs"

definition wf_db :: "db \<Rightarrow> bool" where
  "wf_db d \<longleftrightarrow> unique_by u_username (users d) \<and> unique_by us_token (sessions d) \<and>
     wf_hosts (hosts d) \<and> unique_by te_test_id (executions d) \<and>
     (\<forall>h \<in> set (hosts d). wh_id h < next_id d)"

lemma unique_map_keep:
  assumes "\<And>r. key (f r) = key r"
  shows "unique_by key (map f t) = unique_by key t"
proof -
  have "map key (map f t) = map key t" using assms by simp
  then show ?thesis by (simp only: unique_by_def)
qed

lemma wf_hosts_map:
  assumes "wf_hosts hs" "\<And>h. wh_host_id (f h) = wh_host_id h" "\<And>h. wh_id (f h) = wh_id h"
    and "\<And>h. h \<in> set hs \<Longrightarrow> wf_host (f h)"
  shows "wf_hosts (map f hs)"
  using assms unique_map_keep [of wh_host_id f hs] unique_map_keep [of wh_id f hs]
  by (simp add: wf_hosts_def list_all_iff)

lemma wf_hosts_update:
  assumes "wf_hosts hs" "\<And>h. wh_host_id (f h) = wh_host_id h" "\<And>h. wh_id (f h) = wh_id h"
    and "\<And>h. h \<in> set hs \<Longrightarrow> key h = k \<Longrightarrow> wf_host (f h)"
  shows "wf_hosts (update_by key k f hs)"
  unfolding update_by_def using assms
  by (intro wf_hosts_map) (auto simp: wf_hosts_def list_all_iff)

lemma wf_hosts_in: "wf_hosts hs \<Longrightarrow> h \<in> set hs \<Longrightarrow> wf_host h"
  by (simp add: wf_hosts_def list_all_iff)

lemma wf_hosts_same:
  "wf_hosts hs \<Longrightarrow> h \<in> set hs \<Longrightarrow> h' \<in> set hs \<Longrightarrow> wh_host_id h = wh_host_id h' \<Longrightarrow> h = h'"
  by (auto simp: wf_hosts_def unique_by_def dest: distinct_map_eq)

lemma wf_hosts_same_id:
  "wf_hosts hs \<Longrightarrow> h \<in> set hs \<Longrightarrow> h' \<in> set hs \<Longrightarrow> wh_id h = wh_id h' \<Longrightarrow> h = h'"
  by (auto simp: wf_hosts_def unique_by_def dest: distinct_map_eq)

lemma touch_field [simp]:
  "te_status (touch now f r) = te_status (f r)" "te_artifact_url (touch now f r) = te_artifact_url (f r)"
  "te_target_host_id (touch now f r) = te_target_host_id (f r)"
  by (simp_all add: touch_def)

lemma touch_test_id [simp]:
  "(\<And>r. te_test_id (f r) = te_test_id r) \<Longrightarrow> te_test_id (touch now f r) = te_test_id r"
  by (simp add: touch_def)

end
