(* ===== verification/World.thy ===== *)
theory World
  imports Models
begin

text \<open>
  The state a handler acts on: the committed database and the trace of calls that left the
  process (broker, HTTP services, Docker, log stores), oldest first. A handler is a function
  of this state that returns a value or a raised exception together with the new state;
  the combinators are Python's statement sequence, \<open>raise\<close>, \<open>try/except\<close> and
  \<open>try/finally\<close>.
\<close>

datatype effect =
    SendTask string pyval string
  | HttpPost string
  | HttpPut string
  | PublishFanout string string
  | InfluxWrite string string string int string
  | DockerRun string string string "(string \<times> string \<times> string) list" "(string \<times> pyval) list"
  | DockerRemove string
  | InfluxClose
  | LdapBind string
  | LdapSearch string string
  | LdapUnbind
  | MakeDirs string
  | WriteFile string string

record world =
  w_db :: db
  w_trace :: "effect list"

definition empty_db :: db where
  "empty_db = \<lparr>users = [], sessions = [], hosts = [], executions = [], log_lines = [], next_id = 1\<rparr>"

definition empty_world :: world where
  "empty_world = \<lparr>w_db = empty_db, w_trace = []\<rparr>"

type_synonym 'a act = "world \<Rightarrow> 'a result \<times> world"

definition act_return :: "'a \<Rightarrow> 'a act" where
  "act_return x w = (Inr x, w)"

definition act_raise :: "pyerr \<Rightarrow> 'a act" where
  "act_raise e w = (Inl e, w)"

definition act_lift :: "'a result \<Rightarrow> 'a act" where
  "act_lift r w = (r, w)"

definition act_bind :: "'a act \<Rightarrow> ('a \<Rightarrow> 'b act) \<Rightarrow> 'b act" where
  "act_bind m k w = (case m w of (Inl e, w') \<Rightarrow> (Inl e, w') | (Inr x, w') \<Rightarrow> k x w')"

definition act_catch :: "'a act \<Rightarrow> (pyerr \<Rightarrow> 'a act) \<Rightarrow> 'a act" where
  "act_catch m h w = (case m w of (Inl e, w') \<Rightarrow> h e w' | (Inr x, w') \<Rightarrow> (Inr x, w'))"

text \<open>An exception in the \<open>finally\<close> block replaces the outcome of the body.\<close>

definition act_finally :: "'a act \<Rightarrow> unit act \<Rightarrow> 'a act" where
  "act_finally m f w = (case m w of (r, w') \<Rightarrow>
     (case f w' of (Inl e, w'') \<Rightarrow> (Inl e, w'') | (Inr _, w'') \<Rightarrow> (r, w'')))"

definition get_db :: "db act" where
  "get_db w = (Inr (w_db w), w)"

definition put_db :: "(db \<Rightarrow> db) \<Rightarrow> unit act" where
  "put_db f w = (Inr (), w\<lparr>w_db := f (w_db w)\<rparr>)"

definition emit :: "effect \<Rightarrow> unit act" where
  "emit e w = (Inr (), w\<lparr>w_trace := w_trace w @ [e]\<rparr>)"

text \<open>
  A call of an external service: its outcome is an exception or success; only a call that
  succeeds is recorded.
\<close>

definition call_service :: "pyerr option \<Rightarrow> effect \<Rightarrow> unit act" where
  "call_service err e = (case err of None \<Rightarrow> emit e | Some x \<Rightarrow> act_raise x)"

text \<open>A commit makes the session's pending writes visible, or fails and writes nothing.\<close>

definition commit :: "pyerr option \<Rightarrow> (db \<Rightarrow> db) \<Rightarrow> unit act" where
  "commit err f = (case err of None \<Rightarrow> put_db f | Some x \<Rightarrow> act_raise x)"

text \<open>A call whose effect is outside the model: it succeeds or raises.\<close>

definition service :: "pyerr option \<Rightarrow> unit act" where
  "service err = (case err of None \<Rightarrow> act_return () | Some e \<Rightarrow> act_raise e)"

lemmas act_defs = act_return_def act_raise_def act_lift_def act_bind_def act_catch_def
  act_finally_def get_db_def put_db_def emit_def

lemma commit_simps [simp]:
  "commit None f w = (Inr (), w\<lparr>w_db := f (w_db w)\<rparr>)"
  "commit (Some e) f w = (Inl e, w)"
  by (simp_all add: commit_def act_defs)

lemma call_service_simps [simp]:
  "call_service None e w = (Inr (), w\<lparr>w_trace := w_trace w @ [e]\<rparr>)"
  "call_service (Some x) e w = (Inl x, w)"
  by (simp_all add: call_service_def act_defs)

text \<open>Inversion: how a sequence can have ended.\<close>

named_theorems act_elims \<open>inversion rules for the outcome of an action\<close>

lemma act_bind_Inr [act_elims]:
  "act_bind m k w = (Inr y, w') \<longleftrightarrow> (\<exists>x w1. m w = (Inr x, w1) \<and> k x w1 = (Inr y, w'))"
  by (auto simp: act_bind_def split: prod.splits sum.splits)

lemma act_bind_Inl [act_elims]:
  "act_bind m k w = (Inl e, w') \<longleftrightarrow>
     m w = (Inl e, w') \<or> (\<exists>x w1. m w = (Inr x, w1) \<and> k x w1 = (Inl e, w'))"
  by (auto simp: act_bind_def split: prod.splits sum.splits)

lemma act_lift_eq [act_elims]: "act_lift r w = (q, w') \<longleftrightarrow> r = q \<and> w' = w"
  by (auto simp: act_lift_def)

lemma act_return_eq [act_elims]: "act_return x w = (q, w') \<longleftrightarrow> q = Inr x \<and> w' = w"
  by (auto simp: act_return_def)

lemma act_raise_eq [act_elims]: "act_raise e w = (q, w') \<longleftrightarrow> q = Inl e \<and> w' = w"
  by (auto simp: act_raise_def)

lemma get_db_eq [act_elims]: "get_db w = (q, w') \<longleftrightarrow> q = Inr (w_db w) \<and> w' = w"
  by (auto simp: get_db_def)

lemma put_db_eq [act_elims]: "put_db f w = (q, w') \<longleftrightarrow> q = Inr () \<and> w' = w\<lparr>w_db := f (w_db w)\<rparr>"
  by (auto simp: put_db_def)

lemma commit_eq [act_elims]:
  "commit err f w = (q, w') \<longleftrightarrow>
     (case err of None \<Rightarrow> q = Inr () \<and> w' = w\<lparr>w_db := f (w_db w)\<rparr> | Some e \<Rightarrow> q = Inl e \<and> w' = w)"
  by (auto split: option.splits)

text \<open>The first step of a sequence is known.\<close>

lemma act_bind_step: "m w = (Inr x, w1) \<Longrightarrow> act_bind m k w = k x w1"
  by (simp add: act_bind_def)

lemma act_bind_stop: "m w = (Inl e, w1) \<Longrightarrow> act_bind m k w = (Inl e, w1)"
  by (simp add: act_bind_def)

lemma act_bind_simps [simp]:
  "act_bind (act_lift (Inr x)) k w = k x w" "act_bind (act_lift (Inl e)) k w = (Inl e, w)"
  "act_bind (act_return x) k w = k x w" "act_bind (act_raise e) k w = (Inl e, w)"
  "act_bind get_db k' w = k' (w_db w) w"
  "act_bind (put_db f) k'' w = k'' () (w\<lparr>w_db := f (w_db w)\<rparr>)"
  "act_bind (emit e') k'' w = k'' () (w\<lparr>w_trace := w_trace w @ [e']\<rparr>)"
  "act_bind (commit None f) k'' w = k'' () (w\<lparr>w_db := f (w_db w)\<rparr>)"
  "act_bind (commit (Some e) f) k'' w = (Inl e, w)"
  by (simp_all add: act_bind_def act_lift_def act_return_def act_raise_def get_db_def put_db_def emit_def)

lemma act_bind_assoc: "act_bind (act_bind m k) l = act_bind m (\<lambda>x. act_bind (k x) l)"
  by (auto simp: act_bind_def fun_eq_iff split: prod.splits sum.splits)

text \<open>
  A state predicate kept by an action whatever its outcome, and the rules that carry it
  through the combinators.
\<close>

definition keeps :: "(world \<Rightarrow> bool) \<Rightarrow> 'a act \<Rightarrow> bool" where
  "keeps I m \<longleftrightarrow> (\<forall>w. I w \<longrightarrow> I (snd (m w)))"

named_theorems keeps_intros \<open>actions that keep a state predicate\<close>

lemma keepsD: "keeps I m \<Longrightarrow> I w \<Longrightarrow> m w = (r, w') \<Longrightarrow> I w'"
  unfolding keeps_def by (metis snd_conv)

lemma keeps_return [keeps_intros]: "keeps I (act_return x)"
  by (simp add: keeps_def act_return_def)

lemma keeps_raise [keeps_intros]: "keeps I (act_raise e)"
  by (simp add: keeps_def act_raise_def)

lemma keeps_lift [keeps_intros]: "keeps I (act_lift r)"
  by (simp add: keeps_def act_lift_def)

lemma keeps_get_db [keeps_intros]: "keeps I get_db"
  by (simp add: keeps_def get_db_def)

lemma keeps_bind [keeps_intros]: "keeps I m \<Longrightarrow> (\<And>x. keeps I (k x)) \<Longrightarrow> keeps I (act_bind m k)"
  unfolding keeps_def act_bind_def by (force split: prod.splits sum.splits)

lemma keeps_catch [keeps_intros]: "keeps I m \<Longrightarrow> (\<And>e. keeps I (h e)) \<Longrightarrow> keeps I (act_catch m h)"
  unfolding keeps_def act_catch_def by (force split: prod.splits sum.splits)

lemma keeps_finally [keeps_intros]: "keeps I m \<Longrightarrow> keeps I f \<Longrightarrow> keeps I (act_finally m f)"
  unfolding keeps_def act_finally_def by (force split: prod.splits sum.splits)

end
