(* ===== verification/Scheduler.thy ===== *)
theory Scheduler
  imports World
begin

text \<open>
  \<open>backend/services/scheduler.py\<close>: filter-and-rank placement (\<open>select_host\<close>) and the
  authoritative \<open>dispatch\<close>, which reserves a container slot, commits, sends the Celery task
  to the chosen host's queue and undoes the reservation when an exception occurs.
\<close>

section \<open>Queue names, score and filter\<close>

definition queue_of :: "string \<Rightarrow> string" where
  "queue_of h = ''queue_'' @ h"

definition queue_name_for :: "pyval \<Rightarrow> string result" where
  "queue_name_for host_id =
     ebind (require_non_empty_str host_id ''host_id'') (\<lambda>h.
     let queue = queue_of h
     in ebind (py_assert (startswith queue ''queue_'') (''queue name must be prefixed '' @ [CHR 0x27] @ ''queue_'' @ [CHR 0x27]))
          (\<lambda>_. Inr queue))"

record ranked_host =
  rh_host_id :: string
  rh_score :: pyfloat

definition workload_score :: "worker_host \<Rightarrow> pyfloat result" where
  "workload_score h =
     ebind (py_assert (0 \<le> wh_active_containers h) ''active_containers must be >= 0'') (\<lambda>_.
     ebind (py_assert (pf_le (Fin 0) (wh_cpu_utilization h)) ''cpu_utilization must be >= 0'') (\<lambda>_.
     let score = pf_add (Fin (of_int (wh_active_containers h * 20))) (wh_cpu_utilization h)
     in ebind (py_assert (pf_le (Fin 0) score) ''workload score must be non-negative'') (\<lambda>_.
        Inr score)))"

definition passes_filter :: "worker_host \<Rightarrow> test_bundle \<Rightarrow> bool" where
  "passes_filter h b =
     (if \<not> wh_is_online h then False
      else if wh_active_containers h \<ge> wh_max_containers h then False
      else if tb_requires_emulation b \<and> \<not> wh_supports_emulation h then False
      else let required = set (tb_required_hw_tags b)
           in if required \<noteq> {} \<and> \<not> required \<subseteq> tag_set h then False else True)"

section \<open>Ranking\<close>

text \<open>Tuples compare on the first component that differs.\<close>

definition key_lt :: "pyfloat \<times> string \<Rightarrow> pyfloat \<times> string \<Rightarrow> bool" where
  "key_lt a b = (if pf_eq (fst a) (fst b) then snd a < snd b else pf_lt (fst a) (fst b))"

definition rank_key :: "worker_host \<Rightarrow> ((pyfloat \<times> string) \<times> worker_host) result" where
  "rank_key h = ebind (workload_score h) (\<lambda>s. Inr ((s, wh_host_id h), h))"

text \<open>\<open>min(survivors, key=lambda h: (_workload_score(h), h.host_id))\<close>\<close>

definition min_host :: "worker_host list \<Rightarrow> worker_host result" where
  "min_host survivors = ebind (emap rank_key survivors) (\<lambda>ks. case ks of
       [] \<Rightarrow> Inl (ValueError ''min() iterable argument is empty'')
     | k # ks \<Rightarrow> Inr (snd (min_from key_lt k ks)))"

text \<open>An argument that is not a bundle is refused first.\<close>

fun as_bundle :: "pyval + test_bundle \<Rightarrow> test_bundle result" where
  "as_bundle (Inl _) = Inl (TypeError ''bundle must be a TestBundleRequest'')"
| "as_bundle (Inr b) = Inr b"

definition select_host :: "worker_host list \<Rightarrow> pyval + test_bundle \<Rightarrow> ranked_host option result" where
  "select_host hs bundle =
     ebind (as_bundle bundle) (\<lambda>b.
     let survivors = filter (\<lambda>h. passes_filter h b) hs
     in if survivors = [] then Inr None
        else ebind (min_host survivors) (\<lambda>best.
             ebind (workload_score best) (\<lambda>s.
             let r = \<lparr>rh_host_id = wh_host_id best, rh_score = s\<rparr>
             in ebind (py_assert (rh_host_id r \<in> wh_host_id ` set survivors)
                         ''selected host not among survivors'') (\<lambda>_. Inr (Some r)))))"

section \<open>dispatch\<close>

text \<open>
  What happens outside during a dispatch: whether the reserving commit and the undoing
  commit fail, whether \<open>send_task\<close> to a queue raises, and what other transactions do to the
  inventory between the release of the row locks and the re-read of the \<open>except\<close> block.
\<close>

record dispatch_env =
  de_commit_reserve :: "pyerr option"
  de_send :: "string \<Rightarrow> pyerr option"
  de_others :: "worker_host list \<Rightarrow> worker_host list"
  de_commit_undo :: "pyerr option"

definition quiet_env :: dispatch_env where
  "quiet_env = \<lparr>de_commit_reserve = None, de_send = (\<lambda>_. None), de_others = id,
     de_commit_undo = None\<rparr>"

text \<open>\<open>chosen.active_containers += 1\<close> and \<open>commit\<close>, under the row lock.\<close>

definition reserve_slot :: "worker_host \<Rightarrow> worker_host list \<Rightarrow> worker_host list" where
  "reserve_slot chosen =
     update_by wh_id (wh_id chosen)
       (\<lambda>h. h\<lparr>wh_active_containers := wh_active_containers chosen + 1\<rparr>)"

text \<open>
  The \<open>except\<close> block. \<open>fresh\<close> is read again only when the reserving commit failed: its rollback
  expires the loaded rows. After a commit that succeeded no transaction is open, so the
  \<open>rollback\<close> does nothing, and with \<open>expire_on_commit=False\<close> (\<open>backend/database.py\<close>) \<open>db.get\<close>
  answers from the session's identity map: \<open>fresh\<close> is \<open>chosen\<close> itself, with the count this
  dispatch wrote.
\<close>

definition fresh_count :: "dispatch_env \<Rightarrow> worker_host \<Rightarrow> worker_host list \<Rightarrow> int option" where
  "fresh_count env chosen hs =
     (if de_commit_reserve env = None then Some (wh_active_containers chosen + 1)
      else map_option wh_active_containers (List.find (\<lambda>h. wh_id h = wh_id chosen) hs))"

definition undo_slot :: "worker_host \<Rightarrow> int \<Rightarrow> worker_host list \<Rightarrow> worker_host list" where
  "undo_slot chosen n = update_by wh_id (wh_id chosen) (\<lambda>h. h\<lparr>wh_active_containers := n - 1\<rparr>)"

definition set_hosts :: "(worker_host list \<Rightarrow> worker_host list) \<Rightarrow> db \<Rightarrow> db" where
  "set_hosts f d = d\<lparr>hosts := f (hosts d)\<rparr>"

text \<open>A row that has been deleted meanwhile makes SQLAlchemy raise, on the read or on the write.\<close>

definition undo_reservation :: "dispatch_env \<Rightarrow> worker_host \<Rightarrow> unit act" where
  "undo_reservation env chosen =
     act_bind get_db (\<lambda>d.
     (case fresh_count env chosen (hosts d) of
        None \<Rightarrow> act_raise (ServiceError ''ObjectDeletedError'')
      | Some n \<Rightarrow>
          if n > 0
          then if list_ex (\<lambda>h. wh_id h = wh_id chosen) (hosts d)
               then commit (de_commit_undo env) (set_hosts (undo_slot chosen n))
               else act_raise (ServiceError ''StaleDataError'')
          else act_return ()))"

definition dispatch :: "dispatch_env \<Rightarrow> pyval + test_bundle \<Rightarrow> string option act" where
  "dispatch env bundle =
     act_bind (act_lift (as_bundle bundle)) (\<lambda>b.
     act_bind get_db (\<lambda>d.
     let survivors = filter (\<lambda>h. passes_filter h b) (hosts d)
     in if survivors = [] then act_return None
        else
          act_bind (act_lift (min_host survivors)) (\<lambda>chosen.
          act_bind (act_lift (queue_name_for (PStr (wh_host_id chosen)))) (\<lambda>target_queue.
          act_bind
            (act_catch
              (act_bind (commit (de_commit_reserve env) (set_hosts (reserve_slot chosen))) (\<lambda>_.
               call_service (de_send env target_queue)
                 (SendTask ''worker.run_test_bundle'' (PDict (to_dict b)) target_queue)))
              (\<lambda>e. act_bind (put_db (set_hosts (de_others env))) (\<lambda>_.
                   act_bind (undo_reservation env chosen) (\<lambda>_. act_raise e)))) (\<lambda>_.
          act_bind (act_lift (py_assert (wh_host_id chosen \<noteq> []) ''dispatched host_id must be truthy'')) (\<lambda>_.
          act_return (Some (wh_host_id chosen))))))))"

section \<open>The ranking is a linear order on the inventory\<close>

definition host_score :: "worker_host \<Rightarrow> pyfloat" where
  "host_score h = pf_add (Fin (of_int (wh_active_containers h * 20))) (wh_cpu_utilization h)"

definition host_rank :: "worker_host \<Rightarrow> pyfloat \<times> string" where
  "host_rank h = (host_score h, wh_host_id h)"

lemma host_score_nonneg: "wf_host h \<Longrightarrow> pf_le (Fin 0) (host_score h)"
  by (auto simp: wf_host_def host_score_def pf_nonneg_cases)

lemma workload_score_wf: "wf_host h \<Longrightarrow> workload_score h = Inr (host_score h)"
  using host_score_nonneg [of h]
  by (simp add: workload_score_def Let_def wf_host_def host_score_def)

lemma rank_key_wf: "wf_host h \<Longrightarrow> rank_key h = Inr (host_rank h, h)"
  by (simp add: rank_key_def workload_score_wf host_rank_def)

lemma key_lt_rank:
  "wf_host h \<Longrightarrow> wf_host h' \<Longrightarrow> key_lt (host_rank h) (host_rank h') \<longleftrightarrow> host_rank h < host_rank h'"
  using host_score_nonneg [of h] host_score_nonneg [of h']
  by (auto simp: key_lt_def host_rank_def pf_eq_def pf_lt_def pf_le_def less_prod_def')

lemma host_rank_inj:
  "wf_hosts hs \<Longrightarrow> h \<in> set hs \<Longrightarrow> h' \<in> set hs \<Longrightarrow> host_rank h = host_rank h' \<Longrightarrow> h = h'"
  by (auto simp: host_rank_def dest: wf_hosts_same)

lemma min_host_wf:
  assumes "\<forall>h \<in> set hs. wf_host h" "hs \<noteq> []"
  obtains h where "min_host hs = Inr h" "h \<in> set hs" "\<forall>h' \<in> set hs. host_rank h \<le> host_rank h'"
proof -
  have keys: "emap rank_key hs = Inr (map (\<lambda>h. (host_rank h, h)) hs)"
    using assms(1) by (intro emap_total) (simp add: rank_key_wf)
  from assms(2) obtain a as where hs: "hs = a # as" by (cases hs) auto
  define m where
    "m = min_from key_lt (host_rank a, a) (map (\<lambda>h. (host_rank h, h)) as)"
  have "m \<in> set (map (\<lambda>h. (host_rank h, h)) hs)"
    using min_from_in [of key_lt "(host_rank a, a)" "map (\<lambda>h. (host_rank h, h)) as"]
    by (simp add: m_def hs)
  then have m: "m = (host_rank (snd m), snd m)" "snd m \<in> set hs" by auto
  have "fst m \<le> fst y" if "y \<in> set (map (\<lambda>h. (host_rank h, h)) hs)" for y
    unfolding m_def
    by (rule min_from_least [where f = id, simplified])
       (use assms(1) that in \<open>auto simp: hs key_lt_rank\<close>)
  with m have "\<forall>h' \<in> set hs. host_rank (snd m) \<le> host_rank h'"
    by (metis (no_types, lifting) fst_conv image_eqI list.set_map)
  moreover have "min_host hs = Inr (snd m)"
    by (simp add: min_host_def keys) (simp add: hs m_def)
  ultimately show ?thesis using that m(2) by blast
qed

section \<open>The placement contract\<close>

text \<open>
  What the two entry points promise about their choice: they fail only when no candidate is
  eligible, and otherwise take an eligible candidate of least rank, where different
  candidates have different ranks. Its consequences are proved once for both.
\<close>

locale placement =
  fixes eligible :: "'h \<Rightarrow> 'b \<Rightarrow> bool"
    and rank :: "'h \<Rightarrow> 'k::linorder"
    and pick :: "'b \<Rightarrow> 'h list \<Rightarrow> 'h option"
    and good :: "'h list \<Rightarrow> bool"
  assumes choose_None: "good hs \<Longrightarrow> pick b hs = None \<longleftrightarrow> (\<forall>h \<in> set hs. \<not> eligible h b)"
    and choose_Some: "good hs \<Longrightarrow> pick b hs = Some h \<Longrightarrow>
      h \<in> set hs \<and> eligible h b \<and> (\<forall>h' \<in> set hs. eligible h' b \<longrightarrow> rank h \<le> rank h')"
    and rank_inj: "good hs \<Longrightarrow> h \<in> set hs \<Longrightarrow> h' \<in> set hs \<Longrightarrow> rank h = rank h' \<Longrightarrow> h = h'"
begin

lemma choose_unique:
  assumes "good hs" "h \<in> set hs" "eligible h b"
    and least: "\<And>h'. h' \<in> set hs \<Longrightarrow> eligible h' b \<Longrightarrow> rank h \<le> rank h'"
  shows "pick b hs = Some h"
proof (cases "pick b hs")
  case None
  with assms show ?thesis by (auto simp: choose_None)
next
  case (Some g)
  from choose_Some [OF assms(1) Some] assms have "rank g \<le> rank h" "rank h \<le> rank g" "g \<in> set hs"
    by auto
  with assms rank_inj [of hs g h] Some show ?thesis by auto
qed

text \<open>The choice depends on the set of candidates, not on the order of the rows.\<close>

lemma choose_order:
  assumes "good hs" "good hs'" "set hs = set hs'"
  shows "pick b hs = pick b hs'"
proof (cases "pick b hs")
  case None
  then have "pick b hs' = None" using assms by (simp add: choose_None)
  with None show ?thesis by simp
next
  case (Some h)
  then show ?thesis
    using assms choose_Some [OF assms(1) Some] by (auto intro!: choose_unique [symmetric])
qed

text \<open>Candidates that are not eligible do not influence the choice.\<close>

lemma choose_ineligible:
  assumes "good hs" "good hs'"
    and "\<And>h. eligible h b \<Longrightarrow> h \<in> set hs \<longleftrightarrow> h \<in> set hs'"
  shows "pick b hs = pick b hs'"
proof (cases "pick b hs")
  case None
  then have "pick b hs' = None" using assms by (auto simp: choose_None)
  with None show ?thesis by simp
next
  case (Some h)
  then show ?thesis
    using assms choose_Some [OF assms(1) Some] by (auto intro!: choose_unique [symmetric])
qed

end

text \<open>The choice both entry points make, as a function of the inventory.\<close>

definition pick_host :: "test_bundle \<Rightarrow> worker_host list \<Rightarrow> worker_host option" where
  "pick_host b hs =
     (let survivors = filter (\<lambda>h. passes_filter h b) hs
      in if survivors = [] then None
         else (case min_host survivors of Inr h \<Rightarrow> Some h | Inl _ \<Rightarrow> None))"

lemma pick_host_Some:
  assumes "wf_hosts hs" "pick_host b hs = Some h"
  shows "min_host (filter (\<lambda>h. passes_filter h b) hs) = Inr h" "h \<in> set hs" "passes_filter h b"
    "\<forall>h' \<in> set hs. passes_filter h' b \<longrightarrow> host_rank h \<le> host_rank h'"
proof -
  let ?s = "filter (\<lambda>h. passes_filter h b) hs"
  from assms(2) have ne: "?s \<noteq> []" by (auto simp: pick_host_def Let_def)
  from assms(1) have "\<forall>h \<in> set ?s. wf_host h" by (auto intro: wf_hosts_in)
  from min_host_wf [OF this ne] obtain g where
    g: "min_host ?s = Inr g" "g \<in> set ?s" "\<forall>h' \<in> set ?s. host_rank g \<le> host_rank h'" by blast
  with ne assms(2) have "g = h" by (simp add: pick_host_def)
  with g show "min_host ?s = Inr h" "h \<in> set hs" "passes_filter h b"
    "\<forall>h' \<in> set hs. passes_filter h' b \<longrightarrow> host_rank h \<le> host_rank h'" by auto
qed

lemma pick_host_None:
  assumes "wf_hosts hs"
  shows "pick_host b hs = None \<longleftrightarrow> (\<forall>h \<in> set hs. \<not> passes_filter h b)"
proof
  assume none: "pick_host b hs = None"
  let ?s = "filter (\<lambda>h. passes_filter h b) hs"
  show "\<forall>h \<in> set hs. \<not> passes_filter h b"
  proof (rule ccontr)
    assume "\<not> ?thesis"
    then have ne: "?s \<noteq> []" by (auto simp: filter_empty_conv)
    from assms have "\<forall>h \<in> set ?s. wf_host h" by (auto intro: wf_hosts_in)
    from min_host_wf [OF this ne] obtain g where "min_host ?s = Inr g" by blast
    with none ne show False by (simp add: pick_host_def)
  qed
qed (simp add: pick_host_def Let_def filter_empty_conv)

interpretation sched: placement passes_filter host_rank pick_host wf_hosts
proof
  fix hs and b and h
  assume "wf_hosts hs" "pick_host b hs = Some h"
  from pick_host_Some [OF this]
  show "h \<in> set hs \<and> passes_filter h b \<and>
      (\<forall>h' \<in> set hs. passes_filter h' b \<longrightarrow> host_rank h \<le> host_rank h')" by blast
qed (auto simp: pick_host_None dest: host_rank_inj)

section \<open>select_host\<close>

lemma select_host_pick:
  assumes "wf_hosts hs"
  shows "select_host hs (Inr b) = Inr (map_option
           (\<lambda>h. \<lparr>rh_host_id = wh_host_id h, rh_score = host_score h\<rparr>) (pick_host b hs))"
proof (cases "pick_host b hs")
  case None
  with assms have "filter (\<lambda>h. passes_filter h b) hs = []"
    by (simp add: pick_host_None filter_empty_conv)
  with None show ?thesis by (simp add: select_host_def)
next
  case (Some h)
  note p = pick_host_Some [OF assms Some]
  then have "filter (\<lambda>h. passes_filter h b) hs \<noteq> []"
    and "wh_host_id h \<in> wh_host_id ` set (filter (\<lambda>h. passes_filter h b) hs)"
    by (auto simp: filter_empty_conv)
  with p(1,2) Some assms show ?thesis
    by (simp add: select_host_def Let_def workload_score_wf wf_hosts_in del: set_filter)
qed

text \<open>
  C11: On a well-formed inventory \<open>select_host\<close> returns a host exactly when one passes the
  filter, and then the one with the least score, ties broken by the smaller host name.
\<close>

theorem select_host_least:
  assumes "wf_hosts hs"
  shows "select_host hs (Inr b) = Inr res \<longleftrightarrow>
    (case res of
       None \<Rightarrow> (\<forall>h \<in> set hs. \<not> passes_filter h b)
     | Some r \<Rightarrow> (\<exists>h \<in> set hs. passes_filter h b \<and>
          r = \<lparr>rh_host_id = wh_host_id h, rh_score = host_score h\<rparr> \<and>
          (\<forall>h' \<in> set hs. passes_filter h' b \<longrightarrow>
             host_score h < host_score h' \<or>
             host_score h = host_score h' \<and> wh_host_id h \<le> wh_host_id h')))"
proof -
  have rank: "host_rank h \<le> host_rank h' \<longleftrightarrow> host_score h < host_score h' \<or>
      host_score h = host_score h' \<and> wh_host_id h \<le> wh_host_id h'" for h h'
    by (auto simp: host_rank_def less_eq_prod_def)
  show ?thesis
  proof (cases res)
    case None
    then show ?thesis using assms by (simp add: select_host_pick pick_host_None)
  next
    case (Some r)
    have "select_host hs (Inr b) = Inr (Some r) \<longleftrightarrow>
        (\<exists>h. pick_host b hs = Some h \<and> r = \<lparr>rh_host_id = wh_host_id h, rh_score = host_score h\<rparr>)"
      using assms by (auto simp: select_host_pick)
    also have "\<dots> \<longleftrightarrow> (\<exists>h \<in> set hs. passes_filter h b \<and>
        r = \<lparr>rh_host_id = wh_host_id h, rh_score = host_score h\<rparr> \<and>
        (\<forall>h' \<in> set hs. passes_filter h' b \<longrightarrow> host_rank h \<le> host_rank h'))"
    proof
      assume "\<exists>h. pick_host b hs = Some h \<and> r = \<lparr>rh_host_id = wh_host_id h, rh_score = host_score h\<rparr>"
      then obtain h where h: "pick_host b hs = Some h"
        "r = \<lparr>rh_host_id = wh_host_id h, rh_score = host_score h\<rparr>" by blast
      from sched.choose_Some [OF assms h(1)] h(2) show "\<exists>h \<in> set hs. passes_filter h b \<and>
        r = \<lparr>rh_host_id = wh_host_id h, rh_score = host_score h\<rparr> \<and>
        (\<forall>h' \<in> set hs. passes_filter h' b \<longrightarrow> host_rank h \<le> host_rank h')"
        by (intro bexI [of _ h]) auto
    qed (use sched.choose_unique [OF assms] in blast)
    finally show ?thesis using Some by (simp add: rank)
  qed
qed

definition example_host :: "string \<Rightarrow> int \<Rightarrow> rat \<Rightarrow> worker_host" where
  "example_host name active cpu =
     (new_worker_host (int (length name)) name)
       \<lparr>wh_is_online := True, wh_active_containers := active, wh_cpu_utilization := Fin cpu,
        wh_hardware_tags := ''DUT_A, DUT_B'', wh_supports_emulation := True\<rparr>"

definition example_hosts :: "worker_host list" where
  "example_hosts = [example_host ''h1'' 3 10, example_host ''host2'' 0 50, example_host ''h03'' 10 0]"

lemma example_hosts_wf: "wf_hosts example_hosts"
  by code_simp

theorem select_host_least_witness:
  "wf_hosts example_hosts \<and>
   select_host example_hosts (Inr example_bundle) =
     Inr (Some \<lparr>rh_host_id = ''host2'', rh_score = Fin 50\<rparr>) \<and>
   (\<exists>h \<in> set example_hosts. passes_filter h example_bundle \<and> wh_host_id h = ''host2'')"
proof -
  have sel: "select_host example_hosts (Inr example_bundle) =
      Inr (Some \<lparr>rh_host_id = ''host2'', rh_score = Fin 50\<rparr>)"
    by code_simp
  from this [unfolded select_host_least [OF example_hosts_wf]] sel example_hosts_wf
  show ?thesis by auto
qed

text \<open>
  C40: The placement does not depend on the order in which the database returns the rows.
\<close>

theorem select_host_row_order:
  assumes "wf_hosts hs" "mset hs' = mset hs"
  shows "select_host hs' (Inr b) = select_host hs (Inr b)"
proof -
  have set: "set hs' = set hs" using assms(2) by (rule mset_eq_setD)
  have "unique_by wh_host_id hs' = unique_by wh_host_id hs" "unique_by wh_id hs' = unique_by wh_id hs"
    unfolding unique_by_def using assms(2) by (metis mset_eq_imp_distinct_iff mset_map)+
  then have "wf_hosts hs'"
    using assms(1) set by (simp add: wf_hosts_def list_all_iff)
  with assms(1) set show ?thesis
    by (simp add: select_host_pick sched.choose_order [of hs' hs])
qed

theorem select_host_row_order_witness:
  "select_host (rev example_hosts) (Inr example_bundle) = select_host example_hosts (Inr example_bundle)"
  by (rule select_host_row_order [OF example_hosts_wf]) simp

section \<open>dispatch\<close>

lemma queue_name_for_ok:
  assumes "\<not> blank h"
  shows "queue_name_for (PStr h) = Inr (queue_of h)"
proof -
  have "startswith (queue_of h) ''queue_''" unfolding queue_of_def by (rule startswith_append)
  with assms show ?thesis by (simp add: queue_name_for_def Let_def)
qed

lemma set_hosts_simps [simp]:
  "hosts (set_hosts f d) = f (hosts d)" "executions (set_hosts f d) = executions d"
  "users (set_hosts f d) = users d" "sessions (set_hosts f d) = sessions d"
  "log_lines (set_hosts f d) = log_lines d" "next_id (set_hosts f d) = next_id d"
  by (simp_all add: set_hosts_def)

lemma set_hosts_id [simp]: "set_hosts id d = d"
  by (simp add: set_hosts_def)

lemma set_hosts_set_hosts [simp]: "set_hosts f (set_hosts g d) = set_hosts (f \<circ> g) d"
  by (simp add: set_hosts_def)

text \<open>The \<open>except\<close> path: other transactions, the undo, and the exception again.\<close>

definition dispatch_fail :: "dispatch_env \<Rightarrow> worker_host \<Rightarrow> pyerr \<Rightarrow> string option act" where
  "dispatch_fail env h e =
     act_bind (put_db (set_hosts (de_others env))) (\<lambda>_.
     act_bind (undo_reservation env h) (\<lambda>_. act_raise e))"

lemma dispatch_pick:
  assumes "wf_hosts (hosts (w_db w))"
  shows "dispatch env (Inr b) w = (case pick_host b (hosts (w_db w)) of
      None \<Rightarrow> (Inr None, w)
    | Some h \<Rightarrow> (case de_commit_reserve env of
        Some e \<Rightarrow> dispatch_fail env h e w
      | None \<Rightarrow>
         (let w1 = w\<lparr>w_db := set_hosts (reserve_slot h) (w_db w)\<rparr>; q = queue_of (wh_host_id h)
          in (case de_send env q of
               Some e \<Rightarrow> dispatch_fail env h e w1
             | None \<Rightarrow> (Inr (Some (wh_host_id h)),
                 w1\<lparr>w_trace := w_trace w @ [SendTask ''worker.run_test_bundle'' (PDict (to_dict b)) q]\<rparr>)))))"
proof (cases "pick_host b (hosts (w_db w))")
  case None
  with assms have "filter (\<lambda>h. passes_filter h b) (hosts (w_db w)) = []"
    by (simp add: pick_host_None filter_empty_conv)
  with None show ?thesis by (simp add: dispatch_def act_defs)
next
  case (Some h)
  note p = pick_host_Some [OF assms Some]
  then have ne: "filter (\<lambda>h. passes_filter h b) (hosts (w_db w)) \<noteq> []" by (auto simp: filter_empty_conv)
  from p(2) assms have b: "\<not> blank (wh_host_id h)" by (auto dest: wf_hosts_in simp: wf_host_def)
  then have "wh_host_id h \<noteq> []" by auto
  with b p(1) ne Some show ?thesis
    by (auto simp: dispatch_def dispatch_fail_def act_defs queue_name_for_ok Let_def
        split: option.splits prod.splits sum.splits)
qed

lemma dispatch_success:
  assumes "dispatch env (Inr b) w = (Inr (Some h), w')" "wf_hosts (hosts (w_db w))"
  obtains g where "pick_host b (hosts (w_db w)) = Some g" "wh_host_id g = h" "g \<in> set (hosts (w_db w))"
    "w_db w' = set_hosts (reserve_slot g) (w_db w)"
    "w_trace w' = w_trace w @ [SendTask ''worker.run_test_bundle'' (PDict (to_dict b)) (queue_of h)]"
proof -
  have fails: "dispatch_fail env g e v \<noteq> (Inr x, v')" for g e v x v'
    by (auto simp: dispatch_fail_def act_elims)
  obtain g where g: "pick_host b (hosts (w_db w)) = Some g"
    using assms by (cases "pick_host b (hosts (w_db w))") (simp_all add: dispatch_pick)
  then have r: "(Inr (Some (wh_host_id g)), w\<lparr>w_db := set_hosts (reserve_slot g) (w_db w),
      w_trace := w_trace w @ [SendTask ''worker.run_test_bundle'' (PDict (to_dict b)) (queue_of (wh_host_id g))]\<rparr>) =
      (Inr (Some h), w')"
    using assms fails by (auto simp: dispatch_pick Let_def split: option.splits)
  have "g \<in> set (hosts (w_db w))" using pick_host_Some [OF assms(2) g] by simp
  with g r show thesis by (intro that [of g]) auto
qed

text \<open>Writing the incremented value read under the lock increments the one chosen row.\<close>

lemma reserve_slot_incr:
  assumes "wf_hosts hs" "h \<in> set hs"
  shows "reserve_slot h hs =
    update_by wh_host_id (wh_host_id h) (\<lambda>h. h\<lparr>wh_active_containers := wh_active_containers h + 1\<rparr>) hs"
  unfolding reserve_slot_def update_by_def
  using assms by (auto dest: wf_hosts_same wf_hosts_same_id)

lemma find_host_id:
  assumes "wf_hosts hs" "h \<in> set hs"
  shows "List.find (\<lambda>g. wh_id g = wh_id h) hs = Some h"
  using assms by (metis find_by_Some find_by_unique sum.inject(2) wf_hosts_def)

lemma host_nonneg: "wf_hosts hs \<Longrightarrow> h \<in> set hs \<Longrightarrow> 0 \<le> wh_active_containers h"
  by (auto dest: wf_hosts_in simp: wf_host_def)

lemma undo_slot_overwrites:
  assumes "wf_hosts hs" "h \<in> set hs"
  shows "undo_slot h (wh_active_containers h + 1) (update_by wh_id (wh_id h) (\<lambda>g. g\<lparr>wh_active_containers := f g\<rparr>) hs) = hs"
proof -
  have "update_by wh_id (wh_id h) (\<lambda>g. g\<lparr>wh_active_containers := wh_active_containers h\<rparr>) hs = hs"
  proof (rule update_by_id_on)
    fix g assume "g \<in> set hs" "wh_id g = wh_id h"
    then have "g = h" using wf_hosts_same_id [OF assms(1)] assms(2) by blast
    then show "g\<lparr>wh_active_containers := wh_active_containers h\<rparr> = g" by simp
  qed
  then show ?thesis by (simp add: undo_slot_def update_by_update_by comp_def)
qed

lemma undo_slot_reserve_slot:
  "wf_hosts hs \<Longrightarrow> h \<in> set hs \<Longrightarrow> undo_slot h (wh_active_containers h + 1) (reserve_slot h hs) = hs"
  unfolding reserve_slot_def by (rule undo_slot_overwrites)

lemma dispatch_fail_stale:
  assumes "de_commit_reserve env = None" "de_commit_undo env = None" "0 \<le> wh_active_containers h"
    and "list_ex (\<lambda>g. wh_id g = wh_id h) (de_others env (hosts (w_db w)))"
  shows "dispatch_fail env h e w =
    (Inl e, w\<lparr>w_db := set_hosts (undo_slot h (wh_active_containers h + 1) \<circ> de_others env) (w_db w)\<rparr>)"
  using assms
  by (simp add: dispatch_fail_def undo_reservation_def fresh_count_def act_defs set_hosts_def)

lemma dispatch_fail_reread:
  assumes "de_commit_reserve env = Some x" "de_commit_undo env = None" "de_others env = id"
    and "wf_hosts (hosts (w_db w))" "h \<in> set (hosts (w_db w))" "0 < wh_active_containers h"
  shows "dispatch_fail env h e w =
    (Inl e, w\<lparr>w_db := set_hosts (undo_slot h (wh_active_containers h)) (w_db w)\<rparr>)"
proof -
  have "list_ex (\<lambda>g. wh_id g = wh_id h) (hosts (w_db w))" using assms(5) by (auto simp: list_ex_iff)
  with assms show ?thesis
    by (simp add: dispatch_fail_def undo_reservation_def fresh_count_def act_defs set_hosts_def find_host_id)
qed

lemma undo_slot_update:
  assumes "wf_hosts hs" "h \<in> set hs"
  shows "undo_slot h (wh_active_containers h) hs =
    update_by wh_host_id (wh_host_id h) (\<lambda>h. h\<lparr>wh_active_containers := wh_active_containers h - 1\<rparr>) hs"
  unfolding undo_slot_def update_by_def
  using assms by (auto dest: wf_hosts_same wf_hosts_same_id)

lemma has_row_update:
  assumes "h \<in> set hs" "\<And>g. wh_id (f g) = wh_id g"
  shows "list_ex (\<lambda>g. wh_id g = wh_id h) (update_by wh_id k f hs)"
proof -
  have "wh_id h \<in> set (map wh_id (update_by wh_id k f hs))" using assms by simp
  then show ?thesis by (auto simp: list_ex_iff)
qed

lemma has_row_reserved:
  "h \<in> set hs \<Longrightarrow> list_ex (\<lambda>g. wh_id g = wh_id h) (reserve_slot h hs)"
  unfolding reserve_slot_def by (rule has_row_update) simp_all

text \<open>
  C1: When the commit and the broker work, \<open>dispatch\<close> makes the choice of \<open>select_host\<close> on
  the same inventory, adds one to the container count of that row and to nothing else, and
  sends exactly one task, the serialized bundle, to that host's own queue; when no host
  qualifies it changes nothing and sends nothing.
\<close>

theorem dispatch_refines_select:
  assumes "wf_hosts (hosts (w_db w))" "de_commit_reserve env = None" "\<And>q. de_send env q = None"
  shows "dispatch env (Inr b) w = (case select_host (hosts (w_db w)) (Inr b) of
      Inr (Some r) \<Rightarrow>
        (Inr (Some (rh_host_id r)),
         w\<lparr>w_db := set_hosts (update_by wh_host_id (rh_host_id r)
              (\<lambda>h. h\<lparr>wh_active_containers := wh_active_containers h + 1\<rparr>)) (w_db w),
           w_trace := w_trace w @ [SendTask ''worker.run_test_bundle'' (PDict (to_dict b))
              (queue_of (rh_host_id r))]\<rparr>)
    | _ \<Rightarrow> (Inr None, w))"
  using assms
proof (cases "pick_host b (hosts (w_db w))")
  case None
  with assms show ?thesis by (simp add: dispatch_pick select_host_pick)
next
  case (Some h)
  from pick_host_Some(2) [OF assms(1) Some]
  have "set_hosts (reserve_slot h) (w_db w) = set_hosts (update_by wh_host_id (wh_host_id h)
      (\<lambda>h. h\<lparr>wh_active_containers := wh_active_containers h + 1\<rparr>)) (w_db w)"
    using assms(1) by (simp add: set_hosts_def reserve_slot_incr)
  with Some assms show ?thesis by (simp add: dispatch_pick select_host_pick Let_def)
qed

definition example_db :: db where
  "example_db = \<lparr>users = [], sessions = [], hosts = example_hosts, executions = [], log_lines = [],
     next_id = 100\<rparr>"

definition example_world :: world where
  "example_world = \<lparr>w_db = example_db, w_trace = []\<rparr>"

lemma example_world_wf: "wf_hosts (hosts (w_db example_world))"
  by (simp add: example_world_def example_db_def example_hosts_wf)

lemma example_select: "select_host example_hosts (Inr example_bundle) =
    Inr (Some \<lparr>rh_host_id = ''host2'', rh_score = Fin 50\<rparr>)"
  by code_simp

lemma example_pick: "pick_host example_bundle (hosts (w_db example_world)) = Some (example_host ''host2'' 0 50)"
  by code_simp

theorem dispatch_refines_select_witness:
  "fst (dispatch quiet_env (Inr example_bundle) example_world) = Inr (Some ''host2'') \<and>
   w_trace (snd (dispatch quiet_env (Inr example_bundle) example_world)) =
     [SendTask ''worker.run_test_bundle'' (PDict (to_dict example_bundle)) ''queue_host2'']"
proof -
  have q: "de_commit_reserve quiet_env = None" "\<And>q. de_send quiet_env q = None"
    by (simp_all add: quiet_env_def)
  have h: "hosts (w_db example_world) = example_hosts" "w_trace example_world = []"
    by (simp_all add: example_world_def example_db_def)
  show ?thesis
    using dispatch_refines_select [OF example_world_wf q, of example_bundle]
    by (simp add: h example_select queue_of_def)
qed

text \<open>
  When the broker refuses the task and no other transaction intervenes, \<open>dispatch\<close>
  raises the broker's exception and leaves the database and the trace as they were: the
  reserved slot is given back.
\<close>

theorem dispatch_send_failure_restores:
  assumes "wf_hosts (hosts (w_db w))" "pick_host b (hosts (w_db w)) = Some h"
    and "de_commit_reserve env = None" "de_commit_undo env = None" "de_others env = id"
    and "de_send env (queue_of (wh_host_id h)) = Some e"
  shows "dispatch env (Inr b) w = (Inl e, w)"
proof -
  have h: "h \<in> set (hosts (w_db w))" using pick_host_Some [OF assms(1,2)] by simp
  have "w\<lparr>w_db := set_hosts (undo_slot h (wh_active_containers h + 1) \<circ> id)
      (set_hosts (reserve_slot h) (w_db w))\<rparr> = w"
    using undo_slot_reserve_slot [OF assms(1) h] by (simp add: set_hosts_def)
  with assms host_nonneg [OF assms(1) h] has_row_reserved [OF h] show ?thesis
    by (simp add: dispatch_pick Let_def dispatch_fail_stale del: comp_id)
qed

definition broker_down_env :: dispatch_env where
  "broker_down_env = quiet_env\<lparr>de_send := (\<lambda>_. Some (ServiceError ''broker down''))\<rparr>"

theorem dispatch_send_failure_restores_witness:
  "dispatch broker_down_env (Inr example_bundle) example_world =
     (Inl (ServiceError ''broker down''), example_world)"
  by (rule dispatch_send_failure_restores [OF example_world_wf example_pick])
     (simp_all add: broker_down_env_def quiet_env_def)

text \<open>
  C32: The undo of a refused task does not read the row again: whatever other transactions have
  made of the chosen host's count between the reserving commit and the exception, a slot
  reserved by another dispatch, a heartbeat, a release, it is overwritten with the count this
  dispatch had read at its start.
\<close>

theorem dispatch_undo_loses_update:
  assumes "wf_hosts (hosts (w_db w))" "pick_host b (hosts (w_db w)) = Some h"
    and "de_commit_reserve env = None" "de_commit_undo env = None"
    and "de_others env = update_by wh_id (wh_id h) (\<lambda>g. g\<lparr>wh_active_containers := f (wh_active_containers g)\<rparr>)"
    and "de_send env (queue_of (wh_host_id h)) = Some e"
  shows "dispatch env (Inr b) w = (Inl e, w)"
proof -
  let ?hs = "hosts (w_db w)"
  have h: "h \<in> set ?hs" using pick_host_Some [OF assms(1,2)] by simp
  have others: "de_others env (reserve_slot h ?hs) =
      update_by wh_id (wh_id h) (\<lambda>g. g\<lparr>wh_active_containers := f (wh_active_containers h + 1)\<rparr>) ?hs"
    by (simp add: assms(5) reserve_slot_def update_by_update_by comp_def)
  have "list_ex (\<lambda>g. wh_id g = wh_id h) (de_others env (reserve_slot h ?hs))"
    unfolding others using h by (rule has_row_update) simp
  then have "dispatch env (Inr b) w =
      (Inl e, w\<lparr>w_db := set_hosts (undo_slot h (wh_active_containers h + 1) \<circ> de_others env)
        (set_hosts (reserve_slot h) (w_db w))\<rparr>)"
    using assms(1-4,6) host_nonneg [OF assms(1) h]
    by (simp add: dispatch_pick Let_def dispatch_fail_stale set_hosts_def)
  also have "set_hosts (undo_slot h (wh_active_containers h + 1) \<circ> de_others env)
      (set_hosts (reserve_slot h) (w_db w)) = w_db w"
    using undo_slot_overwrites [OF assms(1) h] by (simp add: set_hosts_def others)
  finally show ?thesis by simp
qed

definition contended_env :: dispatch_env where
  "contended_env = broker_down_env\<lparr>de_others := update_by wh_id 5
     (\<lambda>g. g\<lparr>wh_active_containers := wh_active_containers g + 1\<rparr>)\<rparr>"

theorem dispatch_undo_loses_update_witness:
  "dispatch contended_env (Inr example_bundle) example_world =
     (Inl (ServiceError ''broker down''), example_world) \<and>
   map wh_active_containers (hosts (w_db example_world)) \<noteq>
     map wh_active_containers (de_others contended_env (hosts (w_db example_world)))"
proof
  show "dispatch contended_env (Inr example_bundle) example_world =
     (Inl (ServiceError ''broker down''), example_world)"
    by (rule dispatch_undo_loses_update [OF example_world_wf example_pick, where f = "\<lambda>n. n + 1"])
       (simp_all add: contended_env_def broker_down_env_def quiet_env_def example_host_def new_worker_host_def)
  show "map wh_active_containers (hosts (w_db example_world)) \<noteq>
     map wh_active_containers (de_others contended_env (hosts (w_db example_world)))"
    by code_simp
qed

text \<open>
  When the reserving commit itself fails, nothing was reserved, and yet the exception
  handler takes one off the container count of the chosen host: a host with running
  containers is left with a count one too low.
\<close>

theorem dispatch_commit_failure_undercounts:
  assumes "wf_hosts (hosts (w_db w))" "pick_host b (hosts (w_db w)) = Some h"
    and "de_commit_reserve env = Some e" "de_commit_undo env = None" "de_others env = id"
    and "0 < wh_active_containers h"
  shows "dispatch env (Inr b) w =
    (Inl e, w\<lparr>w_db := set_hosts (update_by wh_host_id (wh_host_id h)
        (\<lambda>h. h\<lparr>wh_active_containers := wh_active_containers h - 1\<rparr>)) (w_db w)\<rparr>)"
proof -
  have h: "h \<in> set (hosts (w_db w))" using pick_host_Some [OF assms(1,2)] by simp
  have "set_hosts (undo_slot h (wh_active_containers h)) (w_db w) =
      set_hosts (update_by wh_host_id (wh_host_id h)
        (\<lambda>h. h\<lparr>wh_active_containers := wh_active_containers h - 1\<rparr>)) (w_db w)"
    using undo_slot_update [OF assms(1) h] by (simp add: set_hosts_def)
  with assms h show ?thesis by (simp add: dispatch_pick dispatch_fail_reread)
qed

definition busy_world :: world where
  "busy_world = \<lparr>w_db = example_db\<lparr>hosts := [example_host ''h1'' 3 10]\<rparr>, w_trace = []\<rparr>"

definition commit_fails_env :: dispatch_env where
  "commit_fails_env = quiet_env\<lparr>de_commit_reserve := Some (ServiceError ''connection lost'')\<rparr>"

theorem dispatch_commit_failure_undercounts_witness:
  "map wh_active_containers (hosts (w_db busy_world)) = [3] \<and>
   map wh_active_containers
     (hosts (w_db (snd (dispatch commit_fails_env (Inr example_bundle) busy_world)))) = [2]"
proof -
  have wf: "wf_hosts (hosts (w_db busy_world))" by code_simp
  have p: "pick_host example_bundle (hosts (w_db busy_world)) = Some (example_host ''h1'' 3 10)"
    by code_simp
  have e: "de_commit_reserve commit_fails_env = Some (ServiceError ''connection lost'')"
    "de_commit_undo commit_fails_env = None" "de_others commit_fails_env = id"
    by (simp_all add: commit_fails_env_def quiet_env_def)
  have pos: "0 < wh_active_containers (example_host ''h1'' 3 10)"
    by (simp add: example_host_def new_worker_host_def)
  show ?thesis
    using dispatch_commit_failure_undercounts [OF wf p e pos]
    by (simp add: busy_world_def update_by_def example_host_def new_worker_host_def)
qed

section \<open>What every dispatch keeps\<close>

definition within_capacity :: "worker_host list \<Rightarrow> bool" where
  "within_capacity hs \<longleftrightarrow> list_all (\<lambda>h. wh_active_containers h \<le> wh_max_containers h) hs"

definition sound_inventory :: "worker_host list \<Rightarrow> bool" where
  "sound_inventory hs \<longleftrightarrow> wf_hosts hs \<and> within_capacity hs"

lemma wf_host_active [simp]:
  "wf_host h \<Longrightarrow> 0 \<le> n \<Longrightarrow> wf_host (h\<lparr>wh_active_containers := n\<rparr>)"
  by (simp add: wf_host_def)

lemma reserve_slot_sound:
  assumes "sound_inventory hs" "h \<in> set hs" "passes_filter h b"
  shows "sound_inventory (reserve_slot h hs)"
proof -
  have wf: "wf_hosts hs" using assms(1) by (simp add: sound_inventory_def)
  have room: "wh_active_containers h < wh_max_containers h" "0 \<le> wh_active_containers h"
    using assms wf by (auto simp: passes_filter_def wf_host_def dest: wf_hosts_in split: if_splits)
  have "wf_hosts (reserve_slot h hs)"
    unfolding reserve_slot_def using wf room
    by (intro wf_hosts_update) (simp_all add: wf_hosts_in)
  moreover have "within_capacity (reserve_slot h hs)"
    using assms(1) room wf_hosts_same_id [OF wf _ assms(2)]
    by (force simp: sound_inventory_def within_capacity_def list_all_iff reserve_slot_def
        dest!: in_set_update_by)
  ultimately show ?thesis by (simp add: sound_inventory_def)
qed

lemma undo_slot_sound:
  assumes "sound_inventory hs" "0 < n" "\<And>g. g \<in> set hs \<Longrightarrow> wh_id g = wh_id h \<Longrightarrow> n - 1 \<le> wh_max_containers g"
  shows "sound_inventory (undo_slot h n hs)"
proof -
  have wf: "wf_hosts hs" using assms(1) by (simp add: sound_inventory_def)
  have "wf_hosts (undo_slot h n hs)"
    unfolding undo_slot_def using wf assms(2) by (intro wf_hosts_update) (simp_all add: wf_hosts_in)
  moreover have "within_capacity (undo_slot h n hs)"
    using assms(1,3)
    by (force simp: sound_inventory_def within_capacity_def list_all_iff undo_slot_def dest!: in_set_update_by)
  ultimately show ?thesis by (simp add: sound_inventory_def)
qed

text \<open>The capacity of a row is not lowered below what it was.\<close>

definition keeps_capacity :: "worker_host list \<Rightarrow> worker_host list \<Rightarrow> bool" where
  "keeps_capacity hs hs' \<longleftrightarrow> list_all (\<lambda>g. list_all (\<lambda>g'. wh_id g' = wh_id g \<longrightarrow>
     wh_max_containers g \<le> wh_max_containers g') hs') hs"

lemma sound_row_capacity:
  "sound_inventory hs \<Longrightarrow> g \<in> set hs \<Longrightarrow> wh_active_containers g \<le> wh_max_containers g"
  by (simp add: sound_inventory_def within_capacity_def list_all_iff)

text \<open>The count the undo writes leaves room for one more on whatever row it is written to.\<close>

lemma fresh_count_room:
  assumes "sound_inventory hs'" "de_commit_reserve env = None \<Longrightarrow> passes_filter h b \<and> h \<in> set hs \<and>
      keeps_capacity (reserve_slot h hs) hs'"
    and "fresh_count env h hs' = Some n" "g \<in> set hs'" "wh_id g = wh_id h"
  shows "n - 1 \<le> wh_max_containers g"
proof (cases "de_commit_reserve env")
  case None
  let ?r = "h\<lparr>wh_active_containers := wh_active_containers h + 1\<rparr>"
  have p: "passes_filter h b" "h \<in> set hs" "keeps_capacity (reserve_slot h hs) hs'" using assms(2) None by auto
  have "?r \<in> set (reserve_slot h hs)" using p(2) by (force simp: reserve_slot_def update_by_def)
  then have "wh_max_containers ?r \<le> wh_max_containers g"
    using p(3) assms(4,5) by (fastforce simp: keeps_capacity_def list_all_iff)
  moreover have "wh_active_containers h < wh_max_containers h"
    using p(1) by (simp add: passes_filter_def split: if_splits)
  ultimately show ?thesis using assms(3) None by (simp add: fresh_count_def)
next
  case (Some e)
  have wf: "wf_hosts hs'" using assms(1) by (simp add: sound_inventory_def)
  from Some assms(3,5) find_host_id [OF wf assms(4)] have "n = wh_active_containers g"
    by (simp add: fresh_count_def)
  with sound_row_capacity [OF assms(1,4)] show ?thesis by simp
qed

lemma dispatch_fail_keeps:
  assumes "sound_inventory (de_others env (hosts (w_db w)))"
    and "de_commit_reserve env = None \<Longrightarrow> passes_filter h b \<and> h \<in> set hs \<and>
      keeps_capacity (reserve_slot h hs) (de_others env (hosts (w_db w)))"
  shows "sound_inventory (hosts (w_db (snd (dispatch_fail env h e w))))"
proof (cases "fresh_count env h (de_others env (hosts (w_db w)))")
  case (Some n)
  have "sound_inventory (undo_slot h n (de_others env (hosts (w_db w))))" if "0 < n"
    using fresh_count_room [OF assms Some] by (intro undo_slot_sound [OF assms(1) that])
  with Some assms(1) show ?thesis
    by (cases "de_commit_undo env") (auto simp: dispatch_fail_def undo_reservation_def act_defs set_hosts_def)
qed (use assms(1) in \<open>simp add: dispatch_fail_def undo_reservation_def act_defs set_hosts_def\<close>)

text \<open>
  C2: Whatever the database and the broker do, and whatever sound changes other transactions
  make meanwhile, as long as none of them lowers the capacity of a host, \<open>dispatch\<close> leaves an
  inventory in which host names and ids are unique, container counts are not negative, and no
  host counts more containers than its capacity.
\<close>

theorem dispatch_keeps_inventory:
  assumes "sound_inventory (hosts (w_db w))"
    and "\<And>hs. sound_inventory hs \<Longrightarrow> sound_inventory (de_others env hs) \<and> keeps_capacity hs (de_others env hs)"
  shows "sound_inventory (hosts (w_db (snd (dispatch env bundle w))))"
proof (cases "bundle")
  case (Inl v)
  with assms show ?thesis by (simp add: dispatch_def act_defs)
next
  case (Inr b)
  have wf: "wf_hosts (hosts (w_db w))" using assms(1) by (simp add: sound_inventory_def)
  show ?thesis
  proof (cases "pick_host b (hosts (w_db w))")
    case None
    with Inr wf assms(1) show ?thesis by (simp add: dispatch_pick)
  next
    case (Some h)
    note p = pick_host_Some [OF wf Some]
    have r: "sound_inventory (reserve_slot h (hosts (w_db w)))"
      using p by (intro reserve_slot_sound [OF assms(1)]) auto
    have f: "sound_inventory (hosts (w_db (snd (dispatch_fail env h e v))))"
      if "hosts (w_db v) = (if de_commit_reserve env = None then reserve_slot h (hosts (w_db w)) else hosts (w_db w))"
      for e v
      using that p r assms by (intro dispatch_fail_keeps [where b = b and hs = "hosts (w_db w)"]) auto
    from Some Inr wf r show ?thesis
      by (auto simp: dispatch_pick Let_def f split: option.splits)
  qed
qed

theorem dispatch_keeps_inventory_witness:
  "sound_inventory (hosts (w_db (snd (dispatch broker_down_env (Inr example_bundle) example_world))))"
proof (rule dispatch_keeps_inventory)
  show "sound_inventory (hosts (w_db example_world))" by code_simp
  have "keeps_capacity hs hs" if "sound_inventory hs" for hs
    using that wf_hosts_same_id [of hs]
    by (fastforce simp: keeps_capacity_def sound_inventory_def list_all_iff)
  then show "sound_inventory (de_others broker_down_env hs) \<and> keeps_capacity hs (de_others broker_down_env hs)"
    if "sound_inventory hs" for hs
    using that by (simp add: broker_down_env_def quiet_env_def)
qed

end
