(* ===== verification/Auth.thy ===== *)
theory Auth
  imports Config
begin

text \<open>
  \<open>backend/auth/ldap_auth.py\<close>: login by an LDAP bind, the persisted identity and session,
  and the resolution of a session cookie. The directory is a parameter: it refuses the bind,
  or accepts it and then answers a search, given by its base and its filter, with entries or an
  exception. The values of an attribute are already rendered by \<open>str\<close>.
\<close>

section \<open>The bind\<close>

record ldap_entry =
  le_cn :: "string option"
  le_mail :: "string option"

datatype ldap_outcome = BindFails string | Bound "string \<Rightarrow> string \<Rightarrow> ldap_entry list result"

record ldap_attrs =
  la_display_name :: string
  la_email :: "string option"

text \<open>
  \<open>template.format(username=username)\<close>: doubled braces are literal, the one known field is
  replaced, and a field the call does not supply or a lone brace raises. The parser carries the
  characters of the field it is inside of.
\<close>

fun format_username :: "string option \<Rightarrow> string \<Rightarrow> string \<Rightarrow> string result" where
  "format_username None [] u = Inr []"
| "format_username (Some f) [] u = Inl (ValueError ''expected '}' before end of string'')"
| "format_username None (c # cs) u =
     (if c = CHR ''{'' then
        (case cs of
           [] \<Rightarrow> Inl (ValueError ''Single '{' encountered in format string'')
         | d # ds \<Rightarrow> if d = CHR ''{'' then ebind (format_username None ds u) (\<lambda>r. Inr (CHR ''{'' # r))
                    else format_username (Some []) cs u)
      else if c = CHR ''}'' then
        (case cs of
           [] \<Rightarrow> Inl (ValueError ''Single '}' encountered in format string'')
         | d # ds \<Rightarrow> if d = CHR ''}'' then ebind (format_username None ds u) (\<lambda>r. Inr (CHR ''}'' # r))
                    else Inl (ValueError ''Single '}' encountered in format string''))
      else ebind (format_username None cs u) (\<lambda>r. Inr (c # r)))"
| "format_username (Some f) (c # cs) u =
     (if c = CHR ''}'' then
        (if f = ''username'' then ebind (format_username None cs u) (\<lambda>r. Inr (u @ r))
         else Inl (KeyError f))
      else format_username (Some (f @ [c])) cs u)"

text \<open>The filter of the attribute search holds the user name as it was typed.\<close>

definition uid_filter :: "string \<Rightarrow> string" where
  "uid_filter username = ''(uid='' @ username @ '')''"

definition ldap_profile :: "string \<Rightarrow> ldap_entry list \<Rightarrow> ldap_attrs" where
  "ldap_profile username entries = (case entries of
     [] \<Rightarrow> \<lparr>la_display_name = username, la_email = None\<rparr>
   | entry # _ \<Rightarrow>
       \<lparr>la_display_name = (case le_cn entry of None \<Rightarrow> username | Some n \<Rightarrow> n),
        la_email = (case le_mail entry of None \<Rightarrow> None | Some m \<Rightarrow> if m = [] then None else Some m)\<rparr>)"

definition ldap_bind ::
    "settings \<Rightarrow> (string \<Rightarrow> string \<Rightarrow> ldap_outcome) \<Rightarrow> string \<Rightarrow> string \<Rightarrow> ldap_attrs act" where
  "ldap_bind s ldap username password =
     act_bind (act_lift (format_username None (ldap_user_dn_template s) username)) (\<lambda>user_dn.
     (case ldap user_dn password of
        BindFails m \<Rightarrow> act_raise (LDAPAuthError (''LDAP bind failed for '' @ username @ '': '' @ m))
      | Bound search \<Rightarrow>
          act_bind (emit (LdapBind user_dn)) (\<lambda>_.
          act_finally
            (act_bind (act_lift (search (ldap_base_dn s) (uid_filter username))) (\<lambda>entries.
             act_bind (emit (LdapSearch (ldap_base_dn s) (uid_filter username))) (\<lambda>_.
             act_return (ldap_profile username entries))))
            (emit LdapUnbind))))"

section \<open>Login\<close>

text \<open>
  One login attempt: the directory, the fresh token, the clock, what other transactions commit
  between the lookup of the user and the writes, and whether the final commit fails.
\<close>

record login_env =
  lg_ldap :: "string \<Rightarrow> string \<Rightarrow> ldap_outcome"
  lg_token :: string
  lg_now :: int
  lg_others :: "db \<Rightarrow> db"
  lg_commit :: "pyerr option"

definition session_ttl :: int where
  "session_ttl = seconds (12 * 3600)"

text \<open>The user row: the one found, or a new one that must not collide when it is flushed.\<close>

definition login_user ::
    "int \<Rightarrow> string \<Rightarrow> ldap_attrs \<Rightarrow> user option \<Rightarrow> db \<Rightarrow> (user \<times> db) result" where
  "login_user now username attrs found d = (case found of
     Some u \<Rightarrow> Inr (u, d)
   | None \<Rightarrow>
       (let u = \<lparr>u_id = next_id d, u_username = username, u_display_name = Some (la_display_name attrs),
                 u_email = la_email attrs, u_created_at = Aware now\<rparr>
        in ebind (insert_by u_username u (users d)) (\<lambda>us.
           Inr (u, d\<lparr>users := us, next_id := next_id d + 1\<rparr>))))"

definition login_session :: "string \<Rightarrow> int \<Rightarrow> user \<Rightarrow> db \<Rightarrow> (user_session \<times> db) result" where
  "login_session token now u d =
     (let sess = \<lparr>us_id = next_id d, us_token = token, us_user_id = u_id u,
                  us_created_at = Aware now, us_expires_at = Aware (now + session_ttl)\<rparr>
      in ebind (insert_by us_token sess (sessions d)) (\<lambda>ss.
         Inr (sess, d\<lparr>sessions := ss, next_id := next_id d + 1\<rparr>)))"

definition authenticate_ldap ::
    "settings \<Rightarrow> login_env \<Rightarrow> pyval \<Rightarrow> pyval \<Rightarrow> (user \<times> user_session) act" where
  "authenticate_ldap s env username password =
     act_bind (act_lift (require_non_empty_str username ''username'')) (\<lambda>name.
     act_bind (act_lift (require_non_empty_str password ''password'')) (\<lambda>pw.
     act_bind (ldap_bind s (lg_ldap env) name pw) (\<lambda>attrs.
     act_bind get_db (\<lambda>d0.
     act_bind (act_lift (find_by u_username name (users d0))) (\<lambda>found.
     act_bind (put_db (lg_others env)) (\<lambda>_.
     act_bind get_db (\<lambda>d.
     act_bind (act_lift (login_user (lg_now env) name attrs found d)) (\<lambda>(u, d1).
     act_bind (act_lift (login_session (lg_token env) (lg_now env) u d1)) (\<lambda>(sess, d2).
     act_bind (commit (lg_commit env) (\<lambda>_. d2)) (\<lambda>_. act_return (u, sess)))))))))))"

section \<open>Session resolution\<close>

text \<open>\<open>sess.user\<close>: the row the foreign key points to.\<close>

definition session_user :: "db \<Rightarrow> user_session \<Rightarrow> user option" where
  "session_user d sess = List.find (\<lambda>u. u_id u = us_user_id sess) (users d)"

definition resolve_session :: "db \<Rightarrow> int \<Rightarrow> string option \<Rightarrow> user option result" where
  "resolve_session d now token = (case token of
     None \<Rightarrow> Inr None
   | Some t \<Rightarrow>
       if t = [] then Inr None
       else ebind (find_by us_token t (sessions d)) (\<lambda>found. case found of
         None \<Rightarrow> Inr None
       | Some sess \<Rightarrow>
           ebind (dt_lt (assume_utc (us_expires_at sess)) (Aware now)) (\<lambda>expired.
           if expired then Inr None else Inr (session_user d sess))))"


section \<open>Sessions and users stay consistent\<close>

definition wf_auth :: "db \<Rightarrow> bool" where
  "wf_auth d \<longleftrightarrow> unique_by u_username (users d) \<and> unique_by u_id (users d) \<and>
     unique_by us_token (sessions d) \<and> (\<forall>u \<in> set (users d). u_id u < next_id d) \<and>
     (\<forall>s \<in> set (sessions d). us_user_id s \<in> u_id ` set (users d))"

lemma wf_auth_find_user: "wf_auth d \<Longrightarrow> u \<in> set (users d) \<Longrightarrow> List.find (\<lambda>x. u_id x = u_id u) (users d) = Some u"
  by (metis find_by_Some find_by_unique sum.inject(2) wf_auth_def)

lemma login_user_wf:
  assumes "login_user now name attrs found d = Inr (u, d1)" "wf_auth d"
    and "\<And>x. found = Some x \<Longrightarrow> x \<in> set (users d) \<and> u_username x = name"
  shows "wf_auth d1 \<and> u \<in> set (users d1) \<and> u_username u = name \<and> sessions d1 = sessions d"
proof (cases found)
  case None
  with assms(1) obtain us where us: "insert_by u_username u (users d) = Inr us"
    and d1: "d1 = d\<lparr>users := us, next_id := next_id d + 1\<rparr>" "u_id u = next_id d" "u_username u = name"
    by (auto simp: login_user_def Let_def result_simps)
  from us have "us = users d @ [u]" by (auto simp: insert_by_def split: if_splits)
  with us d1 assms(2) show ?thesis
    using unique_insert_by [OF _ us] by (auto simp: wf_auth_def unique_by_def)
next
  case (Some x)
  with assms show ?thesis by (auto simp: login_user_def)
qed

lemma login_session_wf:
  assumes "login_session token now u d = Inr (sess, d2)" "wf_auth d" "u \<in> set (users d)"
  shows "wf_auth d2 \<and> users d2 = users d \<and> sessions d2 = sessions d @ [sess] \<and>
    us_token sess = token \<and> us_user_id sess = u_id u \<and> us_expires_at sess = Aware (now + session_ttl)"
proof -
  from assms(1) obtain ss where ss: "insert_by us_token sess (sessions d) = Inr ss"
    and d2: "d2 = d\<lparr>sessions := ss, next_id := next_id d + 1\<rparr>"
    and sess: "us_token sess = token" "us_user_id sess = u_id u" "us_expires_at sess = Aware (now + session_ttl)"
    by (auto simp: login_session_def Let_def result_simps)
  from ss have "ss = sessions d @ [sess]" by (auto simp: insert_by_def split: if_splits)
  with ss d2 sess assms show ?thesis
    using unique_insert_by [OF _ ss] by (force simp: wf_auth_def)
qed

lemma session_table_append:
  assumes "unique_by us_token (ss @ [sess])"
  shows "find_by us_token t (ss @ [sess]) =
    (if t = us_token sess then Inr (Some sess) else find_by us_token t ss)"
proof -
  have "insert_by us_token sess ss = Inr (ss @ [sess])" "unique_by us_token ss"
    using assms by (auto simp: insert_by_def unique_by_def)
  then show ?thesis by (rule find_insert_by [rotated])
qed

lemma ldap_bind_db: "w_db (snd (ldap_bind s ldap name pw w)) = w_db w"
  by (auto simp: ldap_bind_def act_defs split: sum.splits ldap_outcome.splits list.splits)

lemma authenticate_success:
  assumes "authenticate_ldap s env username password w = (Inr (u, sess), w')"
  obtains name pw attrs found d1 where
    "username = PStr name" "\<not> blank name" "password = PStr pw" "\<not> blank pw"
    "fst (ldap_bind s (lg_ldap env) name pw w) = Inr attrs"
    "find_by u_username name (users (w_db w)) = Inr found"
    "login_user (lg_now env) name attrs found (lg_others env (w_db w)) = Inr (u, d1)"
    "login_session (lg_token env) (lg_now env) u d1 = Inr (sess, w_db w')"
proof -
  from assms obtain name pw attrs found d1 w1 d2 where
    "require_non_empty_str username ''username'' = Inr name"
    "require_non_empty_str password ''password'' = Inr pw"
    and b: "ldap_bind s (lg_ldap env) name pw w = (Inr attrs, w1)"
    and "find_by u_username name (users (w_db w1)) = Inr found"
    "login_user (lg_now env) name attrs found (lg_others env (w_db w1)) = Inr (u, d1)"
    "login_session (lg_token env) (lg_now env) u d1 = Inr (sess, d2)"
    "w_db w' = d2"
    unfolding authenticate_ldap_def
    by (auto simp: act_elims split: option.splits)
  moreover have "w_db w1 = w_db w" using ldap_bind_db [of s "lg_ldap env" name pw w] b by simp
  ultimately show thesis using that b by (auto simp: guard_simps)
qed

text \<open>
  C19: A login that returns has stored exactly one new session: its token resolves to the user
  of the submitted name for twelve hours and to nobody afterwards, every other token resolves
  as before, and the user and session tables stay consistent. It holds with any consistent
  change other transactions make during the bind that keeps the existing users.
\<close>

theorem login_then_resolve:
  assumes "authenticate_ldap s env username password w = (Inr (u, sess), w')"
    and "wf_auth (lg_others env (w_db w))" "set (users (w_db w)) \<subseteq> set (users (lg_others env (w_db w)))"
    and "unique_by u_username (users (w_db w))" "lg_token env \<noteq> []"
  shows "username = PStr (u_username u) \<and> us_token sess = lg_token env \<and> wf_auth (w_db w') \<and>
    (\<forall>now. resolve_session (w_db w') now (Some (lg_token env)) =
       Inr (if now \<le> lg_now env + session_ttl then Some u else None)) \<and>
    sessions (w_db w') = sessions (lg_others env (w_db w)) @ [sess]"
proof -
  from assms(1) obtain name pw attrs found d1 where a: "username = PStr name"
    "find_by u_username name (users (w_db w)) = Inr found"
    "login_user (lg_now env) name attrs found (lg_others env (w_db w)) = Inr (u, d1)"
    "login_session (lg_token env) (lg_now env) u d1 = Inr (sess, w_db w')"
    by (rule authenticate_success)
  have "x \<in> set (users (lg_others env (w_db w))) \<and> u_username x = name" if "found = Some x" for x
    using that a(2) assms(3,4) by (auto simp: find_by_Some)
  note l = login_user_wf [OF a(3) assms(2) this]
  then have r: "wf_auth d1" "u \<in> set (users d1)" by simp_all
  note m = login_session_wf [OF a(4) r]
  then have uq: "unique_by us_token (sessions d1 @ [sess])" by (auto simp: wf_auth_def)
  have "session_user (w_db w') sess = Some u"
    using m r wf_auth_find_user [of "w_db w'" u] by (simp add: session_user_def)
  then have "resolve_session (w_db w') now (Some (lg_token env)) =
       Inr (if now \<le> lg_now env + session_ttl then Some u else None)" for now
    using m session_table_append [OF uq, of "lg_token env"] assms(5)
    by (auto simp: resolve_session_def)
  with l m a(1) show ?thesis by simp
qed

definition alice_env :: login_env where
  "alice_env = \<lparr>lg_ldap = (\<lambda>dn pw. if pw = ''pw'' then Bound (\<lambda>base flt. Inr
       (if flt = ''(uid=alice)'' then [\<lparr>le_cn = Some ''Alice'', le_mail = Some []\<rparr>] else []))
       else BindFails ''invalidCredentials''),
     lg_token = ''tok'', lg_now = 0, lg_others = id, lg_commit = None\<rparr>"

lemma alice_logs_in:
  "\<exists>u sess w'. authenticate_ldap default_settings alice_env (PStr ''alice'') (PStr ''pw'') empty_world =
     (Inr (u, sess), w')"
proof -
  have "fst (authenticate_ldap default_settings alice_env (PStr ''alice'') (PStr ''pw'') empty_world) =
      Inr (\<lparr>u_id = 1, u_username = ''alice'', u_display_name = Some ''Alice'', u_email = None, u_created_at = Aware 0\<rparr>,
        \<lparr>us_id = 2, us_token = ''tok'', us_user_id = 1, us_created_at = Aware 0,
          us_expires_at = Aware (seconds (12 * 3600))\<rparr>)"
    by code_simp
  then show ?thesis by (metis prod.collapse)
qed

theorem login_then_resolve_witness:
  "\<exists>u sess w'. authenticate_ldap default_settings alice_env (PStr ''alice'') (PStr ''pw'') empty_world =
     (Inr (u, sess), w') \<and> u_username u = ''alice'' \<and>
     resolve_session (w_db w') 0 (Some ''tok'') = Inr (Some u) \<and>
     resolve_session (w_db w') (seconds 43201) (Some ''tok'') = Inr None"
proof -
  obtain u sess w' where a: "authenticate_ldap default_settings alice_env (PStr ''alice'') (PStr ''pw'') empty_world =
     (Inr (u, sess), w')" using alice_logs_in by blast
  have e: "wf_auth (lg_others alice_env (w_db empty_world))"
    "set (users (w_db empty_world)) \<subseteq> set (users (lg_others alice_env (w_db empty_world)))"
    "unique_by u_username (users (w_db empty_world))" "lg_token alice_env \<noteq> []"
    by code_simp+
  have f: "lg_token alice_env = ''tok''" "lg_now alice_env = 0" by (simp_all add: alice_env_def)
  from login_then_resolve [OF a e] a show ?thesis
    by (intro exI conjI) (auto simp: f session_ttl_def seconds_def)
qed

section \<open>Logins that fail\<close>

lemma ldap_bind_result:
  assumes "ldap_bind s ldap name pw w = (r, w1)"
  shows "w1 = w \<or> (\<exists>dn ss. format_username None (ldap_user_dn_template s) name = Inr dn \<and>
    (\<forall>m. ldap dn pw \<noteq> BindFails m) \<and> ss \<in> {[], [LdapSearch (ldap_base_dn s) (uid_filter name)]} \<and>
    w1 = w\<lparr>w_trace := w_trace w @ LdapBind dn # ss @ [LdapUnbind]\<rparr>)"
proof (cases "format_username None (ldap_user_dn_template s) name")
  case (Inl e)
  with assms show ?thesis by (simp add: ldap_bind_def)
next
  case (Inr dn)
  with assms show ?thesis
    by (cases "ldap dn pw")
       (auto simp: ldap_bind_def act_defs split: sum.splits)
qed

lemma ldap_bind_refused:
  assumes "format_username None (ldap_user_dn_template s) name = Inr dn" "ldap dn pw = BindFails m"
  shows "ldap_bind s ldap name pw w = (Inl (LDAPAuthError (''LDAP bind failed for '' @ name @ '': '' @ m)), w)"
  using assms by (simp add: ldap_bind_def act_raise_def)

text \<open>
  A login that raises has stored neither a user nor a session: the database is as it was,
  up to what other transactions did. A blank name or password (with which many directories
  accept a bind without checking anything) is refused with an input error before the directory
  is contacted, and a refused bind raises \<open>LDAPAuthError\<close> and leaves no trace at all.
\<close>

theorem failed_login_stores_nothing:
  assumes "authenticate_ldap s env username password w = (Inl e, w')"
  shows "w_db w' \<in> {w_db w, lg_others env (w_db w)} \<and>
    (\<not> (\<exists>n p. username = PStr n \<and> \<not> blank n \<and> password = PStr p \<and> \<not> blank p) \<longrightarrow>
       is_input_error e \<and> w' = w) \<and>
    (\<forall>n p dn m. username = PStr n \<and> \<not> blank n \<and> password = PStr p \<and> \<not> blank p \<and>
       format_username None (ldap_user_dn_template s) n = Inr dn \<and> lg_ldap env dn p = BindFails m \<longrightarrow>
       w' = w \<and> (\<exists>t. e = LDAPAuthError t))"
proof (intro conjI)
  show "w_db w' \<in> {w_db w, lg_others env (w_db w)}"
  proof (cases "\<exists>n p. require_non_empty_str username ''username'' = Inr n \<and>
      require_non_empty_str password ''password'' = Inr p")
    case False
    with assms show ?thesis by (auto simp: authenticate_ldap_def act_elims)
  next
    case True
    then obtain n p where "require_non_empty_str username ''username'' = Inr n"
      "require_non_empty_str password ''password'' = Inr p" by blast
    with assms show ?thesis
      using ldap_bind_db [of s "lg_ldap env" n p w]
      by (auto simp: authenticate_ldap_def act_elims split: option.splits)
  qed
  show "\<not> (\<exists>n p. username = PStr n \<and> \<not> blank n \<and> password = PStr p \<and> \<not> blank p) \<longrightarrow>
       is_input_error e \<and> w' = w"
    using assms require_non_empty_str_input [of username "''username''"]
      require_non_empty_str_input [of password "''password''"]
    by (auto simp: authenticate_ldap_def act_elims guard_simps raises_only_input_def)
  show "\<forall>n p dn m. username = PStr n \<and> \<not> blank n \<and> password = PStr p \<and> \<not> blank p \<and>
       format_username None (ldap_user_dn_template s) n = Inr dn \<and> lg_ldap env dn p = BindFails m \<longrightarrow>
       w' = w \<and> (\<exists>t. e = LDAPAuthError t)"
    using assms
    by (auto simp: authenticate_ldap_def act_elims ldap_bind_refused simp del: act_bind_simps)
qed

theorem failed_login_stores_nothing_witness:
  "authenticate_ldap default_settings alice_env (PStr ''alice'') (PStr '' '') empty_world =
     (Inl (ValueError ''password must not be empty''), empty_world) \<and>
   w_db empty_world \<in> {w_db empty_world, lg_others alice_env (w_db empty_world)}"
proof -
  have a: "authenticate_ldap default_settings alice_env (PStr ''alice'') (PStr '' '') empty_world =
     (Inl (ValueError ''password must not be empty''), empty_world)"
    by code_simp
  from failed_login_stores_nothing [OF a] a show ?thesis by blast
qed

text \<open>
  The documented exceptions are not the only ones: when the directory accepts the bind and
  its search fails, the raw exception of the search leaves \<open>authenticate_ldap\<close>, after the
  connection has been unbound, so a correct password still ends in an unhandled error.
\<close>

theorem ldap_search_failure_escapes:
  assumes "\<not> blank n" "\<not> blank p" "format_username None (ldap_user_dn_template s) n = Inr dn"
    and "lg_ldap env dn p = Bound search"
    and "search (ldap_base_dn s) (uid_filter n) = Inl e"
  shows "authenticate_ldap s env (PStr n) (PStr p) w =
    (Inl e, w\<lparr>w_trace := w_trace w @ [LdapBind dn, LdapUnbind]\<rparr>)"
  using assms
  by (simp add: authenticate_ldap_def ldap_bind_def act_bind_def act_lift_def act_finally_def emit_def)

definition strict_directory :: "string \<Rightarrow> string \<Rightarrow> ldap_outcome" where
  "strict_directory dn pw = Bound (\<lambda>base flt.
     if count_list flt CHR ''('' = 1 then Inr [] else Inl (ServiceError ''invalid filter''))"

theorem ldap_search_failure_escapes_witness:
  "fst (authenticate_ldap default_settings (alice_env\<lparr>lg_ldap := strict_directory\<rparr>)
     (PStr ''(a'') (PStr ''pw'') empty_world) = Inl (ServiceError ''invalid filter'')"
proof -
  let ?env = "alice_env\<lparr>lg_ldap := strict_directory\<rparr>"
  have b: "\<not> blank ''(a''" "\<not> blank ''pw''" by code_simp+
  obtain dn where dn: "format_username None (ldap_user_dn_template default_settings) ''(a'' = Inr dn"
    by (simp add: default_settings_def)
  have l: "lg_ldap ?env dn ''pw'' = Bound (\<lambda>base flt.
     if count_list flt CHR ''('' = 1 then Inr [] else Inl (ServiceError ''invalid filter''))"
    by (simp add: strict_directory_def)
  show ?thesis
    using ldap_search_failure_escapes [OF b dn l, of "ServiceError ''invalid filter''" empty_world]
    by (simp add: uid_filter_def)
qed

text \<open>
  Two first logins of the same user race: when another one has stored the user between
  this one's lookup and its flush, the flush violates the unique column and the login ends in
  the database's error, not in a session.
\<close>

theorem first_login_race:
  assumes "\<not> blank n" "\<not> blank p" "ldap_bind s (lg_ldap env) n p w = (Inr attrs, w1)"
    and "find_by u_username n (users (w_db w)) = Inr None"
    and "n \<in> u_username ` set (users (lg_others env (w_db w)))"
  shows "\<exists>m. authenticate_ldap s env (PStr n) (PStr p) w =
    (Inl (IntegrityError m), w1\<lparr>w_db := lg_others env (w_db w)\<rparr>)"
proof -
  have "w_db w1 = w_db w" using ldap_bind_db [of s "lg_ldap env" n p w] assms(3) by simp
  with assms show ?thesis
    by (simp add: authenticate_ldap_def act_bind_step [where m = "ldap_bind s (lg_ldap env) n p", OF assms(3)]
        login_user_def insert_by_def Let_def)
qed

definition other_alice :: "db \<Rightarrow> db" where
  "other_alice d = d\<lparr>users := users d @ [\<lparr>u_id = next_id d, u_username = ''alice'', u_display_name = None,
     u_email = None, u_created_at = Aware 0\<rparr>], next_id := next_id d + 1\<rparr>"

theorem first_login_race_witness:
  "\<exists>m. fst (authenticate_ldap default_settings (alice_env\<lparr>lg_others := other_alice\<rparr>)
     (PStr ''alice'') (PStr ''pw'') empty_world) = Inl (IntegrityError m)"
proof -
  let ?env = "alice_env\<lparr>lg_others := other_alice\<rparr>"
  have b: "\<not> blank ''alice''" "\<not> blank ''pw''" by code_simp+
  have "fst (ldap_bind default_settings (lg_ldap ?env) ''alice'' ''pw'' empty_world) =
      Inr \<lparr>la_display_name = ''Alice'', la_email = None\<rparr>" by code_simp
  then obtain w1 where w1: "ldap_bind default_settings (lg_ldap ?env) ''alice'' ''pw'' empty_world =
      (Inr \<lparr>la_display_name = ''Alice'', la_email = None\<rparr>, w1)" by (metis prod.collapse)
  have n: "find_by u_username ''alice'' (users (w_db empty_world)) = Inr None" by code_simp
  have o: "''alice'' \<in> u_username ` set (users (lg_others ?env (w_db empty_world)))"
    by (simp add: other_alice_def)
  from first_login_race [OF b w1 n o] show ?thesis by auto
qed

end
