(* ===== verification/QualiClient.thy ===== *)
theory QualiClient
  imports Config
begin

text \<open>
  \<open>backend/services/quali_client.py\<close>: ending a Quali reservation over HTTP. The service's
  answer is a parameter: no response at all, or a status code.
\<close>

datatype http_outcome = NoResponse string | Status int

text \<open>\<open>Response.raise_for_status\<close> of requests: an error for 4xx and 5xx.\<close>

definition raise_for_status :: "int \<Rightarrow> unit result" where
  "raise_for_status s = (if 400 \<le> s \<and> s < 600 then Inl (HTTPError s) else Inr ())"

definition quali_base :: "settings \<Rightarrow> string" where
  "quali_base s = rstrip_by (\<lambda>c. c = CHR ''/'') (quali_api_url s)"

definition release_url :: "settings \<Rightarrow> string \<Rightarrow> string" where
  "release_url s rid = quali_base s @ ''/reservations/'' @ rid @ ''/end''"

definition release_reservation ::
    "settings \<Rightarrow> (string \<Rightarrow> http_outcome) \<Rightarrow> pyval \<Rightarrow> bool act" where
  "release_reservation s http reservation_id =
     act_bind (act_lift (require_non_empty_str reservation_id ''reservation_id'')) (\<lambda>rid.
     let url = release_url s rid
     in (case http url of
          NoResponse m \<Rightarrow> act_raise (ServiceError m)
        | Status code \<Rightarrow>
            act_bind (emit (HttpPost url)) (\<lambda>_.
            act_bind (act_lift (raise_for_status code)) (\<lambda>_. act_return True))))"

text \<open>
  The callers' \<open>try: QualiClient().release_reservation(rid) except Exception: log\<close>, guarded
  by the truth value of the stored id.
\<close>

definition best_effort_release :: "settings \<Rightarrow> (string \<Rightarrow> http_outcome) \<Rightarrow> string option \<Rightarrow> unit act" where
  "best_effort_release s http rid = (case rid of
     None \<Rightarrow> act_return ()
   | Some r \<Rightarrow>
       if r = [] then act_return ()
       else act_catch (act_bind (release_reservation s http (PStr r)) (\<lambda>_. act_return ()))
              (\<lambda>_. act_return ()))"

lemma release_reservation_db:
  "w_db (snd (release_reservation s http v w)) = w_db w"
  by (auto simp: release_reservation_def act_defs Let_def split: sum.splits http_outcome.splits)

text \<open>A best-effort release never raises, never touches the database, and its request is in
  the trace whenever the service answered, whatever it answered.\<close>

definition release_trace :: "settings \<Rightarrow> (string \<Rightarrow> http_outcome) \<Rightarrow> string option \<Rightarrow> effect list" where
  "release_trace s http rid = (case rid of
     None \<Rightarrow> []
   | Some r \<Rightarrow> if blank r then []
       else (case http (release_url s r) of NoResponse _ \<Rightarrow> [] | Status _ \<Rightarrow> [HttpPost (release_url s r)]))"

lemma best_effort_release_result:
  "best_effort_release s http rid w = (Inr (), w\<lparr>w_trace := w_trace w @ release_trace s http rid\<rparr>)"
proof (cases rid)
  case None
  then show ?thesis by (simp add: best_effort_release_def act_defs release_trace_def)
next
  case (Some r)
  show ?thesis
  proof (cases "blank r")
    case True
    then have "\<exists>e. require_non_empty_str (PStr r) ''reservation_id'' = Inl e"
      by (simp add: require_non_empty_str_def blank_def)
    with True Some show ?thesis
      by (auto simp: best_effort_release_def release_reservation_def act_defs release_trace_def)
  next
    case False
    then have "r \<noteq> []" by auto
    with False Some show ?thesis
      by (simp add: best_effort_release_def release_reservation_def act_defs Let_def
          raise_for_status_def release_trace_def split: http_outcome.splits)
  qed
qed

end
