(* ===== verification/Maintenance.thy ===== *)
theory Maintenance
  imports QualiClient Scheduler
begin

text \<open>
  \<open>backend/services/maintenance.py\<close> and the loop that runs it in \<open>backend/main.py\<close>: hosts
  whose heartbeat is stale are marked offline, and the runs in flight on the hosts just
  marked are failed and their reservations released.
\<close>

section \<open>sweep_stale_hosts\<close>

fun dt_minus :: "py_datetime \<Rightarrow> int \<Rightarrow> py_datetime" where
  "dt_minus (Naive t) d = Naive (t - d)"
| "dt_minus (Aware t) d = Aware (t - d)"

definition is_stale :: "py_datetime \<Rightarrow> worker_host \<Rightarrow> bool result" where
  "is_stale cutoff h = (case wh_last_heartbeat h of
     None \<Rightarrow> Inr True
   | Some hb \<Rightarrow> dt_lt (assume_utc hb) cutoff)"

text \<open>The loop over the online hosts: the rows found stale, in query order.\<close>

fun stale_hosts :: "py_datetime \<Rightarrow> worker_host list \<Rightarrow> worker_host list result" where
  "stale_hosts cutoff [] = Inr []"
| "stale_hosts cutoff (h # hs) =
     ebind (is_stale cutoff h) (\<lambda>st.
     ebind (stale_hosts cutoff hs) (\<lambda>rest. Inr (if st then h # rest else rest)))"

definition mark_offline :: "int set \<Rightarrow> worker_host list \<Rightarrow> worker_host list" where
  "mark_offline ids hs = map (\<lambda>h. if wh_id h \<in> ids then h\<lparr>wh_is_online := False\<rparr> else h) hs"

definition sweep_stale_hosts :: "pyerr option \<Rightarrow> py_datetime \<Rightarrow> int \<Rightarrow> string list act" where
  "sweep_stale_hosts commit_err now max_age =
     act_bind get_db (\<lambda>d.
     let online_hosts = filter wh_is_online (hosts d)
     in act_bind (act_lift (stale_hosts (dt_minus now max_age) online_hosts)) (\<lambda>stale.
        let affected = map wh_host_id stale
        in if affected \<noteq> []
           then act_bind (commit commit_err (set_hosts (mark_offline (wh_id ` set stale)))) (\<lambda>_.
                act_return affected)
           else act_return affected))"

section \<open>fail_orphaned_runs\<close>

definition active_states :: "string list" where
  "active_states = [status_value DISPATCHED, status_value RUNNING]"

definition orphaned :: "string list \<Rightarrow> test_execution \<Rightarrow> bool" where
  "orphaned host_ids r \<longleftrightarrow>
     (case te_target_host_id r of None \<Rightarrow> False | Some h \<Rightarrow> h \<in> set host_ids) \<and>
     te_status r \<in> set active_states"

fun release_each :: "settings \<Rightarrow> (string \<Rightarrow> http_outcome) \<Rightarrow> test_execution list \<Rightarrow> unit act" where
  "release_each s http [] = act_return ()"
| "release_each s http (r # rs) =
     act_bind (best_effort_release s http (te_quali_reservation_id r)) (\<lambda>_. release_each s http rs)"

definition set_executions :: "(test_execution list \<Rightarrow> test_execution list) \<Rightarrow> db \<Rightarrow> db" where
  "set_executions f d = d\<lparr>executions := f (executions d)\<rparr>"

definition fail_runs :: "py_datetime \<Rightarrow> (test_execution \<Rightarrow> bool) \<Rightarrow> test_execution list \<Rightarrow> test_execution list"
  where "fail_runs now P =
     map (\<lambda>r. if P r then touch now (\<lambda>r. r\<lparr>te_status := status_value FAILED\<rparr>) r else r)"

definition fail_orphaned_runs ::
    "settings \<Rightarrow> (string \<Rightarrow> http_outcome) \<Rightarrow> pyerr option \<Rightarrow> py_datetime \<Rightarrow> string list \<Rightarrow> nat act" where
  "fail_orphaned_runs s http commit_err now host_ids =
     (if host_ids = [] then act_return 0
      else
        act_bind get_db (\<lambda>d.
        let found = filter (orphaned host_ids) (executions d)
        in act_bind (release_each s http found) (\<lambda>_.
           if found \<noteq> []
           then act_bind (commit commit_err (set_executions (fail_runs now (orphaned host_ids)))) (\<lambda>_.
                act_return (length found))
           else act_return (length found))))"

section \<open>run_maintenance_sweep and its loop\<close>

record sweep_env =
  sw_now :: int
  sw_http :: "string \<Rightarrow> http_outcome"
  sw_commit_hosts :: "pyerr option"
  sw_commit_runs :: "pyerr option"

definition run_maintenance_sweep :: "settings \<Rightarrow> sweep_env \<Rightarrow> unit act" where
  "run_maintenance_sweep s env =
     act_bind (sweep_stale_hosts (sw_commit_hosts env) (Aware (sw_now env)) (heartbeat_timeout s)) (\<lambda>offline.
     if offline \<noteq> []
     then act_bind (fail_orphaned_runs s (sw_http env) (sw_commit_runs env) (Aware (sw_now env)) offline)
            (\<lambda>_. act_return ())
     else act_return ())"

text \<open>
  The background loop: one sweep per turn, an exception of a sweep is logged and swallowed.
  The list gives the environment of each turn until the stop event is seen.
\<close>

fun maintenance_loop :: "settings \<Rightarrow> sweep_env list \<Rightarrow> unit act" where
  "maintenance_loop s [] = act_return ()"
| "maintenance_loop s (env # envs) =
     act_bind (act_catch (run_maintenance_sweep s env) (\<lambda>_. act_return ())) (\<lambda>_.
     maintenance_loop s envs)"

text \<open>The application's lifespan: the schema, then the loop until the stop event.\<close>

definition lifespan :: "settings \<Rightarrow> pyerr option \<Rightarrow> sweep_env list \<Rightarrow> unit act" where
  "lifespan s init_db envs = act_bind (service init_db) (\<lambda>_. maintenance_loop s envs)"

section \<open>What a sweep does\<close>

text \<open>A host counts as dead at a cutoff when it is flagged online without a heartbeat since.\<close>

definition stale_at :: "int \<Rightarrow> worker_host \<Rightarrow> bool" where
  "stale_at t h = (case wh_last_heartbeat h of None \<Rightarrow> True | Some hb \<Rightarrow> utc_micros hb < t)"

definition dead_at :: "int \<Rightarrow> worker_host \<Rightarrow> bool" where
  "dead_at t h \<longleftrightarrow> wh_is_online h \<and> stale_at t h"

definition put_offline :: "worker_host \<Rightarrow> worker_host" where
  "put_offline h = h\<lparr>wh_is_online := False\<rparr>"

definition dead_names :: "int \<Rightarrow> worker_host list \<Rightarrow> string list" where
  "dead_names t hs = map wh_host_id (filter (dead_at t) hs)"

lemma stale_hosts_aware: "stale_hosts (Aware t) hs = Inr (filter (stale_at t) hs)"
proof (induction hs)
  case (Cons h hs)
  have "is_stale (Aware t) h = Inr (stale_at t h)"
    by (simp add: is_stale_def stale_at_def split: option.splits)
  with Cons show ?case by simp
qed simp

lemma mark_offline_dead:
  assumes "wf_hosts hs"
  shows "mark_offline (wh_id ` set (filter (dead_at t) hs)) hs =
    map (\<lambda>h. if dead_at t h then put_offline h else h) hs"
proof -
  have "wh_id h \<in> wh_id ` set (filter (dead_at t) hs) \<longleftrightarrow> dead_at t h" if "h \<in> set hs" for h
    using that wf_hosts_same_id [OF assms that] by auto
  then show ?thesis by (simp add: mark_offline_def put_offline_def del: set_filter)
qed

lemma sweep_stale_hosts_ok:
  assumes "wf_hosts (hosts (w_db w))"
  shows "sweep_stale_hosts None (Aware now) age w =
    (Inr (dead_names (now - age) (hosts (w_db w))),
     w\<lparr>w_db := set_hosts (map (\<lambda>h. if dead_at (now - age) h then put_offline h else h)) (w_db w)\<rparr>)"
proof -
  let ?hs = "hosts (w_db w)" and ?t = "now - age"
  have st: "filter (stale_at ?t) (filter wh_is_online ?hs) = filter (dead_at ?t) ?hs"
    by (simp add: dead_at_def [abs_def] conj_commute)
  have map: "map (\<lambda>h. if dead_at ?t h then put_offline h else h) ?hs = ?hs"
    if "filter (dead_at ?t) ?hs = []"
    using that by (auto simp: filter_empty_conv intro!: map_idI)
  show ?thesis
    using map mark_offline_dead [OF assms, of ?t]
    by (auto simp: sweep_stale_hosts_def act_defs Let_def stale_hosts_aware st dead_names_def
        set_hosts_def simp del: set_filter filter_filter)
qed

lemma wf_hosts_sweep:
  "wf_hosts hs \<Longrightarrow> wf_hosts (map (\<lambda>h. if P h then put_offline h else h) hs)"
  by (rule wf_hosts_map) (auto simp: put_offline_def wf_host_def dest: wf_hosts_in)

text \<open>
  A sweep whose commit succeeds sets the online flag off on exactly the hosts that were
  online without a heartbeat at or after the cutoff, changes no other column of any host,
  returns their names in row order, and cannot raise, whether the stored time stamps carry a
  time zone or not.
\<close>

theorem sweep_marks_exactly_stale:
  assumes "wf_hosts (hosts (w_db w))"
  shows "sweep_stale_hosts None (Aware now) age w =
    (Inr (map wh_host_id (filter (\<lambda>h. wh_is_online h \<and> stale_at (now - age) h) (hosts (w_db w)))),
     w\<lparr>w_db := set_hosts (map (\<lambda>h. if wh_is_online h \<and> stale_at (now - age) h
         then h\<lparr>wh_is_online := False\<rparr> else h)) (w_db w)\<rparr>)"
  using sweep_stale_hosts_ok [OF assms, of now age]
  by (simp add: dead_names_def dead_at_def [abs_def] put_offline_def [abs_def])

definition sweep_world :: world where
  "sweep_world = \<lparr>w_db = example_db\<lparr>hosts :=
     [(example_host ''h1'' 1 10)\<lparr>wh_last_heartbeat := Some (Naive 95000000)\<rparr>,
      (example_host ''host2'' 0 50)\<lparr>wh_last_heartbeat := Some (Aware 5000000)\<rparr>,
      example_host ''h03'' 0 0]\<rparr>, w_trace = []\<rparr>"

theorem sweep_marks_exactly_stale_witness:
  "fst (sweep_stale_hosts None (Aware 100000000) 90000000 sweep_world) = Inr [''host2'', ''h03''] \<and>
   map wh_is_online (hosts (w_db (snd (sweep_stale_hosts None (Aware 100000000) 90000000 sweep_world))))
     = [True, False, False]"
proof -
  have wf: "wf_hosts (hosts (w_db sweep_world))" by code_simp
  show ?thesis
    by (simp add: sweep_marks_exactly_stale [OF wf])
       (simp add: sweep_world_def example_db_def example_host_def new_worker_host_def stale_at_def)
qed

text \<open>
  A sweep repeated at the same instant finds nothing left to do.
\<close>

theorem sweep_idempotent:
  assumes "wf_hosts (hosts (w_db w))" "sweep_stale_hosts None (Aware now) age w = (Inr names, w')"
  shows "sweep_stale_hosts err (Aware now) age w' = (Inr [], w')"
proof -
  let ?t = "now - age"
  have w': "hosts (w_db w') = map (\<lambda>h. if dead_at ?t h then put_offline h else h) (hosts (w_db w))"
    using assms(2) by (simp add: sweep_stale_hosts_ok [OF assms(1)]) auto
  have "filter (stale_at ?t) (filter wh_is_online (hosts (w_db w'))) = []"
    by (auto simp: w' filter_empty_conv put_offline_def dead_at_def)
  then show ?thesis
    by (simp add: sweep_stale_hosts_def act_defs Let_def stale_hosts_aware del: filter_filter)
qed

theorem sweep_idempotent_witness:
  "sweep_stale_hosts (Some (ServiceError ''x'')) (Aware 100000000) 90000000
     (snd (sweep_stale_hosts None (Aware 100000000) 90000000 sweep_world)) =
   (Inr [], snd (sweep_stale_hosts None (Aware 100000000) 90000000 sweep_world))"
proof -
  have wf: "wf_hosts (hosts (w_db sweep_world))" by code_simp
  obtain names where "sweep_stale_hosts None (Aware 100000000) 90000000 sweep_world =
      (Inr names, snd (sweep_stale_hosts None (Aware 100000000) 90000000 sweep_world))"
    by (simp add: sweep_stale_hosts_ok [OF wf])
  from sweep_idempotent [OF wf this] show ?thesis .
qed

text \<open>
  Right after a sweep, placement never chooses a host without a heartbeat inside the
  window, whatever the bundle asks for.
\<close>

theorem sweep_then_select_fresh:
  assumes "wf_hosts (hosts (w_db w))" "sweep_stale_hosts None (Aware now) age w = (Inr names, w')"
    and "select_host (hosts (w_db w')) (Inr b) = Inr (Some r)"
  shows "\<exists>h \<in> set (hosts (w_db w')). wh_host_id h = rh_host_id r \<and> rh_host_id r \<notin> set names \<and>
    (\<exists>hb. wh_last_heartbeat h = Some hb \<and> now - age \<le> utc_micros hb)"
proof -
  let ?t = "now - age"
  have w': "hosts (w_db w') = map (\<lambda>h. if dead_at ?t h then put_offline h else h) (hosts (w_db w))"
    and names: "names = dead_names ?t (hosts (w_db w))"
    using assms(2) by (simp_all add: sweep_stale_hosts_ok [OF assms(1)]) auto
  have wf': "wf_hosts (hosts (w_db w'))" using wf_hosts_sweep [OF assms(1)] by (simp add: w')
  with assms(3) obtain h where h: "pick_host b (hosts (w_db w')) = Some h" "rh_host_id r = wh_host_id h"
    by (auto simp: select_host_pick)
  note p = pick_host_Some [OF wf' h(1)]
  then have on: "wh_is_online h" by (simp add: passes_filter_def split: if_splits)
  with p(2) have old: "h \<in> set (hosts (w_db w))" "\<not> dead_at ?t h"
    by (auto simp: w' put_offline_def split: if_splits)
  then have "wh_host_id h \<notin> set names"
    unfolding names dead_names_def by (auto dest: wf_hosts_same [OF assms(1)])
  moreover from old on have "\<exists>hb. wh_last_heartbeat h = Some hb \<and> ?t \<le> utc_micros hb"
    by (auto simp: dead_at_def stale_at_def split: option.splits)
  ultimately show ?thesis using p(2) h(2) by auto
qed

theorem sweep_then_select_fresh_witness:
  "\<exists>h \<in> set (hosts (w_db (snd (sweep_stale_hosts None (Aware 100000000) 90000000 sweep_world)))).
     wh_host_id h = ''h1'' \<and> ''h1'' \<notin> set [''host2'', ''h03''] \<and>
     (\<exists>hb. wh_last_heartbeat h = Some hb \<and> 10000000 \<le> utc_micros hb)"
proof -
  have wf: "wf_hosts (hosts (w_db sweep_world))" by code_simp
  have sw: "sweep_stale_hosts None (Aware 100000000) 90000000 sweep_world =
      (Inr [''host2'', ''h03''], snd (sweep_stale_hosts None (Aware 100000000) 90000000 sweep_world))"
    by code_simp
  have sel: "select_host (hosts (w_db (snd (sweep_stale_hosts None (Aware 100000000) 90000000 sweep_world))))
      (Inr example_bundle) = Inr (Some \<lparr>rh_host_id = ''h1'', rh_score = Fin 30\<rparr>)"
    by code_simp
  show ?thesis using sweep_then_select_fresh [OF wf sw sel] by simp
qed

section \<open>What happens to the runs\<close>

definition releases :: "settings \<Rightarrow> (string \<Rightarrow> http_outcome) \<Rightarrow> test_execution list \<Rightarrow> effect list" where
  "releases s http rs = concat (map (\<lambda>r. release_trace s http (te_quali_reservation_id r)) rs)"

lemma release_each_result:
  "release_each s http rs w = (Inr (), w\<lparr>w_trace := w_trace w @ releases s http rs\<rparr>)"
  by (induction rs arbitrary: w) (simp_all add: act_defs releases_def best_effort_release_result)

lemma fail_runs_none: "filter P rs = [] \<Longrightarrow> fail_runs now P rs = rs"
  by (auto simp: fail_runs_def filter_empty_conv intro!: map_idI)

lemma touch_status [simp]:
  "te_status (touch now (\<lambda>r. r\<lparr>te_status := x\<rparr>) r) = x"
  "te_target_host_id (touch now (\<lambda>r. r\<lparr>te_status := x\<rparr>) r) = te_target_host_id r"
  by (auto simp: touch_def) (metis test_execution.select_convs(7) test_execution.surjective test_execution.update_convs(7))

lemma fail_runs_not_orphaned:
  assumes "r \<in> set (fail_runs now (orphaned names) rs)"
  shows "\<not> orphaned names r"
proof -
  from assms obtain r0 where r: "r = (if orphaned names r0
      then touch now (\<lambda>r. r\<lparr>te_status := status_value FAILED\<rparr>) r0 else r0)"
    unfolding fail_runs_def set_map by blast
  show ?thesis
  proof (cases "orphaned names r0")
    case True
    with r have "te_status r = status_value FAILED" by simp
    then show ?thesis by (simp add: orphaned_def active_states_def)
  qed (simp add: r)
qed

lemma orphaned_none [simp]: "\<not> orphaned [] r"
  by (simp add: orphaned_def split: option.splits)

lemma set_executions_simps [simp]:
  "executions (set_executions f d) = f (executions d)" "hosts (set_executions f d) = hosts d"
  "users (set_executions f d) = users d" "sessions (set_executions f d) = sessions d"
  "log_lines (set_executions f d) = log_lines d" "next_id (set_executions f d) = next_id d"
  by (simp_all add: set_executions_def)

lemma fail_orphaned_runs_ok:
  "fail_orphaned_runs s http None now names w =
    (Inr (length (filter (orphaned names) (executions (w_db w)))),
     w\<lparr>w_db := set_executions (fail_runs now (orphaned names)) (w_db w),
       w_trace := w_trace w @ releases s http (filter (orphaned names) (executions (w_db w)))\<rparr>)"
proof (cases "filter (orphaned names) (executions (w_db w)) = []")
  case True
  then show ?thesis
    by (cases "names = []")
       (simp_all add: fail_orphaned_runs_def act_defs release_each_result fail_runs_none
          set_executions_def releases_def)
next
  case False
  then have "names \<noteq> []" by (auto simp: filter_empty_conv)
  with False show ?thesis
    by (simp add: fail_orphaned_runs_def act_defs release_each_result Let_def)
qed

lemma maintenance_sweep_run:
  assumes "wf_hosts (hosts (w_db w))" "sw_commit_hosts env = None" "sw_commit_runs env = None"
  shows "run_maintenance_sweep s env w =
    (let t = sw_now env - heartbeat_timeout s;
         gone = orphaned (map wh_host_id (filter (dead_at t) (hosts (w_db w))))
     in (Inr (),
         w\<lparr>w_db := set_executions (fail_runs (Aware (sw_now env)) gone)
             (set_hosts (map (\<lambda>h. if dead_at t h then h\<lparr>wh_is_online := False\<rparr> else h)) (w_db w)),
           w_trace := w_trace w @ releases s (sw_http env) (filter gone (executions (w_db w)))\<rparr>))"
proof (cases "dead_names (sw_now env - heartbeat_timeout s) (hosts (w_db w)) = []")
  case True
  then have "map wh_host_id (filter (dead_at (sw_now env - heartbeat_timeout s)) (hosts (w_db w))) = []"
    by (simp add: dead_names_def)
  with True assms show ?thesis
    by (simp add: run_maintenance_sweep_def act_defs sweep_stale_hosts_ok Let_def releases_def
        put_offline_def [abs_def] fail_runs_none set_executions_def del: map_is_Nil_conv)
next
  case False
  with assms show ?thesis
    by (simp add: run_maintenance_sweep_def act_defs sweep_stale_hosts_ok Let_def
        fail_orphaned_runs_ok dead_names_def put_offline_def [abs_def])
qed

text \<open>A run that is failed changes, so its stamp is renewed.\<close>

lemma fail_runs_stamped:
  assumes "\<And>r. P r \<Longrightarrow> te_status r \<noteq> ''FAILED''"
  shows "fail_runs now P = map (\<lambda>r. if P r then r\<lparr>te_status := ''FAILED'', te_updated_at := now\<rparr> else r)"
proof -
  have "touch now (\<lambda>r. r\<lparr>te_status := status_value FAILED\<rparr>) r = r\<lparr>te_status := ''FAILED'', te_updated_at := now\<rparr>"
    if "P r" for r
  proof -
    have "te_status (r\<lparr>te_status := ''FAILED''\<rparr>) \<noteq> te_status r" using assms [OF that] by simp
    then have "r\<lparr>te_status := ''FAILED''\<rparr> \<noteq> r" by metis
    then show ?thesis by (simp add: touch_def)
  qed
  then show ?thesis by (simp add: fail_runs_def cong: if_cong)
qed

text \<open>
  C15: A maintenance sweep whose two commits succeed marks the dead hosts offline, fails and stamps
  exactly the runs DISPATCHED or RUNNING on a host it has just marked, leaves every other
  run as it was, and asks Quali once for each reservation those runs hold, whatever Quali
  answers; it never raises.
\<close>

theorem maintenance_sweep_effect:
  assumes "wf_hosts (hosts (w_db w))" "sw_commit_hosts env = None" "sw_commit_runs env = None"
  shows "run_maintenance_sweep s env w =
    (let t = sw_now env - heartbeat_timeout s;
         gone = (\<lambda>r. te_status r \<in> {''DISPATCHED'', ''RUNNING''} \<and>
           (\<exists>h \<in> set (hosts (w_db w)). dead_at t h \<and> te_target_host_id r = Some (wh_host_id h)))
     in (Inr (),
         w\<lparr>w_db := (w_db w)\<lparr>
             hosts := map (\<lambda>h. if dead_at t h then h\<lparr>wh_is_online := False\<rparr> else h) (hosts (w_db w)),
             executions := map (\<lambda>r. if gone r then r\<lparr>te_status := ''FAILED'', te_updated_at := Aware (sw_now env)\<rparr>
               else r) (executions (w_db w))\<rparr>,
           w_trace := w_trace w @ releases s (sw_http env) (filter gone (executions (w_db w)))\<rparr>))"
proof -
  let ?t = "sw_now env - heartbeat_timeout s"
  let ?gone = "\<lambda>r. te_status r \<in> {''DISPATCHED'', ''RUNNING''} \<and>
    (\<exists>h \<in> set (hosts (w_db w)). dead_at ?t h \<and> te_target_host_id r = Some (wh_host_id h))"
  have gone: "orphaned (map wh_host_id (filter (dead_at ?t) (hosts (w_db w)))) = ?gone"
    by (auto simp: fun_eq_iff orphaned_def active_states_def split: option.splits)
  have "fail_runs (Aware (sw_now env)) ?gone = map (\<lambda>r. if ?gone r
      then r\<lparr>te_status := ''FAILED'', te_updated_at := Aware (sw_now env)\<rparr> else r)"
    by (rule fail_runs_stamped) auto
  moreover have same: "executions (d\<lparr>hosts := hs\<rparr>) = executions d" for d hs by simp
  ultimately show ?thesis
    using maintenance_sweep_run [OF assms, of s] unfolding Let_def gone
    by (simp only: set_executions_def set_hosts_def same)
qed

definition example_run :: "string \<Rightarrow> string option \<Rightarrow> test_status \<Rightarrow> string option \<Rightarrow> test_execution" where
  "example_run tid host st q =
     (new_test_execution 1 tid 7 ''pytest'' ''img:1'' st (Aware 0))
       \<lparr>te_target_host_id := host, te_quali_reservation_id := q\<rparr>"

definition runs_world :: world where
  "runs_world = sweep_world\<lparr>w_db := (w_db sweep_world)\<lparr>executions :=
     [example_run ''a'' (Some ''host2'') RUNNING (Some ''resv-1''),
      example_run ''b'' (Some ''host2'') PASSED (Some ''resv-2''),
      example_run ''c'' (Some ''h1'') RUNNING None,
      example_run ''d'' (Some ''h03'') DISPATCHED None]\<rparr>\<rparr>"

definition example_sweep :: sweep_env where
  "example_sweep = \<lparr>sw_now = 100000000, sw_http = (\<lambda>_. Status 500), sw_commit_hosts = None,
     sw_commit_runs = None\<rparr>"

theorem maintenance_sweep_effect_witness:
  "map te_status (executions (w_db (snd (run_maintenance_sweep default_settings example_sweep runs_world)))) =
     [''FAILED'', ''PASSED'', ''RUNNING'', ''FAILED''] \<and>
   w_trace (snd (run_maintenance_sweep default_settings example_sweep runs_world)) =
     [HttpPost ''https://cloudshell.corp.example.com/api/reservations/resv-1/end'']"
proof -
  have wf: "wf_hosts (hosts (w_db runs_world))" by code_simp
  have e: "sw_commit_hosts example_sweep = None" "sw_commit_runs example_sweep = None"
    by (simp_all add: example_sweep_def)
  show ?thesis
    unfolding maintenance_sweep_effect [OF wf e] by code_simp
qed

text \<open>
  After such a sweep no run is left DISPATCHED or RUNNING on a host that the sweep marked
  offline.
\<close>

theorem maintenance_sweep_no_orphans:
  assumes "wf_hosts (hosts (w_db w))" "sw_commit_hosts env = None" "sw_commit_runs env = None"
    and "h \<in> set (hosts (w_db w))" "wh_is_online h"
    and "h' \<in> set (hosts (w_db (snd (run_maintenance_sweep s env w))))"
    and "wh_host_id h' = wh_host_id h" "\<not> wh_is_online h'"
  shows "\<not> (\<exists>r \<in> set (executions (w_db (snd (run_maintenance_sweep s env w)))).
           te_target_host_id r = Some (wh_host_id h) \<and> te_status r \<in> {''DISPATCHED'', ''RUNNING''})"
proof -
  let ?t = "sw_now env - heartbeat_timeout s"
  have "dead_at ?t h"
  proof (rule ccontr)
    assume "\<not> dead_at ?t h"
    from assms(6) obtain g where g: "g \<in> set (hosts (w_db w))"
      "h' = (if dead_at ?t g then g\<lparr>wh_is_online := False\<rparr> else g)"
      by (auto simp: maintenance_sweep_run [OF assms(1-3)] Let_def)
    then have "g = h" using assms(4,7) wf_hosts_same [OF assms(1)] by (auto split: if_splits)
    with g \<open>\<not> dead_at ?t h\<close> assms(5,8) show False by simp
  qed
  with assms(4) have "wh_host_id h \<in> set (map wh_host_id (filter (dead_at ?t) (hosts (w_db w))))" by auto
  moreover have "\<not> orphaned (map wh_host_id (filter (dead_at ?t) (hosts (w_db w)))) r"
    if "r \<in> set (executions (w_db (snd (run_maintenance_sweep s env w))))" for r
    using that fail_runs_not_orphaned
    by (simp add: maintenance_sweep_run [OF assms(1-3)] Let_def)
  ultimately show ?thesis by (force simp: orphaned_def active_states_def)
qed

theorem maintenance_sweep_no_orphans_witness:
  "\<not> (\<exists>r \<in> set (executions (w_db (snd (run_maintenance_sweep default_settings example_sweep runs_world)))).
       te_target_host_id r = Some ''host2'' \<and> te_status r \<in> {''DISPATCHED'', ''RUNNING''})"
proof -
  let ?h = "(example_host ''host2'' 0 50)\<lparr>wh_last_heartbeat := Some (Aware 5000000)\<rparr>"
  have wf: "wf_hosts (hosts (w_db runs_world))" by code_simp
  have e: "sw_commit_hosts example_sweep = None" "sw_commit_runs example_sweep = None"
    by (simp_all add: example_sweep_def)
  have h: "?h \<in> set (hosts (w_db runs_world))" "wh_is_online ?h"
    by (simp_all add: runs_world_def sweep_world_def example_host_def)
  have h': "?h\<lparr>wh_is_online := False\<rparr> \<in>
      set (hosts (w_db (snd (run_maintenance_sweep default_settings example_sweep runs_world))))"
    by (simp add: maintenance_sweep_run [OF wf e] Let_def)
       (simp add: runs_world_def sweep_world_def example_sweep_def default_settings_def dead_at_def
          stale_at_def example_host_def)
  have n: "wh_host_id (?h\<lparr>wh_is_online := False\<rparr>) = wh_host_id ?h"
    "\<not> wh_is_online (?h\<lparr>wh_is_online := False\<rparr>)" "wh_host_id ?h = ''host2''"
    by (simp_all add: example_host_def new_worker_host_def)
  show ?thesis
    using maintenance_sweep_no_orphans [OF wf e h h' n(1,2)] unfolding n(3) .
qed

section \<open>Runs the sweep never reaches\<close>

definition stranded :: "string \<Rightarrow> test_execution \<Rightarrow> world \<Rightarrow> bool" where
  "stranded name r w \<longleftrightarrow> wf_hosts (hosts (w_db w)) \<and> r \<in> set (executions (w_db w)) \<and>
     te_target_host_id r = Some name \<and>
     (\<forall>h \<in> set (hosts (w_db w)). wh_host_id h = name \<longrightarrow> \<not> wh_is_online h)"

lemma sweep_stranded:
  assumes "stranded name r w"
  shows "stranded name r (snd (run_maintenance_sweep s env w))"
proof -
  let ?t = "sw_now env - heartbeat_timeout s"
  let ?hs = "map (\<lambda>h. if dead_at ?t h then put_offline h else h) (hosts (w_db w))"
  have wf: "wf_hosts (hosts (w_db w))" and r: "r \<in> set (executions (w_db w))" "te_target_host_id r = Some name"
    and off: "\<forall>h \<in> set (hosts (w_db w)). wh_host_id h = name \<longrightarrow> \<not> wh_is_online h"
    using assms by (auto simp: stranded_def)
  from off have alive: "name \<notin> set (dead_names ?t (hosts (w_db w)))"
    by (auto simp: dead_names_def dead_at_def)
  then have "\<not> orphaned (dead_names ?t (hosts (w_db w))) r" using r by (simp add: orphaned_def)
  with r have kept: "r \<in> set (fail_runs now (orphaned (dead_names ?t (hosts (w_db w)))) (executions (w_db w)))"
    for now by (force simp: fail_runs_def)
  from off have off': "\<forall>h \<in> set ?hs. wh_host_id h = name \<longrightarrow> \<not> wh_is_online h"
    by (auto simp: put_offline_def)
  show ?thesis
  proof (cases "sw_commit_hosts env")
    case (Some e)
    have "snd (sweep_stale_hosts (Some e) (Aware (sw_now env)) (heartbeat_timeout s) w) = w \<and>
      (\<forall>ns. fst (sweep_stale_hosts (Some e) (Aware (sw_now env)) (heartbeat_timeout s) w) = Inr ns \<longrightarrow> ns = [])"
      by (auto simp: sweep_stale_hosts_def act_defs Let_def stale_hosts_aware)
    with Some assms show ?thesis
      by (auto simp: run_maintenance_sweep_def act_defs split: prod.splits sum.splits)
  next
    case None
    show ?thesis
      using assms kept off' wf_hosts_sweep [OF wf] r
      by (cases "sw_commit_runs env")
         (auto simp: None run_maintenance_sweep_def act_defs sweep_stale_hosts_ok [OF wf]
            fail_orphaned_runs_ok stranded_def fail_orphaned_runs_def release_each_result Let_def)
  qed
qed

text \<open>Each turn of the loop runs one sweep, and goes on whether or not it raised.\<close>

lemma maintenance_loop_Cons:
  "maintenance_loop s (env # envs) w = maintenance_loop s envs (snd (run_maintenance_sweep s env w))"
proof -
  obtain r w' where "run_maintenance_sweep s env w = (r, w')" by fastforce
  then show ?thesis by (cases r) (simp_all add: act_defs)
qed

lemma maintenance_loop_fold:
  "maintenance_loop s envs w = (Inr (), fold (\<lambda>env w. snd (run_maintenance_sweep s env w)) envs w)"
  by (induction envs arbitrary: w) (simp_all add: maintenance_loop_Cons act_return_def del: maintenance_loop.simps(2))

text \<open>
  C31: The background maintenance outlives every failure: once the schema is there, each turn of
  the loop runs a whole sweep on the state the previous turns left, however many of them raised,
  and no exception of a sweep ends the application. If the schema cannot be made, nothing runs.
\<close>

theorem lifespan_sweeps:
  "lifespan s None envs w = (Inr (), fold (\<lambda>env w. snd (run_maintenance_sweep s env w)) envs w) \<and>
   lifespan s (Some e) envs w = (Inl e, w)"
  by (simp add: lifespan_def service_def act_bind_def act_return_def act_raise_def maintenance_loop_fold)

text \<open>
  A run whose target host is already offline when the sweep looks is never failed by the
  maintenance loop, however many sweeps run and whatever their environment: only hosts that a
  sweep turns offline have their runs failed. A run DISPATCHED to a host that went offline
  just before stays DISPATCHED.
\<close>

theorem maintenance_never_reaps_stranded:
  assumes "wf_hosts (hosts (w_db w))" "r \<in> set (executions (w_db w))" "te_target_host_id r = Some name"
    and "\<And>h. h \<in> set (hosts (w_db w)) \<Longrightarrow> wh_host_id h = name \<Longrightarrow> \<not> wh_is_online h"
  shows "r \<in> set (executions (w_db (snd (maintenance_loop s envs w))))"
proof -
  have "stranded name r w" using assms by (simp add: stranded_def)
  then have "stranded name r (snd (maintenance_loop s envs w))"
  proof (induction envs arbitrary: w)
    case (Cons env envs)
    then show ?case
      using sweep_stranded by (simp add: maintenance_loop_Cons del: maintenance_loop.simps)
  qed (simp add: act_defs)
  then show ?thesis by (simp add: stranded_def)
qed

definition stranded_world :: world where
  "stranded_world = sweep_world\<lparr>w_db := (w_db sweep_world)\<lparr>
     hosts := [new_worker_host 1 ''h1''],
     executions := [example_run ''a'' (Some ''h1'') DISPATCHED (Some ''resv-1'')]\<rparr>\<rparr>"

theorem maintenance_never_reaps_stranded_witness:
  "example_run ''a'' (Some ''h1'') DISPATCHED (Some ''resv-1'') \<in>
     set (executions (w_db (snd (maintenance_loop default_settings (replicate 100 example_sweep) stranded_world))))"
proof (rule maintenance_never_reaps_stranded)
  show "wf_hosts (hosts (w_db stranded_world))" by code_simp
qed (auto simp: stranded_world_def example_run_def new_worker_host_def)

end
