(* ===== verification/Routes.thy ===== *)
theory Routes
  imports Scheduler Auth Maintenance
begin

text \<open>
  The HTTP routes of \<open>backend/main.py\<close>. A route takes the user the session cookie resolved
  to and returns a response; the rows a page shows are the response's data, the HTML of the
  templates is not modelled. \<open>Inl\<close> is an exception that reaches the framework (a 500).
\<close>

section \<open>Responses\<close>

datatype response =
    Redirect string
  | DashboardPage user "test_execution list"
  | LogsPage user test_execution
  | LoginPage "string option" int
  | LoggedIn string string int
  | AdminPage user "worker_host list"

section \<open>Reading routes\<close>

definition current_user :: "db \<Rightarrow> int \<Rightarrow> string option \<Rightarrow> user option result" where
  "current_user d now cookie = resolve_session d now cookie"

definition dashboard :: "db \<Rightarrow> user option \<Rightarrow> response" where
  "dashboard d user = (case user of
     None \<Rightarrow> Redirect ''/login''
   | Some u \<Rightarrow>
       (let own = filter (\<lambda>r. te_user_id r = u_id u) (executions d)
        in DashboardPage u (take 50 (sort_key (\<lambda>r. - utc_micros (te_created_at r)) own))))"

definition test_logs_page :: "db \<Rightarrow> string \<Rightarrow> user option \<Rightarrow> response result" where
  "test_logs_page d test_id user = (case user of
     None \<Rightarrow> Inr (Redirect ''/login'')
   | Some u \<Rightarrow>
       ebind (find_by te_test_id test_id (executions d)) (\<lambda>found. case found of
         None \<Rightarrow> Inr (Redirect ''/'')
       | Some run \<Rightarrow> if te_user_id run \<noteq> u_id u then Inr (Redirect ''/'') else Inr (LogsPage u run)))"

definition login_form :: response where
  "login_form = LoginPage None 200"

definition admin :: "db \<Rightarrow> user option \<Rightarrow> response" where
  "admin d user = (case user of
     None \<Rightarrow> Redirect ''/login''
   | Some u \<Rightarrow> AdminPage u (sort_key wh_host_id (hosts d)))"

section \<open>Login\<close>

fun is_login_error :: "pyerr \<Rightarrow> bool" where
  "is_login_error (LDAPAuthError _) = True"
| "is_login_error e = is_input_error e"

definition login_submit :: "settings \<Rightarrow> login_env \<Rightarrow> string \<Rightarrow> string \<Rightarrow> response act" where
  "login_submit s env username password =
     act_catch
       (act_bind (authenticate_ldap s env (PStr username) (PStr password)) (\<lambda>(u, session).
        act_return (LoggedIn ''/'' (us_token session) (12 * 3600))))
       (\<lambda>e. if is_login_error e
            then act_return (LoginPage (Some ''Invalid credentials or directory unavailable.'') 401)
            else act_raise e)"

section \<open>Submitting a test\<close>

text \<open>
  What a submission meets outside: the fresh id, the clock at the insertion and at the final
  update, the dispatch's environment, failing commits, and what the worker and other
  transactions do to the database between the dispatch and the final commit.
\<close>

record submit_env =
  sb_uuid :: string
  sb_now :: int
  sb_commit_pending :: "pyerr option"
  sb_dispatch :: dispatch_env
  sb_others :: "db \<Rightarrow> db"
  sb_later :: int
  sb_commit_final :: "pyerr option"

definition submit_args :: "string \<Rightarrow> user \<Rightarrow> string \<Rightarrow> string \<Rightarrow> string \<Rightarrow> string \<Rightarrow> bool \<Rightarrow> bundle_args" where
  "submit_args test_id u runner_type framework_image target_dut required_hw_tags requires_emulation =
     (let tags = parse_tags required_hw_tags;
          runner_variables = (if target_dut \<noteq> [] then [(PStr ''target_dut'', PStr target_dut)] else [])
      in \<lparr>a_test_id = PStr test_id, a_user_id = PInt (u_id u), a_runner_type = PStr runner_type,
          a_framework_image = PStr framework_image, a_required_hw_tags = PList (map PStr tags),
          a_requires_emulation = PBool requires_emulation, a_quali_reservation_id = PNone,
          a_runner_variables = PDict runner_variables\<rparr>)"

definition advance_execution :: "string option \<Rightarrow> int \<Rightarrow> test_execution \<Rightarrow> test_execution" where
  "advance_execution chosen now r = (case chosen of
     None \<Rightarrow> r\<lparr>te_status := status_value FAILED, te_updated_at := Aware now\<rparr>
   | Some h \<Rightarrow> r\<lparr>te_status := status_value DISPATCHED, te_target_host_id := Some h,
                 te_updated_at := Aware now\<rparr>)"

definition submit_test ::
    "submit_env \<Rightarrow> string \<Rightarrow> string \<Rightarrow> string \<Rightarrow> string \<Rightarrow> bool \<Rightarrow> user option \<Rightarrow> response act" where
  "submit_test env runner_type framework_image target_dut required_hw_tags requires_emulation user =
     (case user of
        None \<Rightarrow> act_return (Redirect ''/login'')
      | Some u \<Rightarrow>
          (case TestBundleRequest (submit_args (sb_uuid env) u runner_type framework_image target_dut
                  required_hw_tags requires_emulation) of
             Inl e \<Rightarrow> if is_input_error e then act_return (Redirect ''/'') else act_raise e
           | Inr bundle \<Rightarrow>
               act_bind get_db (\<lambda>d.
               let row = new_test_execution (next_id d) (sb_uuid env) (u_id u) runner_type
                           framework_image PENDING (Aware (sb_now env))
               in act_bind (act_lift (insert_by te_test_id row (executions d))) (\<lambda>es.
                  act_bind (commit (sb_commit_pending env)
                              (\<lambda>d. d\<lparr>executions := es, next_id := next_id d + 1\<rparr>)) (\<lambda>_.
                  act_bind (act_catch (dispatch (sb_dispatch env) (Inr bundle)) (\<lambda>_. act_return None)) (\<lambda>chosen.
                  act_bind (put_db (sb_others env)) (\<lambda>_.
                  act_bind (commit (sb_commit_final env)
                    (set_executions (update_by te_id (te_id row) (advance_execution chosen (sb_later env))))) (\<lambda>_.
                  act_return (Redirect ''/'')))))))))"

section \<open>Updating a host\<close>

definition normalize_tags :: "string \<Rightarrow> string" where
  "normalize_tags s = join '','' (parse_tags s)"

definition set_capabilities :: "string \<Rightarrow> bool \<Rightarrow> int \<Rightarrow> worker_host \<Rightarrow> worker_host" where
  "set_capabilities hardware_tags emulation max_containers h =
     h\<lparr>wh_hardware_tags := normalize_tags hardware_tags, wh_supports_emulation := emulation,
       wh_max_containers := max 1 max_containers\<rparr>"

definition update_host ::
    "pyerr option \<Rightarrow> string \<Rightarrow> string \<Rightarrow> bool \<Rightarrow> int \<Rightarrow> user option \<Rightarrow> response act" where
  "update_host commit_err host_id hardware_tags emulation max_containers user = (case user of
     None \<Rightarrow> act_return (Redirect ''/login'')
   | Some u \<Rightarrow>
       act_bind get_db (\<lambda>d.
       act_bind (act_lift (find_by wh_host_id host_id (hosts d))) (\<lambda>host.
       act_bind (case host of
           None \<Rightarrow> act_return ()
         | Some h \<Rightarrow> commit commit_err (set_hosts (update_by wh_id (wh_id h)
                       (set_capabilities hardware_tags emulation max_containers)))) (\<lambda>_.
       act_return (Redirect ''/admin'')))))"

section \<open>Live logs\<close>

text \<open>The close code the log socket answers with, or \<open>None\<close> when it streams.\<close>

definition ws_logs_close :: "db \<Rightarrow> int \<Rightarrow> string option \<Rightarrow> string \<Rightarrow> int option result" where
  "ws_logs_close d now cookie test_id =
     ebind (resolve_session d now cookie) (\<lambda>user. case user of
       None \<Rightarrow> Inr (Some 4401)
     | Some u \<Rightarrow>
         ebind (find_by te_test_id test_id (executions d)) (\<lambda>row.
         case map_option te_user_id row of
           None \<Rightarrow> Inr None
         | Some owner \<Rightarrow> if owner \<noteq> u_id u then Inr (Some 4403) else Inr None))"

section \<open>What a submission does\<close>

definition submitted_bundle :: "string \<Rightarrow> user \<Rightarrow> string \<Rightarrow> string \<Rightarrow> string \<Rightarrow> string \<Rightarrow> bool \<Rightarrow> test_bundle" where
  "submitted_bundle test_id u runner_type framework_image target_dut tags emu =
     \<lparr>tb_test_id = test_id, tb_user_id = u_id u, tb_runner_type = runner_type,
      tb_framework_image = framework_image, tb_required_hw_tags = parse_tags tags,
      tb_requires_emulation = emu, tb_quali_reservation_id = None,
      tb_runner_variables = (if target_dut \<noteq> [] then [(PStr ''target_dut'', PStr target_dut)] else [])\<rparr>"

definition valid_submission :: "submit_env \<Rightarrow> string \<Rightarrow> string \<Rightarrow> user \<Rightarrow> db \<Rightarrow> bool" where
  "valid_submission env runner_type framework_image u d \<longleftrightarrow>
     \<not> blank (sb_uuid env) \<and> 0 < u_id u \<and> \<not> blank runner_type \<and> \<not> blank framework_image \<and>
     sb_uuid env \<notin> te_test_id ` set (executions d) \<and> (\<forall>r \<in> set (executions d). te_id r < next_id d)"

definition pending_row :: "submit_env \<Rightarrow> string \<Rightarrow> string \<Rightarrow> user \<Rightarrow> db \<Rightarrow> test_execution" where
  "pending_row env runner_type framework_image u d =
     new_test_execution (next_id d) (sb_uuid env) (u_id u) runner_type framework_image PENDING (Aware (sb_now env))"

definition add_pending :: "submit_env \<Rightarrow> string \<Rightarrow> string \<Rightarrow> user \<Rightarrow> db \<Rightarrow> db" where
  "add_pending env runner_type framework_image u d =
     d\<lparr>executions := executions d @ [pending_row env runner_type framework_image u d], next_id := next_id d + 1\<rparr>"

definition dispatched_to :: "string option result \<Rightarrow> string option" where
  "dispatched_to r = (case r of Inr h \<Rightarrow> h | Inl _ \<Rightarrow> None)"

lemma submit_bundle:
  assumes "valid_submission env rt img u d"
  shows "TestBundleRequest (submit_args (sb_uuid env) u rt img dut tags emu) =
    Inr (submitted_bundle (sb_uuid env) u rt img dut tags emu)"
  using assms
  by (simp add: valid_submission_def submit_args_def submitted_bundle_def TestBundleRequest_def
      require_str_list_def require_bool_def require_quali_def Let_def)

lemma submit_test_run:
  assumes "valid_submission env rt img u (w_db w)"
    and "sb_commit_pending env = None" "sb_commit_final env = None"
    and "dispatch (sb_dispatch env) (Inr (submitted_bundle (sb_uuid env) u rt img dut tags emu))
           (w\<lparr>w_db := add_pending env rt img u (w_db w)\<rparr>) = (r, w2)"
  shows "submit_test env rt img dut tags emu (Some u) w =
    (Inr (Redirect ''/''), w2\<lparr>w_db := set_executions
       (update_by te_id (next_id (w_db w)) (advance_execution (dispatched_to r) (sb_later env)))
       (sb_others env (w_db w2))\<rparr>)"
proof -
  let ?row = "new_test_execution (next_id (w_db w)) (sb_uuid env) (u_id u) rt img PENDING (Aware (sb_now env))"
  have ins: "insert_by te_test_id ?row (executions (w_db w)) = Inr (executions (w_db w) @ [?row])"
    and row: "te_id ?row = next_id (w_db w)"
    using assms(1) by (simp_all add: insert_by_def valid_submission_def new_test_execution_def)
  have "act_catch (dispatch (sb_dispatch env) (Inr (submitted_bundle (sb_uuid env) u rt img dut tags emu)))
      (\<lambda>_. act_return None) (w\<lparr>w_db := add_pending env rt img u (w_db w)\<rparr>) = (Inr (dispatched_to r), w2)"
    using assms(4) by (auto simp: act_catch_def act_return_def dispatched_to_def split: sum.splits)
  note step = act_bind_step [where m = "act_catch (dispatch (sb_dispatch env)
      (Inr (submitted_bundle (sb_uuid env) u rt img dut tags emu))) (\<lambda>_. act_return None)", OF this [unfolded add_pending_def pending_row_def]]
  show ?thesis
    using assms(2,3) by (simp add: submit_test_def submit_bundle [OF assms(1)] Let_def ins row step act_return_def)
qed

lemma update_by_append_new:
  assumes "k \<notin> key ` set rs" "key row = k"
  shows "update_by key k f (rs @ [row]) = rs @ [f row]"
proof -
  have "map (\<lambda>r. if key r = k then f r else r) rs = rs"
    using assms(1) by (intro map_idI) auto
  with assms(2) show ?thesis by (simp add: update_by_def)
qed

lemma update_by_new:
  assumes "\<forall>r \<in> set rs. te_id r < n" "te_id row = n"
  shows "update_by te_id n f (rs @ [row]) = rs @ [f row]"
  using assms by (intro update_by_append_new) auto

lemma add_pending_hosts [simp]: "hosts (add_pending env rt img u d) = hosts d"
  by (simp add: add_pending_def)

text \<open>
  The row of a submission once it is over, column by column: dispatched to a host, or failed.
\<close>

definition submitted_row :: "submit_env \<Rightarrow> string \<Rightarrow> string \<Rightarrow> user \<Rightarrow> string option \<Rightarrow> db \<Rightarrow> test_execution" where
  "submitted_row env rt img u chosen d =
     \<lparr>te_id = next_id d, te_test_id = sb_uuid env, te_user_id = u_id u, te_target_host_id = chosen,
      te_runner_type = rt, te_framework_image = img,
      te_status = (if chosen = None then ''FAILED'' else ''DISPATCHED''),
      te_quali_reservation_id = None, te_artifact_url = None,
      te_created_at = Aware (sb_now env), te_updated_at = Aware (sb_later env)\<rparr>"

lemma advance_pending_row:
  "advance_execution chosen (sb_later env) (pending_row env rt img u d) = submitted_row env rt img u chosen d"
  by (cases chosen) (simp_all add: advance_execution_def pending_row_def new_test_execution_def submitted_row_def)

definition submitted_db :: "submit_env \<Rightarrow> string \<Rightarrow> string \<Rightarrow> user \<Rightarrow> string option \<Rightarrow> db \<Rightarrow> db" where
  "submitted_db env rt img u chosen d = d\<lparr>executions := executions d @
       [submitted_row env rt img u chosen d], next_id := next_id d + 1\<rparr>"

lemma advance_pending:
  assumes "valid_submission env rt img u d"
  shows "set_executions (update_by te_id (next_id d) (advance_execution c (sb_later env)))
      (set_hosts f (add_pending env rt img u d)) = set_hosts f (submitted_db env rt img u c d)"
  using assms
  by (simp add: set_executions_def set_hosts_def add_pending_def submitted_db_def update_by_new
      valid_submission_def advance_pending_row [symmetric] pending_row_def new_test_execution_def)

lemma submit_test_effect_rule:
  assumes "valid_submission env rt img u (w_db w)" "wf_hosts (hosts (w_db w))"
    and "sb_commit_pending env = None" "sb_commit_final env = None" "sb_others env = id"
    and "de_commit_reserve (sb_dispatch env) = None" "\<And>q. de_send (sb_dispatch env) q = None"
  shows "submit_test env rt img dut tags emu (Some u) w = (Inr (Redirect ''/''),
    (let b = submitted_bundle (sb_uuid env) u rt img dut tags emu in
     case pick_host b (hosts (w_db w)) of
       None \<Rightarrow> w\<lparr>w_db := submitted_db env rt img u None (w_db w)\<rparr>
     | Some h \<Rightarrow> w\<lparr>w_db := set_hosts (update_by wh_host_id (wh_host_id h)
             (\<lambda>h. h\<lparr>wh_active_containers := wh_active_containers h + 1\<rparr>))
           (submitted_db env rt img u (Some (wh_host_id h)) (w_db w)),
         w_trace := w_trace w @ [SendTask ''worker.run_test_bundle'' (PDict (to_dict b))
             (queue_of (wh_host_id h))]\<rparr>))"
proof -
  let ?b = "submitted_bundle (sb_uuid env) u rt img dut tags emu"
  let ?w1 = "w\<lparr>w_db := add_pending env rt img u (w_db w)\<rparr>"
  note advance = advance_pending [OF assms(1)] advance_pending [OF assms(1), of _ id, simplified]
  have wf: "wf_hosts (hosts (w_db ?w1))" using assms(2) by simp
  show ?thesis
  proof (cases "pick_host ?b (hosts (w_db w))")
    case None
    then have "dispatch (sb_dispatch env) (Inr ?b) ?w1 = (Inr None, ?w1)"
      by (simp add: dispatch_pick [OF wf])
    from submit_test_run [OF assms(1,3,4) this] None assms(5) show ?thesis
      by (simp add: dispatched_to_def advance)
  next
    case (Some h)
    have slot: "set_hosts (reserve_slot h) (add_pending env rt img u (w_db w)) =
        set_hosts (update_by wh_host_id (wh_host_id h)
          (\<lambda>h. h\<lparr>wh_active_containers := wh_active_containers h + 1\<rparr>)) (add_pending env rt img u (w_db w))"
      using reserve_slot_incr [OF assms(2) pick_host_Some(2) [OF assms(2) Some]]
      by (simp add: set_hosts_def)
    from Some have "dispatch (sb_dispatch env) (Inr ?b) ?w1 = (Inr (Some (wh_host_id h)),
        ?w1\<lparr>w_db := set_hosts (reserve_slot h) (w_db ?w1),
          w_trace := w_trace w @ [SendTask ''worker.run_test_bundle'' (PDict (to_dict ?b)) (queue_of (wh_host_id h))]\<rparr>)"
      using assms(6,7) by (simp add: dispatch_pick [OF wf] Let_def)
    from submit_test_run [OF assms(1,3,4) this] Some assms(5) show ?thesis
      by (simp add: dispatched_to_def advance Let_def slot)
  qed
qed

text \<open>
  C14: With a working database and broker, submitting the form stores exactly one execution and
  answers with a redirect. If the scheduler has a host for the bundle, the execution is
  DISPATCHED to that host, the host counts one container more, and its queue holds one task
  with the same test id; if not, the execution is FAILED without a host, no host changes and
  nothing is sent. Every column of the stored row is given (\<open>submitted_row\<close>).
\<close>

theorem submit_test_effect:
  assumes "valid_submission env rt img u (w_db w)" "wf_hosts (hosts (w_db w))"
    and "sb_commit_pending env = None" "sb_commit_final env = None" "sb_others env = id"
    and "de_commit_reserve (sb_dispatch env) = None" "\<And>q. de_send (sb_dispatch env) q = None"
  shows "submit_test env rt img dut tags emu (Some u) w = (Inr (Redirect ''/''),
    (let b = submitted_bundle (sb_uuid env) u rt img dut tags emu in
     case pick_host b (hosts (w_db w)) of
       None \<Rightarrow> w\<lparr>w_db := submitted_db env rt img u None (w_db w)\<rparr>
     | Some h \<Rightarrow> w\<lparr>w_db := set_hosts (update_by wh_host_id (wh_host_id h)
             (\<lambda>h. h\<lparr>wh_active_containers := wh_active_containers h + 1\<rparr>))
           (submitted_db env rt img u (Some (wh_host_id h)) (w_db w)),
         w_trace := w_trace w @ [SendTask ''worker.run_test_bundle'' (PDict (to_dict b))
             (queue_of (wh_host_id h))]\<rparr>))"
  using assms by (rule submit_test_effect_rule)

definition example_user :: user where
  "example_user = \<lparr>u_id = 7, u_username = ''eve'', u_display_name = None, u_email = None,
     u_created_at = Aware 0\<rparr>"

definition quiet_submit :: submit_env where
  "quiet_submit = \<lparr>sb_uuid = ''u1'', sb_now = 0, sb_commit_pending = None, sb_dispatch = quiet_env,
     sb_others = id, sb_later = 1, sb_commit_final = None\<rparr>"

lemma example_submission: "valid_submission quiet_submit ''pytest'' ''img'' example_user (w_db example_world)"
  by code_simp

theorem submit_test_effect_witness:
  "map (\<lambda>r. (te_status r, te_target_host_id r)) (executions (w_db (snd
     (submit_test quiet_submit ''pytest'' ''img'' ''dut1'' '' DUT_A ,'' True (Some example_user) example_world)))) =
   [(''DISPATCHED'', Some ''host2'')] \<and>
   map (\<lambda>r. (te_status r, te_target_host_id r)) (executions (w_db (snd
     (submit_test quiet_submit ''pytest'' ''img'' ''dut1'' ''DUT_Z'' True (Some example_user) example_world)))) =
   [(''FAILED'', None)]"
proof -
  let ?b = "\<lambda>tags. submitted_bundle (sb_uuid quiet_submit) example_user ''pytest'' ''img'' ''dut1'' tags True"
  have q: "sb_commit_pending quiet_submit = None" "sb_commit_final quiet_submit = None"
    "sb_others quiet_submit = id" "de_commit_reserve (sb_dispatch quiet_submit) = None"
    "\<And>q. de_send (sb_dispatch quiet_submit) q = None"
    by (simp_all add: quiet_submit_def quiet_env_def)
  have p: "pick_host (?b '' DUT_A ,'') (hosts (w_db example_world)) = Some (example_host ''host2'' 0 50)"
    "pick_host (?b ''DUT_Z'') (hosts (w_db example_world)) = None" by code_simp+
  have e: "executions (w_db example_world) = []" by (simp add: example_world_def example_db_def)
  show ?thesis
    using submit_test_effect [OF example_submission example_world_wf q, of "''dut1''" "'' DUT_A ,''" True]
      submit_test_effect [OF example_submission example_world_wf q, of "''dut1''" "''DUT_Z''" True]
    by (simp add: p e Let_def submitted_db_def submitted_row_def example_host_def new_worker_host_def)
qed

text \<open>
  When the broker refuses the task, the form still answers with a redirect: the execution
  is stored as FAILED without a host, the reserved slot has been given back, and no task was
  sent.
\<close>

theorem submit_test_broker_down:
  assumes "valid_submission env rt img u (w_db w)" "wf_hosts (hosts (w_db w))"
    and "sb_commit_pending env = None" "sb_commit_final env = None" "sb_others env = id"
    and "de_commit_reserve (sb_dispatch env) = None" "de_commit_undo (sb_dispatch env) = None"
    and "de_others (sb_dispatch env) = id" "\<And>q. de_send (sb_dispatch env) q \<noteq> None"
  shows "submit_test env rt img dut tags emu (Some u) w =
    (Inr (Redirect ''/''), w\<lparr>w_db := submitted_db env rt img u None (w_db w)\<rparr>)"
proof -
  let ?b = "submitted_bundle (sb_uuid env) u rt img dut tags emu"
  let ?w1 = "w\<lparr>w_db := add_pending env rt img u (w_db w)\<rparr>"
  have wf: "wf_hosts (hosts (w_db ?w1))" using assms(2) by simp
  obtain r where r: "dispatch (sb_dispatch env) (Inr ?b) ?w1 = (r, ?w1)" "dispatched_to r = None"
  proof (cases "pick_host ?b (hosts (w_db w))")
    case None
    then have "dispatch (sb_dispatch env) (Inr ?b) ?w1 = (Inr None, ?w1)"
      by (simp add: dispatch_pick [OF wf])
    then show thesis by (rule that) (simp add: dispatched_to_def)
  next
    case (Some h)
    from assms(9) obtain e where e: "de_send (sb_dispatch env) (queue_of (wh_host_id h)) = Some e" by blast
    have h: "h \<in> set (hosts (w_db w))" using pick_host_Some [OF assms(2) Some] by simp
    have "?w1\<lparr>w_db := set_hosts (undo_slot h (wh_active_containers h + 1) \<circ> id)
        (set_hosts (reserve_slot h) (w_db ?w1))\<rparr> = ?w1"
      using undo_slot_reserve_slot [OF assms(2) h] by (simp add: set_hosts_def add_pending_def)
    then have "dispatch (sb_dispatch env) (Inr ?b) ?w1 = (Inl e, ?w1)"
      using Some e assms(6-8) host_nonneg [OF assms(2) h] has_row_reserved [OF h]
      by (simp add: dispatch_pick [OF wf] Let_def dispatch_fail_stale del: comp_id)
    then show thesis by (rule that) (simp add: dispatched_to_def)
  qed
  from submit_test_run [OF assms(1,3,4) r(1)] r(2) assms(5) advance_pending [OF assms(1), of None id]
  show ?thesis by simp
qed

definition down_submit :: submit_env where
  "down_submit = quiet_submit\<lparr>sb_dispatch := broker_down_env\<rparr>"

theorem submit_test_broker_down_witness:
  "submit_test down_submit ''pytest'' ''img'' [] [] False (Some example_user) example_world =
     (Inr (Redirect ''/''), example_world\<lparr>w_db := submitted_db down_submit ''pytest'' ''img'' example_user None
        (w_db example_world)\<rparr>)"
proof (rule submit_test_broker_down)
  show "valid_submission down_submit ''pytest'' ''img'' example_user (w_db example_world)" by code_simp
qed (simp_all add: example_world_wf down_submit_def quiet_submit_def broker_down_env_def quiet_env_def)

text \<open>What a worker that finishes at once stores before the submission's own last update.\<close>

definition worker_finishes :: "string \<Rightarrow> string \<Rightarrow> db \<Rightarrow> db" where
  "worker_finishes tid host = set_executions (update_by te_test_id tid
     (\<lambda>r. r\<lparr>te_status := status_value PASSED, te_target_host_id := Some host\<rparr>))"

lemma find_by_new:
  assumes "k \<notin> key ` set rs" "key row = k"
  shows "find_by key k (rs @ [row]) = Inr (Some row)"
proof -
  have "filter (\<lambda>r. key r = k) rs = []" using assms(1) by (auto simp: filter_empty_conv)
  with assms(2) show ?thesis by (simp add: find_by_def one_or_none_def)
qed

text \<open>
  The task is sent before the execution is marked DISPATCHED, and the mark does not look at
  the status: a worker that has already stored PASSED is overwritten, and the finished run is
  stored as DISPATCHED.
\<close>

theorem submit_overwrites_finished:
  assumes "valid_submission env rt img u (w_db w)" "wf_hosts (hosts (w_db w))"
    and "sb_commit_pending env = None" "sb_commit_final env = None"
    and "sb_others env = worker_finishes (sb_uuid env) (wh_host_id h)"
    and "de_commit_reserve (sb_dispatch env) = None" "\<And>q. de_send (sb_dispatch env) q = None"
    and "pick_host (submitted_bundle (sb_uuid env) u rt img dut tags emu) (hosts (w_db w)) = Some h"
  shows "\<exists>r. find_by te_test_id (sb_uuid env)
      (executions (w_db (snd (submit_test env rt img dut tags emu (Some u) w)))) = Inr (Some r) \<and>
    te_status r = status_value DISPATCHED"
proof -
  let ?b = "submitted_bundle (sb_uuid env) u rt img dut tags emu"
  let ?w1 = "w\<lparr>w_db := add_pending env rt img u (w_db w)\<rparr>"
  let ?row = "pending_row env rt img u (w_db w)"
  let ?fin = "\<lambda>r. r\<lparr>te_status := status_value PASSED, te_target_host_id := Some (wh_host_id h)\<rparr>"
  have v: "\<forall>r \<in> set (executions (w_db w)). te_id r < next_id (w_db w)"
    "sb_uuid env \<notin> te_test_id ` set (executions (w_db w))"
    using assms(1) by (simp_all add: valid_submission_def)
  have row: "te_test_id ?row = sb_uuid env" "te_id ?row = next_id (w_db w)"
    by (simp_all add: pending_row_def new_test_execution_def)
  have wf: "wf_hosts (hosts (w_db ?w1))" using assms(2) by simp
  from assms(6-8) obtain tr where "dispatch (sb_dispatch env) (Inr ?b) ?w1 = (Inr (Some (wh_host_id h)),
      ?w1\<lparr>w_db := set_hosts (reserve_slot h) (w_db ?w1), w_trace := tr\<rparr>)"
    by (simp add: dispatch_pick [OF wf] Let_def)
  note run = submit_test_run [OF assms(1,3,4) this]
  have "update_by te_test_id (sb_uuid env) ?fin (executions (w_db w) @ [?row]) = executions (w_db w) @ [?fin ?row]"
    using v(2) row(1) by (rule update_by_append_new)
  then have "executions (w_db (snd (submit_test env rt img dut tags emu (Some u) w))) =
      executions (w_db w) @ [advance_execution (Some (wh_host_id h)) (sb_later env) (?fin ?row)]"
    using run v(1) row(2)
    by (simp add: assms(5) worker_finishes_def add_pending_def dispatched_to_def update_by_new)
  then show ?thesis
    using v(2) row(1) by (simp add: find_by_new advance_execution_def)
qed

definition raced_submit :: submit_env where
  "raced_submit = quiet_submit\<lparr>sb_others := worker_finishes ''u1'' ''host2''\<rparr>"

theorem submit_overwrites_finished_witness:
  "\<exists>r. find_by te_test_id ''u1'' (executions (w_db (snd
     (submit_test raced_submit ''pytest'' ''img'' [] [] False (Some example_user) example_world)))) = Inr (Some r) \<and>
   te_status r = ''DISPATCHED''"
proof -
  have v: "valid_submission raced_submit ''pytest'' ''img'' example_user (w_db example_world)" by code_simp
  have p: "pick_host (submitted_bundle (sb_uuid raced_submit) example_user ''pytest'' ''img'' [] [] False)
      (hosts (w_db example_world)) = Some (example_host ''host2'' 0 50)" by code_simp
  have q: "sb_commit_pending raced_submit = None" "sb_commit_final raced_submit = None"
    "sb_others raced_submit = worker_finishes (sb_uuid raced_submit) (wh_host_id (example_host ''host2'' 0 50))"
    "de_commit_reserve (sb_dispatch raced_submit) = None" "\<And>q. de_send (sb_dispatch raced_submit) q = None"
    by (simp_all add: raced_submit_def quiet_submit_def quiet_env_def example_host_def new_worker_host_def)
  show ?thesis
    using submit_overwrites_finished [OF v example_world_wf q p]
    by (simp add: raced_submit_def quiet_submit_def)
qed

section \<open>Updating a host\<close>

lemma normalize_idem: "normalize_tags (normalize_tags s) = normalize_tags s"
  unfolding normalize_tags_def using parse_tags_clean [of _ s] by (simp add: parse_tags_join)

lemma parse_normalized: "parse_tags (normalize_tags s) = parse_tags s"
  unfolding normalize_tags_def using parse_tags_clean [of _ s] by (simp add: parse_tags_join)

lemma set_capabilities_fields [simp]:
  "wh_host_id (set_capabilities t e m h) = wh_host_id h" "wh_id (set_capabilities t e m h) = wh_id h"
  "wf_host h \<Longrightarrow> wf_host (set_capabilities t e m h)"
  "tag_set (set_capabilities t e m h) = set (parse_tags t)"
  by (simp_all add: set_capabilities_def wf_host_def tag_set_def parse_normalized)

text \<open>
  C38: An admin's update of a registered host changes that row only, in its three capability
  columns: its tags become the ones typed in the form, without the spaces and stray commas they came
  with, it takes part in emulation as ticked, and its capacity is the number given but at least one.
  The inventory stays well-formed, and sending the same form again changes nothing. Nobody who is
  not logged in changes anything, and an unknown host is not created.
\<close>

theorem update_host_effect:
  assumes "wf_hosts (hosts (w_db w))" "h \<in> set (hosts (w_db w))"
  shows "let w' = snd (update_host None (wh_host_id h) tags emu cap (Some u) w);
             h' = h\<lparr>wh_hardware_tags := join '','' (parse_tags tags), wh_supports_emulation := emu,
               wh_max_containers := if cap < 1 then 1 else cap\<rparr> in
     fst (update_host None (wh_host_id h) tags emu cap (Some u) w) = Inr (Redirect ''/admin'') \<and>
     w' = w\<lparr>w_db := (w_db w)\<lparr>hosts := map (\<lambda>g. if g = h then h' else g) (hosts (w_db w))\<rparr>\<rparr> \<and>
     tag_set h' = set (parse_tags tags) \<and> wf_hosts (hosts (w_db w')) \<and>
     update_host None (wh_host_id h) tags emu cap (Some u) w' = (Inr (Redirect ''/admin''), w') \<and>
     update_host None (wh_host_id h) tags emu cap None w = (Inr (Redirect ''/login''), w) \<and>
     (other \<notin> wh_host_id ` set (hosts (w_db w)) \<longrightarrow>
        update_host None other tags emu cap (Some u) w = (Inr (Redirect ''/admin''), w))"
proof -
  let ?f = "set_capabilities tags emu cap"
  have upd: "update_by wh_id (wh_id h) ?f hs = map (\<lambda>g. if g = h then ?f h else g) hs"
    if "hs = hosts (w_db w)" for hs
    using that wf_hosts_same_id [OF assms(1) _ assms(2)] by (auto simp: update_by_def)
  have find: "find_by wh_host_id (wh_host_id h) (hosts (w_db w)) = Inr (Some h)"
    using assms by (simp add: find_by_Some wf_hosts_def)
  let ?w = "w\<lparr>w_db := set_hosts (map (\<lambda>g. if g = h then ?f h else g)) (w_db w)\<rparr>"
  have run: "update_host None (wh_host_id h) tags emu cap (Some u) w = (Inr (Redirect ''/admin''), ?w)"
    by (simp add: update_host_def find upd set_hosts_def act_return_def)
  have wf': "wf_hosts (hosts (w_db ?w))"
    using assms by (auto simp: wf_hosts_in intro!: wf_hosts_map)
  have h': "?f h \<in> set (hosts (w_db ?w))" using assms(2) by force
  have find': "find_by wh_host_id (wh_host_id h) (hosts (w_db ?w)) = Inr (Some (?f h))"
    using h' wf' by (simp add: find_by_Some wf_hosts_def del: set_hosts_simps)
  have twice: "?f (?f h) = ?f h" by (simp add: set_capabilities_def)
  have "update_by wh_id (wh_id h) ?f (hosts (w_db ?w)) = hosts (w_db ?w)"
  proof (rule update_by_id_on)
    fix r assume "r \<in> set (hosts (w_db ?w))" "wh_id r = wh_id h"
    then have "r = ?f h" by (intro wf_hosts_same_id [OF wf' _ h']) simp_all
    with twice show "?f r = r" by simp
  qed
  then have "update_host None (wh_host_id h) tags emu cap (Some u) ?w = (Inr (Redirect ''/admin''), ?w)"
    using find' by (simp add: update_host_def set_hosts_def act_return_def)
  moreover have h'_def: "h\<lparr>wh_hardware_tags := join '','' (parse_tags tags), wh_supports_emulation := emu,
      wh_max_containers := if cap < 1 then 1 else cap\<rparr> = ?f h"
    by (simp add: set_capabilities_def normalize_tags_def max_def)
  moreover have "tag_set (?f h) = set (parse_tags tags)" by simp
  moreover have "update_host None (wh_host_id h) tags emu cap None w = (Inr (Redirect ''/login''), w)"
    by (simp add: update_host_def act_return_def)
  moreover have "update_host None other tags emu cap (Some u) w = (Inr (Redirect ''/admin''), w)"
    if "other \<notin> wh_host_id ` set (hosts (w_db w))"
  proof -
    have "find_by wh_host_id other (hosts (w_db w)) = Inr None"
      using that assms(1) by (simp add: find_by_None wf_hosts_def)
    then show ?thesis by (simp add: update_host_def act_return_def)
  qed
  ultimately show ?thesis
    unfolding Let_def h'_def using run wf' by (simp add: set_hosts_def)
qed

theorem update_host_effect_witness:
  "map (\<lambda>g. (wh_hardware_tags g, wh_supports_emulation g, wh_max_containers g, wh_active_containers g))
     (hosts (w_db (snd (update_host None ''h1'' '' A,,B '' True (- 5) (Some example_user) busy_world)))) =
   [(''A,B'', True, 1, 3)]"
proof -
  have wf: "wf_hosts (hosts (w_db busy_world))" by code_simp
  have hs: "hosts (w_db busy_world) = [example_host ''h1'' 3 10]" by (simp add: busy_world_def)
  then have h: "example_host ''h1'' 3 10 \<in> set (hosts (w_db busy_world))" by simp
  have n: "wh_host_id (example_host ''h1'' 3 10) = ''h1''" "wh_active_containers (example_host ''h1'' 3 10) = 3"
    by (simp_all add: example_host_def new_worker_host_def)
  have "join '','' (parse_tags '' A,,B '') = ''A,B''" by code_simp
  with update_host_effect [OF wf h, of "'' A,,B ''" True "- 5" example_user] hs n
  show ?thesis by (simp add: Let_def)
qed

section \<open>Who sees what\<close>

definition owns_run :: "db \<Rightarrow> string \<Rightarrow> user option \<Rightarrow> bool" where
  "owns_run d tid user \<longleftrightarrow> (\<exists>u r. user = Some u \<and> r \<in> set (executions d) \<and> te_test_id r = tid \<and>
     te_user_id r = u_id u)"

text \<open>
  C20: The log page of a run is shown to its owner and to nobody else; a socket that streams
  belongs to a valid session, and if the run exists, to its owner. The only case in which the
  socket streams and the page does not show is a test id that is not stored.
\<close>

theorem logs_access:
  assumes "unique_by te_test_id (executions d)" "resolve_session d now cookie = Inr user"
  shows "((\<exists>u r. test_logs_page d tid user = Inr (LogsPage u r)) \<longleftrightarrow> owns_run d tid user) \<and>
    (ws_logs_close d now cookie tid = Inr None \<longleftrightarrow>
       owns_run d tid user \<or> (user \<noteq> None \<and> tid \<notin> te_test_id ` set (executions d)))"
proof -
  obtain x where x: "find_by te_test_id tid (executions d) = Inr x"
    using execution_table.find_total [OF assms(1)] by blast
  have none: "x = None \<longleftrightarrow> tid \<notin> te_test_id ` set (executions d)"
    using find_by_None [OF assms(1), of tid] x by auto
  have some: "x = Some r \<longleftrightarrow> r \<in> set (executions d) \<and> te_test_id r = tid" for r
    using find_by_Some [OF assms(1), of tid] x by auto
  have owns: "owns_run d tid user \<longleftrightarrow> (\<exists>u r. user = Some u \<and> x = Some r \<and> te_user_id r = u_id u)"
    unfolding owns_run_def some by blast
  have "(\<exists>u r. test_logs_page d tid user = Inr (LogsPage u r)) \<longleftrightarrow> owns_run d tid user"
    unfolding owns using x by (cases user; cases x) (auto simp: test_logs_page_def)
  moreover have "ws_logs_close d now cookie tid = Inr None \<longleftrightarrow>
      owns_run d tid user \<or> (user \<noteq> None \<and> tid \<notin> te_test_id ` set (executions d))"
    unfolding owns using x none assms(2) by (cases user; cases x) (auto simp: ws_logs_close_def)
  ultimately show ?thesis ..
qed

definition logs_db :: db where
  "logs_db = example_db\<lparr>users := [example_user],
     sessions := [\<lparr>us_id = 1, us_token = ''t'', us_user_id = 7, us_created_at = Aware 0, us_expires_at = Naive 100\<rparr>],
     executions := [new_test_execution 1 ''mine'' 7 ''pytest'' ''img'' RUNNING (Aware 0),
                    new_test_execution 2 ''theirs'' 8 ''pytest'' ''img'' RUNNING (Aware 0)]\<rparr>"

theorem logs_access_witness:
  "ws_logs_close logs_db 5 (Some ''t'') ''mine'' = Inr None \<and>
   ws_logs_close logs_db 5 (Some ''t'') ''nobody's'' = Inr None \<and>
   ws_logs_close logs_db 5 (Some ''t'') ''theirs'' \<noteq> Inr None"
proof -
  have u: "unique_by te_test_id (executions logs_db)" by code_simp
  have s: "resolve_session logs_db 5 (Some ''t'') = Inr (Some example_user)" by code_simp
  have ids: "te_test_id ` set (executions logs_db) = {''mine'', ''theirs''}"
    by (simp add: logs_db_def new_test_execution_def)
  have "\<forall>r \<in> set (executions logs_db). te_test_id r = ''theirs'' \<longrightarrow> te_user_id r = 8"
    "\<exists>r \<in> set (executions logs_db). te_test_id r = ''mine'' \<and> te_user_id r = 7"
    by (simp_all add: logs_db_def new_test_execution_def)
  then have "owns_run logs_db ''mine'' (Some example_user)" "\<not> owns_run logs_db ''theirs'' (Some example_user)"
    unfolding owns_run_def by (auto simp: example_user_def)
  with logs_access [OF u s, of "''mine''"] logs_access [OF u s, of "''theirs''"]
    logs_access [OF u s, of "''nobody's''"] ids
  show ?thesis by simp
qed

text \<open>
  The dashboard lists at most fifty runs, all of them the user's own and no run twice, the
  most recent first, and leaves out a run of the user only when it is full of runs that are at
  least as recent.
\<close>

theorem dashboard_recent:
  assumes "distinct (executions d)"
  shows "\<exists>runs. dashboard d (Some u) = DashboardPage u runs \<and> length runs \<le> 50 \<and> distinct runs \<and>
    set runs \<subseteq> {r \<in> set (executions d). te_user_id r = u_id u} \<and>
    sorted (map (\<lambda>r. - utc_micros (te_created_at r)) runs) \<and>
    (\<forall>r \<in> set (executions d). te_user_id r = u_id u \<and> r \<notin> set runs \<longrightarrow>
       length runs = 50 \<and> (\<forall>x \<in> set runs. utc_micros (te_created_at r) \<le> utc_micros (te_created_at x)))"
proof -
  let ?k = "\<lambda>r. - utc_micros (te_created_at r)"
  let ?own = "sort_key ?k (filter (\<lambda>r. te_user_id r = u_id u) (executions d))"
  have sorted: "sorted (map ?k (take 50 ?own @ drop 50 ?own))" by (simp only: append_take_drop_id sorted_sort_key)
  then have later: "\<And>x y. x \<in> set (take 50 ?own) \<Longrightarrow> y \<in> set (drop 50 ?own) \<Longrightarrow> ?k x \<le> ?k y"
    by (simp add: sorted_append del: append_take_drop_id)
  have own: "set ?own = {r \<in> set (executions d). te_user_id r = u_id u}" by auto
  have part: "set ?own = set (take 50 ?own) \<union> set (drop 50 ?own)"
    by (metis append_take_drop_id set_append)
  have full: "drop 50 ?own \<noteq> [] \<Longrightarrow> length (take 50 ?own) = 50" by simp
  show ?thesis
  proof (intro exI conjI ballI impI)
    show "dashboard d (Some u) = DashboardPage u (take 50 ?own)" by (simp add: dashboard_def)
    show "distinct (take 50 ?own)" using assms by (simp add: distinct_take)
    show "set (take 50 ?own) \<subseteq> {r \<in> set (executions d). te_user_id r = u_id u}"
      using part own by blast
    show "sorted (map ?k (take 50 ?own))" using sorted by (simp add: sorted_append del: append_take_drop_id)
    fix r assume r: "r \<in> set (executions d)" "te_user_id r = u_id u \<and> r \<notin> set (take 50 ?own)"
    then have d: "r \<in> set (drop 50 ?own)" using own part by blast
    then show "length (take 50 ?own) = 50" by (intro full) auto
    fix x assume "x \<in> set (take 50 ?own)"
    from later [OF this d] show "utc_micros (te_created_at r) \<le> utc_micros (te_created_at x)" by simp
  qed simp
qed

theorem dashboard_recent_witness:
  "\<exists>runs. dashboard logs_db (Some example_user) = DashboardPage example_user runs \<and> length runs \<le> 50"
proof -
  have d: "distinct (executions logs_db)" by (simp add: logs_db_def new_test_execution_def)
  from dashboard_recent [OF d, of example_user] show ?thesis by blast
qed

text \<open>
  The login form sets a cookie exactly when the authentication returned, with the token
  that was stored and a lifetime equal to the session's; it answers the documented failures
  with the login page and status 401, and lets every other exception through.
\<close>

theorem login_submit_outcome:
  "login_submit s env name pw w = (case authenticate_ldap s env (PStr name) (PStr pw) w of
      (Inr (u, sess), w') \<Rightarrow> (Inr (LoggedIn ''/'' (us_token sess) (12 * 3600)), w')
    | (Inl e, w') \<Rightarrow>
        if is_input_error e \<or> (\<exists>m. e = LDAPAuthError m)
        then (Inr (LoginPage (Some ''Invalid credentials or directory unavailable.'') 401), w')
        else (Inl e, w')) \<and> seconds (12 * 3600) = session_ttl"
proof -
  have "is_login_error e \<longleftrightarrow> is_input_error e \<or> (\<exists>m. e = LDAPAuthError m)" for e by (cases e) auto
  then show ?thesis
    by (auto simp: login_submit_def act_catch_def act_bind_def act_return_def act_raise_def
        session_ttl_def split: prod.splits sum.splits)
qed

end
