(* ===== verification/AdminPoll.thy ===== *)
theory AdminPoll
  imports PollState Routes
begin

text \<open>
  The admin status channel of \<open>backend/main.py\<close> (\<open>ws_admin\<close>): the main coroutine, and the
  consumer and grace timer of every poll it ever started. The steps are the runs between two
  \<open>await\<close>s. The closures of a poll read the variables \<open>my_gen\<close> and \<open>state\<close> of the enclosing
  function when they run, so both are cells of the connection that every closure shares; the
  timer alone got its poll object passed by value. Every send may fail, and an exception ends the
  coroutine it is raised in: the main one, a consumer or a timer. The counts of a poll are kept
  here without the lock of \<open>PollState\<close>, whose sends are one step each.
\<close>

section \<open>The connection\<close>

datatype frame = WaitingFrame string | BlankFrame string | RowFrame string | SentinelFrame string

datatype task_state = Running | Counting | Ended

datatype timer_state = Sleeping | Elapsed

text \<open>One poll: its \<open>_PollState\<close> object, its consumer and its timer.\<close>

record poll_task =
  pt_total :: int
  pt_received :: int
  pt_completed :: bool
  pt_consumer :: task_state
  pt_timer :: "timer_state option"

text \<open>The main coroutine waits for a frame, or for the queue of a new poll to be bound.\<close>

datatype main_state = Receiving | Binding string "string list" | Closed

record admin_conn =
  ac_main :: main_state
  ac_generation :: int
  ac_my_gen :: int
  ac_state :: nat
  ac_polls :: "poll_task list"
  ac_frames :: "(nat \<times> frame) list"
  ac_sends :: "effect list"

definition admin_start :: admin_conn where
  "admin_start = \<lparr>ac_main = Receiving, ac_generation = 0, ac_my_gen = 0, ac_state = 0, ac_polls = [],
     ac_frames = [], ac_sends = []\<rparr>"

text \<open>The close code of the handshake, or \<open>None\<close> when the channel opens.\<close>

definition ws_admin_close :: "db \<Rightarrow> int \<Rightarrow> string option \<Rightarrow> int option result" where
  "ws_admin_close d now cookie =
     ebind (resolve_session d now cookie) (\<lambda>user. Inr (if user = None then Some 4401 else None))"

section \<open>Steps\<close>

definition waiting_frame :: "int \<Rightarrow> string" where
  "waiting_frame num =
     ''<tbody id='' @ [CHR 0x22] @ ''host-status-results'' @ [CHR 0x22] @ '' hx-swap-oob='' @ [CHR 0x22]
     @ ''innerHTML'' @ [CHR 0x22] @ ''>'' @ ''<tr><td colspan='' @ [CHR 0x22] @ ''5'' @ [CHR 0x22]
     @ ''>Waiting for '' @ int_str num @ '' runner(s) to respond...</td></tr></tbody>''"

definition blank_sentinel :: string where
  "blank_sentinel = ''<div id='' @ [CHR 0x22] @ ''poll-sentinel'' @ [CHR 0x22] @ '' hx-swap-oob='' @ [CHR 0x22]
     @ ''innerHTML'' @ [CHR 0x22] @ ''></div>''"

definition cancel_task :: "poll_task \<Rightarrow> poll_task" where
  "cancel_task p = p\<lparr>pt_consumer := Ended, pt_timer := map_option (\<lambda>_. Elapsed) (pt_timer p)\<rparr>"

text \<open>
  \<open>_cancel_inflight\<close> cancels the tasks the two variables hold: those of the newest poll. A
  cancelled task does nothing more than closing its connection.
\<close>

definition cancel_inflight :: "admin_conn \<Rightarrow> admin_conn" where
  "cancel_inflight c = (if ac_polls c = [] then c
     else c\<lparr>ac_polls := (ac_polls c)[length (ac_polls c) - 1 := cancel_task (last (ac_polls c))]\<rparr>)"

definition new_poll_task :: "int \<Rightarrow> poll_task" where
  "new_poll_task num = \<lparr>pt_total = num, pt_received = 0, pt_completed = False,
     pt_consumer = Running, pt_timer = None\<rparr>"

definition close_conn :: "admin_conn \<Rightarrow> admin_conn" where
  "close_conn c = (cancel_inflight c)\<lparr>ac_main := Closed\<rparr>"

text \<open>
  A frame arrives: cancel, bump the generation, ask for the hosts, clear the table, start the
  consumer. A failing query or send ends the connection.
\<close>

definition begin_poll :: "string \<Rightarrow> string list result \<Rightarrow> bool \<Rightarrow> bool \<Rightarrow> admin_conn \<Rightarrow> admin_conn" where
  "begin_poll cid queried waiting_ok blank_ok c0 =
     (let c = cancel_inflight c0; g = ac_generation c + 1; k = length (ac_polls c);
          c1 = c\<lparr>ac_generation := g, ac_my_gen := g\<rparr>
      in case queried of
           Inl _ \<Rightarrow> close_conn c1
         | Inr host_ids \<Rightarrow>
             (let num = int (length host_ids);
                  c2 = c1\<lparr>ac_frames := ac_frames c1 @ [(k, WaitingFrame (waiting_frame num))]\<rparr>
              in if \<not> waiting_ok then close_conn c1
                 else if \<not> blank_ok then close_conn c2
                 else c2\<lparr>ac_main := Binding cid host_ids, ac_state := k,
                        ac_polls := ac_polls c2 @ [new_poll_task num],
                        ac_frames := ac_frames c2 @ [(k, BlankFrame blank_sentinel)]\<rparr>))"

text \<open>One status task per host; the first that cannot be sent ends the connection.\<close>

fun send_requests :: "(string \<Rightarrow> bool) \<Rightarrow> string \<Rightarrow> string list \<Rightarrow> effect list \<times> bool" where
  "send_requests fails cid [] = ([], True)"
| "send_requests fails cid (h # hs) = (case queue_name_for (PStr h) of
     Inl _ \<Rightarrow> ([], False)
   | Inr q \<Rightarrow>
       if fails q then ([], False)
       else (case send_requests fails cid hs of (es, ok) \<Rightarrow>
         (SendTask ''worker.report_status'' (PList [PStr cid]) q # es, ok)))"

text \<open>The queue is bound or five seconds have passed: dispatch, then start the timer.\<close>

definition dispatch_poll :: "(string \<Rightarrow> bool) \<Rightarrow> admin_conn \<Rightarrow> admin_conn" where
  "dispatch_poll fails c = (case ac_main c of
     Binding cid host_ids \<Rightarrow>
       (case send_requests fails cid host_ids of (es, ok) \<Rightarrow>
         (let c' = c\<lparr>ac_sends := ac_sends c @ es\<rparr>; k = length (ac_polls c) - 1
          in if ok then c'\<lparr>ac_main := Receiving,
                  ac_polls := (ac_polls c)[k := (ac_polls c ! k)\<lparr>pt_timer := Some Sleeping\<rparr>]\<rparr>
             else close_conn c'))
   | _ \<Rightarrow> c)"

text \<open>\<open>_is_current\<close>, as any closure evaluates it.\<close>

definition is_current :: "admin_conn \<Rightarrow> bool" where
  "is_current c \<longleftrightarrow> ac_generation c = ac_my_gen c"

definition set_consumer :: "nat \<Rightarrow> task_state \<Rightarrow> admin_conn \<Rightarrow> admin_conn" where
  "set_consumer k t c = c\<lparr>ac_polls := (ac_polls c)[k := (ac_polls c ! k)\<lparr>pt_consumer := t\<rparr>]\<rparr>"

text \<open>
  A message reaches the consumer of poll \<open>k\<close>: render and send; an exception of either ends the
  task.
\<close>

definition deliver :: "(string \<Rightarrow> string result) \<Rightarrow> nat \<Rightarrow> string \<Rightarrow> bool \<Rightarrow> admin_conn \<Rightarrow> admin_conn" where
  "deliver render k body send_ok c =
     (if k < length (ac_polls c) \<and> pt_consumer (ac_polls c ! k) = Running then
        (case (if is_current c then render body else Inr []) of
           Inl _ \<Rightarrow> set_consumer k Ended c
         | Inr fragment \<Rightarrow>
             if fragment = [] then set_consumer k Counting c
             else if \<not> send_ok then set_consumer k Ended c
             else set_consumer k Counting (c\<lparr>ac_frames := ac_frames c @ [(k, RowFrame fragment)]\<rparr>))
      else c)"

text \<open>
  \<open>emit_sentinel\<close> of poll object \<open>j\<close>, called by a task of poll \<open>k\<close>. The latch is set after the
  send, so a send that raises leaves it open for the other caller.
\<close>

definition emit_sentinel :: "nat \<Rightarrow> nat \<Rightarrow> bool \<Rightarrow> admin_conn \<Rightarrow> admin_conn" where
  "emit_sentinel k j send_ok c =
     (let p = ac_polls c ! j in
      if pt_completed p \<or> \<not> send_ok then c
      else c\<lparr>ac_frames := ac_frames c @ [(k, SentinelFrame (render_sentinel (pt_received p) (pt_total p)))],
             ac_polls := (ac_polls c)[j := p\<lparr>pt_completed := True\<rparr>]\<rparr>)"

definition sentinel_raises :: "nat \<Rightarrow> bool \<Rightarrow> admin_conn \<Rightarrow> bool" where
  "sentinel_raises j send_ok c \<longleftrightarrow> \<not> pt_completed (ac_polls c ! j) \<and> \<not> send_ok"

text \<open>After the send, \<open>_guarded_on_reply\<close> counts on the poll object the cell \<open>state\<close> holds now.\<close>

definition count_reply :: "nat \<Rightarrow> bool \<Rightarrow> admin_conn \<Rightarrow> admin_conn" where
  "count_reply k send_ok c =
     (if k < length (ac_polls c) \<and> pt_consumer (ac_polls c ! k) = Counting then
        (let c1 = set_consumer k Running c in
         if is_current c then
           (let j = ac_state c;
                p = (ac_polls c1 ! j)\<lparr>pt_received := pt_received (ac_polls c1 ! j) + 1\<rparr>;
                c2 = c1\<lparr>ac_polls := (ac_polls c1)[j := p]\<rparr>
            in if pt_total p \<noteq> 0 \<and> pt_received p \<ge> pt_total p
               then (if sentinel_raises j send_ok c2 then set_consumer k Ended c2
                     else emit_sentinel k j send_ok c2)
               else c2)
         else c1)
      else c)"

definition grace_elapsed :: "nat \<Rightarrow> bool \<Rightarrow> admin_conn \<Rightarrow> admin_conn" where
  "grace_elapsed k send_ok c =
     (if k < length (ac_polls c) \<and> pt_timer (ac_polls c ! k) = Some Sleeping then
        (let c1 = c\<lparr>ac_polls := (ac_polls c)[k := (ac_polls c ! k)\<lparr>pt_timer := Some Elapsed\<rparr>]\<rparr>
         in if is_current c then emit_sentinel k k send_ok c1 else c1)
      else c)"

text \<open>What happens to a connection; the flags tell whether a send the step makes succeeds.\<close>

datatype admin_event =
    PollFrame string "string list result" bool bool
  | Bound "string \<Rightarrow> bool"
  | Message nat string bool
  | Counted nat bool
  | GraceElapsed nat bool
  | Hangup

fun admin_step :: "(string \<Rightarrow> string result) \<Rightarrow> admin_event \<Rightarrow> admin_conn \<Rightarrow> admin_conn" where
  "admin_step render (PollFrame cid queried waiting_ok blank_ok) c =
     (if ac_main c = Receiving then begin_poll cid queried waiting_ok blank_ok c else c)"
| "admin_step render (Bound fails) c = dispatch_poll fails c"
| "admin_step render (Message k body ok) c = deliver render k body ok c"
| "admin_step render (Counted k ok) c = count_reply k ok c"
| "admin_step render (GraceElapsed k ok) c = grace_elapsed k ok c"
| "admin_step render Hangup c = (if ac_main c = Receiving then close_conn c else c)"

definition admin_run :: "(string \<Rightarrow> string result) \<Rightarrow> admin_event list \<Rightarrow> admin_conn" where
  "admin_run render evs = fold (admin_step render) evs admin_start"

section \<open>Only the newest poll is alive\<close>

definition ended :: "poll_task \<Rightarrow> bool" where
  "ended p \<longleftrightarrow> pt_consumer p = Ended \<and> pt_timer p \<in> {None, Some Elapsed}"

fun reply_frame :: "frame \<Rightarrow> bool" where
  "reply_frame (RowFrame _) = True"
| "reply_frame (SentinelFrame _) = True"
| "reply_frame _ = False"

fun is_sentinel :: "frame \<Rightarrow> bool" where
  "is_sentinel (SentinelFrame _) = True"
| "is_sentinel _ = False"

definition poll_frames :: "nat \<Rightarrow> admin_conn \<Rightarrow> frame list" where
  "poll_frames k c = map snd (filter (\<lambda>f. fst f = k) (ac_frames c))"

text \<open>
  What a poll has shown: the cleared table, then rows and at most one sentinel, with a count of
  replies it has really received and its own number of hosts.
\<close>

definition shown :: "poll_task \<Rightarrow> frame list \<Rightarrow> bool" where
  "shown p fs \<longleftrightarrow> (\<exists>rest. fs = WaitingFrame (waiting_frame (pt_total p)) # BlankFrame blank_sentinel # rest \<and>
     list_all reply_frame rest \<and> length (filter is_sentinel rest) = of_bool (pt_completed p) \<and>
     (\<forall>t. SentinelFrame t \<in> set rest \<longrightarrow> (\<exists>n \<le> pt_received p. t = render_sentinel n (pt_total p))))"

text \<open>A poll that could not be started has shown at most the cleared table.\<close>

definition abandoned :: "frame list \<Rightarrow> bool" where
  "abandoned fs \<longleftrightarrow> fs = [] \<or> (\<exists>num. fs = [WaitingFrame (waiting_frame num)])"

definition admin_inv :: "admin_conn \<Rightarrow> bool" where
  "admin_inv c \<longleftrightarrow> ac_my_gen c = ac_generation c \<and> ac_state c = length (ac_polls c) - 1 \<and>
     (ac_generation c = int (length (ac_polls c)) \<or>
      ac_generation c = int (length (ac_polls c)) + 1 \<and> ac_main c = Closed) \<and>
     (\<forall>k < length (ac_polls c). int k + 1 < ac_generation c \<longrightarrow> ended (ac_polls c ! k)) \<and>
     sorted (map fst (ac_frames c)) \<and> (\<forall>f \<in> set (ac_frames c). int (fst f) < ac_generation c) \<and>
     (\<forall>k < length (ac_polls c). shown (ac_polls c ! k) (poll_frames k c)) \<and>
     (\<forall>k \<ge> length (ac_polls c). abandoned (poll_frames k c)) \<and>
     (ac_main c \<noteq> Receiving \<and> ac_main c \<noteq> Closed \<longrightarrow> ac_polls c \<noteq> [])"

text \<open>Every step but the start of a poll only changes the newest poll and appends to its frames.\<close>

definition advance :: "poll_task \<Rightarrow> frame list \<Rightarrow> main_state \<Rightarrow> effect list \<Rightarrow> admin_conn \<Rightarrow> admin_conn" where
  "advance p fs m es c =
     (let k = length (ac_polls c) - 1
      in c\<lparr>ac_polls := (ac_polls c)[k := p], ac_frames := ac_frames c @ map (Pair k) fs, ac_main := m,
           ac_sends := es\<rparr>)"

lemma shown_append:
  assumes "shown p fs" "list_all reply_frame gs" "pt_total p' = pt_total p" "pt_received p \<le> pt_received p'"
    and "of_bool (pt_completed p') = of_bool (pt_completed p) + length (filter is_sentinel gs)"
    and "\<And>t. SentinelFrame t \<in> set gs \<Longrightarrow> t = render_sentinel (pt_received p') (pt_total p)"
  shows "shown p' (fs @ gs)"
proof -
  from assms(1) obtain rest where r: "fs = WaitingFrame (waiting_frame (pt_total p)) # BlankFrame blank_sentinel # rest"
    "list_all reply_frame rest" "length (filter is_sentinel rest) = of_bool (pt_completed p)"
    "\<forall>t. SentinelFrame t \<in> set rest \<longrightarrow> (\<exists>n \<le> pt_received p. t = render_sentinel n (pt_total p))"
    unfolding shown_def by blast
  have "\<exists>n \<le> pt_received p'. t = render_sentinel n (pt_total p)" if "SentinelFrame t \<in> set (rest @ gs)" for t
    using that r(4) assms(4,6) by (auto intro: order_trans)
  with r assms(2,3,5) show ?thesis unfolding shown_def by (intro exI [of _ "rest @ gs"]) simp
qed

lemma advance_inv:
  assumes "admin_inv c" "ac_polls c \<noteq> []" "ac_generation c = int (length (ac_polls c))" "list_all reply_frame fs"
    and "pt_total p = pt_total (last (ac_polls c))" "pt_received (last (ac_polls c)) \<le> pt_received p"
    and "of_bool (pt_completed p) = of_bool (pt_completed (last (ac_polls c))) + length (filter is_sentinel fs)"
    and "\<And>t. SentinelFrame t \<in> set fs \<Longrightarrow> t = render_sentinel (pt_received p) (pt_total (last (ac_polls c)))"
  shows "admin_inv (advance p fs m es c)"
proof -
  let ?n = "length (ac_polls c)" and ?c = "advance p fs m es c"
  have last: "last (ac_polls c) = ac_polls c ! (?n - 1)" using assms(2) by (rule last_conv_nth)
  have n: "0 < ?n" using assms(2) by simp
  have len: "length (ac_polls ?c) = ?n" by (simp add: advance_def Let_def)
  have frames: "poll_frames k ?c = poll_frames k c @ (if k = ?n - 1 then fs else [])" for k
    by (simp add: poll_frames_def advance_def Let_def filter_map o_def)
  have polls: "ac_polls ?c ! k = (if k = ?n - 1 then p else ac_polls c ! k)" if "k < ?n" for k
    using that by (simp add: advance_def Let_def nth_list_update)
  have "shown (ac_polls ?c ! k) (poll_frames k ?c)" if "k < ?n" for k
  proof (cases "k = ?n - 1")
    case True
    have "shown (ac_polls c ! k) (poll_frames k c)" using assms(1) that by (simp add: admin_inv_def)
    then show ?thesis
      unfolding frames polls [OF that] using True assms(4-8) last by (simp add: shown_append)
  next
    case False
    then show ?thesis using assms(1) that by (simp add: frames polls admin_inv_def)
  qed
  moreover have "abandoned (poll_frames k ?c)" if "?n \<le> k" for k
  proof -
    have "k \<noteq> ?n - 1" using that n by linarith
    with assms(1) that show ?thesis unfolding frames by (simp add: admin_inv_def)
  qed
  moreover have "sorted (map fst (ac_frames ?c))"
  proof -
    have "x \<le> ?n - 1" if "x \<in> fst ` set (ac_frames c)" for x
      using that assms(1,3) by (fastforce simp: admin_inv_def)
    moreover have "sorted (map fst (ac_frames c))" using assms(1) by (simp add: admin_inv_def)
    ultimately show ?thesis
      by (simp add: advance_def Let_def sorted_append o_def map_replicate_const)
  qed
  moreover have "\<forall>f \<in> set (ac_frames ?c). int (fst f) < ac_generation c"
    using assms(1,3) n by (auto simp: admin_inv_def advance_def Let_def)
  moreover have "ended (ac_polls ?c ! k)" if "k < ?n" "int k + 1 < ac_generation c" for k
    using assms(1,3) that by (auto simp: polls admin_inv_def)
  moreover have "ac_my_gen ?c = ac_generation ?c" "ac_generation ?c = ac_generation c" "ac_state ?c = ?n - 1"
    using assms(1) by (simp_all add: admin_inv_def advance_def Let_def)
  moreover have "ac_polls ?c \<noteq> []" using n len by auto
  ultimately show ?thesis using assms(3) by (simp add: admin_inv_def len)
qed

lemma advance_quiet:
  assumes "admin_inv c" "ac_polls c \<noteq> []" "ac_generation c = int (length (ac_polls c))"
    and "pt_total p = pt_total (last (ac_polls c))" "pt_received (last (ac_polls c)) \<le> pt_received p"
    and "pt_completed p = pt_completed (last (ac_polls c))"
  shows "admin_inv (advance p [] m es c)"
  using assms by (intro advance_inv) simp_all

text \<open>A task that is not ended belongs to the newest poll.\<close>

lemma alive_newest:
  assumes "admin_inv c" "k < length (ac_polls c)" "\<not> ended (ac_polls c ! k)"
  shows "k = length (ac_polls c) - 1" "ac_polls c \<noteq> []" "last (ac_polls c) = ac_polls c ! k" "is_current c"
    "ac_state c = k" "ac_generation c = int (length (ac_polls c))"
proof -
  have "\<not> int k + 1 < ac_generation c" using assms by (auto simp: admin_inv_def)
  with assms(1,2) have g: "ac_generation c = int (length (ac_polls c)) \<and> k = length (ac_polls c) - 1"
    by (auto simp: admin_inv_def)
  then show k: "k = length (ac_polls c) - 1" "ac_generation c = int (length (ac_polls c))" by simp_all
  show ne: "ac_polls c \<noteq> []" using assms(2) by auto
  show "last (ac_polls c) = ac_polls c ! k" using k last_conv_nth [OF ne] by simp
  show "is_current c" using assms(1) by (simp add: admin_inv_def is_current_def)
  show "ac_state c = k" using assms(1) k by (simp add: admin_inv_def)
qed

lemma cancel_ended: "ended p \<Longrightarrow> cancel_task p = p"
  by (cases p) (auto simp: ended_def cancel_task_def)

lemma cancel_inflight_ended:
  assumes "\<And>k. k < length (ac_polls c) \<Longrightarrow> ended (ac_polls c ! k)"
  shows "cancel_inflight c = c"
proof (cases "ac_polls c = []")
  case False
  then have "ended (last (ac_polls c))" using assms [of "length (ac_polls c) - 1"] by (simp add: last_conv_nth)
  with False show ?thesis by (simp add: cancel_inflight_def cancel_ended last_conv_nth list_update_same_conv)
qed (simp add: cancel_inflight_def)

lemma cancel_inflight_inv:
  assumes "admin_inv c"
  shows "admin_inv (cancel_inflight c)" "k < length (ac_polls c) \<Longrightarrow> ended (ac_polls (cancel_inflight c) ! k)"
    and "length (ac_polls (cancel_inflight c)) = length (ac_polls c)" "ac_generation (cancel_inflight c) = ac_generation c"
proof -
  have can: "ended (cancel_task p)" for p by (cases "pt_timer p") (simp_all add: ended_def cancel_task_def)
  show len: "length (ac_polls (cancel_inflight c)) = length (ac_polls c)"
    and "ac_generation (cancel_inflight c) = ac_generation c"
    by (simp_all add: cancel_inflight_def)
  consider "ac_polls c = []" | "ac_generation c = int (length (ac_polls c)) + 1"
    | "ac_polls c \<noteq> []" "ac_generation c = int (length (ac_polls c))"
    using assms by (auto simp: admin_inv_def)
  then have "admin_inv (cancel_inflight c) \<and> (k < length (ac_polls c) \<longrightarrow> ended (ac_polls (cancel_inflight c) ! k))"
  proof cases
    case 1
    with assms show ?thesis by (simp add: cancel_inflight_def)
  next
    case 2
    then have e: "ended (ac_polls c ! k)" if "k < length (ac_polls c)" for k
      using assms that by (simp add: admin_inv_def)
    then have "cancel_inflight c = c" by (rule cancel_inflight_ended)
    with assms e show ?thesis by simp
  next
    case 3
    then have "cancel_inflight c = advance (cancel_task (last (ac_polls c))) [] (ac_main c) (ac_sends c) c"
      by (simp add: cancel_inflight_def advance_def Let_def)
    with 3 assms have "admin_inv (cancel_inflight c)" by (simp add: advance_quiet cancel_task_def)
    moreover have "ended (ac_polls (cancel_inflight c) ! k)" if k: "k < length (ac_polls c)"
    proof (cases "k = length (ac_polls c) - 1")
      case True
      with k 3 show ?thesis by (simp add: cancel_inflight_def can)
    next
      case False
      with k 3 assms show ?thesis by (simp add: cancel_inflight_def admin_inv_def)
    qed
    ultimately show ?thesis by blast
  qed
  then show "admin_inv (cancel_inflight c)" "k < length (ac_polls c) \<Longrightarrow> ended (ac_polls (cancel_inflight c) ! k)"
    by blast+
qed

lemma close_conn_inv: "admin_inv c \<Longrightarrow> admin_inv (close_conn c)"
  using cancel_inflight_inv(1) [of c] by (auto simp: close_conn_def admin_inv_def poll_frames_def)

lemma frames_fresh:
  assumes "admin_inv c" "ac_generation c \<le> int n"
  shows "poll_frames n c = []"
  using assms by (fastforce simp: poll_frames_def admin_inv_def filter_empty_conv)

text \<open>A poll that fails before its tasks exist closes the connection; one that starts is the newest.\<close>

lemma failed_poll_inv:
  assumes "admin_inv c" "\<forall>k < length (ac_polls c). ended (ac_polls c ! k)" "abandoned fs"
    and g: "ac_generation c = int (length (ac_polls c))"
  shows "admin_inv (close_conn (c\<lparr>ac_generation := ac_generation c + 1, ac_my_gen := ac_generation c + 1,
    ac_frames := ac_frames c @ map (Pair (length (ac_polls c))) fs\<rparr>))" (is "admin_inv (close_conn ?d)")
proof -
  let ?n = "length (ac_polls c)"
  have d: "cancel_inflight ?d = ?d" by (rule cancel_inflight_ended) (simp add: assms(2))
  define e where "e = ?d\<lparr>ac_main := Closed\<rparr>"
  have e: "ac_polls e = ac_polls c" "ac_generation e = int ?n + 1" "ac_my_gen e = int ?n + 1" "ac_state e = ac_state c"
    "ac_main e = Closed" "ac_frames e = ac_frames c @ map (Pair ?n) fs"
    using g by (simp_all add: e_def)
  have frames: "poll_frames k e = (if k = ?n then fs else poll_frames k c)" for k
    using frames_fresh [OF assms(1), of ?n] g by (auto simp: poll_frames_def e(6) filter_map o_def)
  have "sorted (map fst (ac_frames e))" "\<forall>f \<in> set (ac_frames e). int (fst f) < int ?n + 1"
    using assms(1) g by (fastforce simp: e(6) admin_inv_def sorted_append o_def map_replicate_const)+
  moreover have "shown (ac_polls c ! k) (poll_frames k c)" if "k < ?n" for k using assms(1) that by (simp add: admin_inv_def)
  moreover have "abandoned (poll_frames k c)" if "?n \<le> k" for k using assms(1) that by (simp add: admin_inv_def)
  moreover have "ac_state c = ?n - 1" using assms(1) by (simp add: admin_inv_def)
  ultimately have "admin_inv e" using assms(2,3) by (simp add: admin_inv_def e(1-5) frames)
  then show ?thesis unfolding close_conn_def d e_def .
qed

lemma started_poll_inv:
  assumes "admin_inv c" "\<forall>k < length (ac_polls c). ended (ac_polls c ! k)"
    and g: "ac_generation c = int (length (ac_polls c))"
    and polls: "ac_polls d = ac_polls c @ [new_poll_task num]"
    and fr: "ac_frames d = ac_frames c @ map (Pair (length (ac_polls c))) [WaitingFrame (waiting_frame num), BlankFrame blank_sentinel]"
    and gen: "ac_generation d = ac_generation c + 1" "ac_my_gen d = ac_generation d" "ac_state d = length (ac_polls c)"
  shows "admin_inv d"
proof -
  let ?n = "length (ac_polls c)"
  have frames: "poll_frames k d = poll_frames k c @
      (if k = ?n then [WaitingFrame (waiting_frame num), BlankFrame blank_sentinel] else [])" for k
    by (simp add: poll_frames_def fr)
  have "shown (ac_polls d ! k) (poll_frames k d)" if "k < ?n + 1" for k
  proof (cases "k = ?n")
    case True
    with frames_fresh [OF assms(1), of ?n] g show ?thesis by (simp add: polls frames shown_def new_poll_task_def)
  next
    case False
    with that have "k < ?n" by simp
    with assms(1) False show ?thesis by (simp add: polls frames nth_append admin_inv_def)
  qed
  moreover have "abandoned (poll_frames k d)" if "?n + 1 \<le> k" for k
    using assms(1) that by (simp add: frames admin_inv_def)
  moreover have "sorted (map fst (ac_frames d))" "\<forall>f \<in> set (ac_frames d). int (fst f) < int ?n + 1"
    using assms(1) g by (fastforce simp: fr admin_inv_def sorted_append)+
  moreover have "ended (ac_polls d ! k)" if "k < ?n" for k
    using that assms(2) by (simp add: polls nth_append)
  ultimately show ?thesis using g by (simp add: admin_inv_def polls gen)
qed

lemma begin_poll_inv:
  assumes "admin_inv c" "ac_main c = Receiving"
  shows "admin_inv (begin_poll cid hs waiting_ok blank_ok c)"
proof -
  let ?c = "cancel_inflight c"
  note inv = cancel_inflight_inv(1) [OF assms(1)] and len = cancel_inflight_inv(3,4) [OF assms(1)]
  have all: "\<forall>k < length (ac_polls ?c). ended (ac_polls ?c ! k)"
    using cancel_inflight_inv(2) [OF assms(1)] len by simp
  have g: "ac_generation ?c = int (length (ac_polls ?c))" using assms len by (auto simp: admin_inv_def)
  note closing = failed_poll_inv [OF inv all _ g]
  have ab: "abandoned []" "abandoned [WaitingFrame (waiting_frame num)]" for num by (auto simp: abandoned_def)
  show ?thesis
  proof (cases hs)
    case (Inl e)
    with closing [OF ab(1)] len(2) show ?thesis by (simp add: begin_poll_def Let_def)
  next
    case (Inr host_ids)
    have "admin_inv (begin_poll cid hs True True c)"
      by (rule started_poll_inv [OF inv all g, where num = "int (length host_ids)"])
        (use len Inr in \<open>simp_all add: begin_poll_def Let_def\<close>)
    then show ?thesis
      using closing [OF ab(1)] closing [OF ab(2)] Inr len(2)
      by (cases waiting_ok; cases blank_ok) (simp_all add: begin_poll_def Let_def)
  qed
qed

lemma dispatch_poll_inv:
  assumes "admin_inv c"
  shows "admin_inv (dispatch_poll fails c)"
proof (cases "ac_main c")
  case (Binding cid hs)
  then have ne: "ac_polls c \<noteq> []" and g: "ac_generation c = int (length (ac_polls c))"
    using assms by (auto simp: admin_inv_def)
  note last = last_conv_nth [OF ne]
  obtain es ok where s: "send_requests fails cid hs = (es, ok)" by (cases "send_requests fails cid hs")
  show ?thesis
  proof (cases ok)
    case True
    with Binding s have "dispatch_poll fails c = advance ((last (ac_polls c))\<lparr>pt_timer := Some Sleeping\<rparr>) []
        Receiving (ac_sends c @ es) c"
      by (simp add: dispatch_poll_def advance_def Let_def last)
    with assms ne g show ?thesis by (simp add: advance_quiet)
  next
    case False
    have "admin_inv (c\<lparr>ac_sends := ac_sends c @ es\<rparr>)" using assms by (simp add: admin_inv_def poll_frames_def)
    with False Binding s show ?thesis by (simp add: dispatch_poll_def Let_def close_conn_inv)
  qed
qed (simp_all add: dispatch_poll_def assms)

lemma deliver_inv:
  assumes "admin_inv c"
  shows "admin_inv (deliver render k body ok c)"
proof (cases "k < length (ac_polls c) \<and> pt_consumer (ac_polls c ! k) = Running")
  case True
  then have "\<not> ended (ac_polls c ! k)" by (simp add: ended_def)
  note new = alive_newest [OF assms conjunct1 [OF True] this]
  have end_inv: "admin_inv (set_consumer k Ended c)"
  proof -
    have "set_consumer k Ended c =
        advance ((ac_polls c ! k)\<lparr>pt_consumer := Ended\<rparr>) [] (ac_main c) (ac_sends c) c"
      using new by (simp add: set_consumer_def advance_def Let_def)
    with assms new show ?thesis by (simp add: advance_quiet)
  qed
  show ?thesis
  proof (cases "render body")
    case (Inl e)
    with True new end_inv show ?thesis by (simp add: deliver_def)
  next
    case (Inr frag)
    show ?thesis
    proof (cases "frag \<noteq> [] \<and> \<not> ok")
      case True
      with \<open>k < length (ac_polls c) \<and> pt_consumer (ac_polls c ! k) = Running\<close> Inr new end_inv show ?thesis
        by (simp add: deliver_def)
    next
      case False
      with True Inr new have "deliver render k body ok c = advance ((ac_polls c ! k)\<lparr>pt_consumer := Counting\<rparr>)
          (if frag \<noteq> [] then [RowFrame frag] else []) (ac_main c) (ac_sends c) c"
        by (auto simp: deliver_def set_consumer_def advance_def Let_def)
      with assms new show ?thesis by (auto intro!: advance_inv split: if_splits)
    qed
  qed
qed (use assms in \<open>auto simp: deliver_def\<close>)

text \<open>The sentinel of the newest poll, after its task has moved on.\<close>

lemma emit_sentinel_newest:
  assumes "admin_inv c" "k = length (ac_polls c) - 1" "ac_polls c \<noteq> []" "ac_generation c = int (length (ac_polls c))"
    and "pt_total p = pt_total (ac_polls c ! k)" "pt_completed p = pt_completed (ac_polls c ! k)"
    and "pt_received (ac_polls c ! k) \<le> pt_received p"
  shows "admin_inv (emit_sentinel k k ok (c\<lparr>ac_polls := (ac_polls c)[k := p]\<rparr>))"
proof -
  have k: "k < length (ac_polls c)" using assms(2,3) by (cases "ac_polls c") auto
  have last: "last (ac_polls c) = ac_polls c ! k" using assms(2) last_conv_nth [OF assms(3)] by simp
  have "emit_sentinel k k ok (c\<lparr>ac_polls := (ac_polls c)[k := p]\<rparr>) =
      advance (p\<lparr>pt_completed := pt_completed p \<or> ok\<rparr>)
        (if pt_completed p \<or> \<not> ok then [] else [SentinelFrame (render_sentinel (pt_received p) (pt_total p))])
        (ac_main c) (ac_sends c) c"
    using k assms(2) by (cases p) (auto simp: emit_sentinel_def advance_def Let_def)
  with assms last show ?thesis by (auto intro!: advance_inv split: if_splits)
qed

lemma count_reply_inv:
  assumes "admin_inv c"
  shows "admin_inv (count_reply k ok c)"
proof (cases "k < length (ac_polls c) \<and> pt_consumer (ac_polls c ! k) = Counting")
  case True
  then have "\<not> ended (ac_polls c ! k)" by (simp add: ended_def)
  note new = alive_newest [OF assms conjunct1 [OF True] this]
  let ?p = "(ac_polls c ! k)\<lparr>pt_consumer := Running, pt_received := pt_received (ac_polls c ! k) + 1\<rparr>"
  let ?c = "c\<lparr>ac_polls := (ac_polls c)[k := ?p]\<rparr>"
  have "count_reply k ok c = (if pt_total ?p \<noteq> 0 \<and> pt_received ?p \<ge> pt_total ?p
      then (if sentinel_raises k ok ?c then set_consumer k Ended ?c else emit_sentinel k k ok ?c) else ?c)"
    using True new(4,5) by (simp add: count_reply_def set_consumer_def Let_def is_current_def)
  moreover have "admin_inv (emit_sentinel k k ok ?c)" using assms new by (intro emit_sentinel_newest) simp_all
  moreover have "?c = advance ?p [] (ac_main c) (ac_sends c) c"
    "set_consumer k Ended ?c = advance (?p\<lparr>pt_consumer := Ended\<rparr>) [] (ac_main c) (ac_sends c) c"
    using new(1) True by (simp_all add: advance_def Let_def set_consumer_def)
  then have "admin_inv ?c" "admin_inv (set_consumer k Ended ?c)" using assms new by (simp_all add: advance_quiet)
  ultimately show ?thesis by simp
qed (use assms in \<open>auto simp: count_reply_def\<close>)

lemma grace_elapsed_inv:
  assumes "admin_inv c"
  shows "admin_inv (grace_elapsed k ok c)"
proof (cases "k < length (ac_polls c) \<and> pt_timer (ac_polls c ! k) = Some Sleeping")
  case True
  then have "\<not> ended (ac_polls c ! k)" by (simp add: ended_def)
  note new = alive_newest [OF assms conjunct1 [OF True] this]
  with True assms show ?thesis
    by (simp add: grace_elapsed_def Let_def emit_sentinel_newest is_current_def)
qed (use assms in \<open>auto simp: grace_elapsed_def\<close>)

lemma admin_step_inv: "admin_inv c \<Longrightarrow> admin_inv (admin_step render e c)"
  by (cases e) (simp_all add: begin_poll_inv dispatch_poll_inv deliver_inv count_reply_inv grace_elapsed_inv close_conn_inv)

lemma admin_start_inv: "admin_inv admin_start"
  by (simp add: admin_inv_def admin_start_def abandoned_def poll_frames_def)

interpretation admin: invariant_system "\<lambda>c. c = admin_start" "\<lambda>c d. \<exists>e. d = admin_step render e c" admin_inv
  by unfold_locales (auto simp: admin_step_inv admin_start_inv)

lemma admin_run_inv: "admin_inv (admin_run render evs)"
proof -
  have "(\<lambda>c d. \<exists>e. d = admin_step render e c)\<^sup>*\<^sup>* c (fold (admin_step render) evs c)" for c
    by (induction evs arbitrary: c) (auto intro: converse_rtranclp_into_rtranclp)
  then show ?thesis unfolding admin_run_def
    by (rule admin.steps_inv) (rule admin_start_inv)
qed

text \<open>
  C8: Whatever polls, replies, timers, failing queries and sends and disconnects a connection goes
  through, the frames of different polls are never mixed: the browser sees the polls one after
  the other, and of each the cleared table with its number of hosts first, then only rows and at
  most one sentinel, which tells that poll's number of hosts and no more replies than it received.
\<close>

theorem no_cross_render:
  "sorted (map fst (ac_frames (admin_run render evs))) \<and>
   (\<forall>k < length (ac_polls (admin_run render evs)). let p = ac_polls (admin_run render evs) ! k in
      \<exists>rest. poll_frames k (admin_run render evs) =
        WaitingFrame (waiting_frame (pt_total p)) # BlankFrame blank_sentinel # rest \<and>
        list_all reply_frame rest \<and> length (filter is_sentinel rest) \<le> 1 \<and>
        (\<forall>t. SentinelFrame t \<in> set rest \<longrightarrow> (\<exists>n \<le> pt_received p. t = render_sentinel n (pt_total p))))"
proof -
  have inv: "admin_inv (admin_run render evs)" by (rule admin_run_inv)
  have "of_bool b \<le> (1 :: nat)" for b by simp
  then show ?thesis
    using inv unfolding Let_def by (fastforce simp: admin_inv_def shown_def)
qed

text \<open>Two polls of one host each; the first one's reply and timer come after the second began.\<close>

definition two_polls :: "admin_event list" where
  "two_polls = [PollFrame ''a'' (Inr [''h1'']) True True, Bound (\<lambda>_. False), PollFrame ''b'' (Inr [''h1'']) True True,
     Message 0 ''late'' True, GraceElapsed 0 True, Bound (\<lambda>_. False), Message 1 ''reply'' True, Counted 1 True,
     GraceElapsed 1 True]"

lemma two_polls_frames: "map fst (ac_frames (admin_run Inr two_polls)) = [0, 0, 1, 1, 1, 1]"
  by code_simp

theorem no_cross_render_witness:
  "sorted [0, 0, 1, 1, 1, 1 :: nat] \<and> (\<exists>rest. poll_frames 0 (admin_run Inr two_polls) =
     WaitingFrame (waiting_frame 1) # BlankFrame blank_sentinel # rest \<and> list_all reply_frame rest)"
proof -
  have p: "0 < length (ac_polls (admin_run Inr two_polls))" "pt_total (ac_polls (admin_run Inr two_polls) ! 0) = 1"
    by code_simp+
  note t = no_cross_render [of Inr two_polls, unfolded Let_def]
  have "sorted [0, 0, 1, 1, 1, 1 :: nat]" using conjunct1 [OF t] unfolding two_polls_frames .
  moreover from conjunct2 [OF t] p(1) obtain rest where "poll_frames 0 (admin_run Inr two_polls) =
      WaitingFrame (waiting_frame (pt_total (ac_polls (admin_run Inr two_polls) ! 0))) # BlankFrame blank_sentinel # rest"
    "list_all reply_frame rest" by blast
  ultimately show ?thesis unfolding p(2) by blast
qed

section \<open>The sentinel arrives\<close>

fun sentinel_sent :: "admin_event \<Rightarrow> bool" where
  "sentinel_sent (Counted k ok) = ok"
| "sentinel_sent (GraceElapsed k ok) = ok"
| "sentinel_sent _ = True"

text \<open>The newest poll of an open connection owes no sentinel, and has a timer once it is dispatched.\<close>

definition sentinel_inv :: "admin_conn \<Rightarrow> bool" where
  "sentinel_inv c \<longleftrightarrow> (ac_main c \<noteq> Closed \<and> ac_polls c \<noteq> [] \<longrightarrow>
     (pt_timer (last (ac_polls c)) = Some Elapsed \<longrightarrow> pt_completed (last (ac_polls c))) \<and>
     (pt_total (last (ac_polls c)) \<noteq> 0 \<and> pt_total (last (ac_polls c)) \<le> pt_received (last (ac_polls c)) \<longrightarrow>
        pt_completed (last (ac_polls c))) \<and>
     (ac_main c = Receiving \<longrightarrow> pt_timer (last (ac_polls c)) \<noteq> None))"

lemma sentinel_inv_closed [simp]: "sentinel_inv (close_conn c)"
  by (simp add: sentinel_inv_def close_conn_def)

lemma set_consumer_sentinel:
  assumes "sentinel_inv c" "k = length (ac_polls c) - 1" "ac_polls c \<noteq> []"
  shows "sentinel_inv (set_consumer k t c)"
  using assms by (simp add: sentinel_inv_def set_consumer_def last_list_update last_conv_nth)

lemma sentinel_inv_step:
  assumes "admin_inv c" "sentinel_inv c" "sentinel_sent e"
  shows "sentinel_inv (admin_step render e c)"
proof (cases e)
  case (PollFrame cid queried w b)
  then show ?thesis
    using assms(2) by (auto simp: begin_poll_def Let_def new_poll_task_def split: sum.splits)
       (simp add: sentinel_inv_def)
next
  case (Bound fails)
  show ?thesis
  proof (cases "ac_main c")
    case (Binding cid hs)
    then have "ac_polls c \<noteq> []" using assms(1) by (simp add: admin_inv_def)
    with Bound Binding assms(2) show ?thesis
      by (auto simp: dispatch_poll_def Let_def sentinel_inv_def last_list_update last_conv_nth close_conn_def
          split: prod.splits)
  qed (use Bound assms(2) in \<open>simp_all add: dispatch_poll_def\<close>)
next
  case (Message k body ok)
  show ?thesis
  proof (cases "k < length (ac_polls c) \<and> pt_consumer (ac_polls c ! k) = Running")
    case True
    then have "\<not> ended (ac_polls c ! k)" by (simp add: ended_def)
    note new = alive_newest [OF assms(1) conjunct1 [OF True] this]
    have quiet: "sentinel_inv (set_consumer k t c)" for t
      using assms(2) new(1,2) by (rule set_consumer_sentinel)
    have "sentinel_inv (c\<lparr>ac_frames := fs\<rparr>)" for fs
      using assms(2) by (simp add: sentinel_inv_def)
    then have "sentinel_inv (set_consumer k t (c\<lparr>ac_frames := fs\<rparr>))" for t fs
      by (rule set_consumer_sentinel) (use new(1,2) in simp_all)
    with True Message quiet show ?thesis by (simp add: deliver_def split: sum.splits)
  qed (use Message assms(2) in \<open>auto simp: deliver_def\<close>)
next
  case (Counted k ok)
  show ?thesis
  proof (cases "k < length (ac_polls c) \<and> pt_consumer (ac_polls c ! k) = Counting")
    case True
    then have "\<not> ended (ac_polls c ! k)" by (simp add: ended_def)
    note new = alive_newest [OF assms(1) conjunct1 [OF True] this]
    with True Counted assms(2,3) show ?thesis
      by (auto simp: count_reply_def set_consumer_def sentinel_raises_def emit_sentinel_def Let_def sentinel_inv_def
          last_list_update last_conv_nth)
  qed (use Counted assms(2) in \<open>auto simp: count_reply_def\<close>)
next
  case (GraceElapsed k ok)
  show ?thesis
  proof (cases "k < length (ac_polls c) \<and> pt_timer (ac_polls c ! k) = Some Sleeping")
    case True
    then have "\<not> ended (ac_polls c ! k)" by (simp add: ended_def)
    note new = alive_newest [OF assms(1) conjunct1 [OF True] this]
    with True GraceElapsed assms(2,3) show ?thesis
      by (auto simp: grace_elapsed_def emit_sentinel_def Let_def sentinel_inv_def last_list_update last_conv_nth)
  qed (use GraceElapsed assms(2) in \<open>auto simp: grace_elapsed_def\<close>)
qed (use assms(2) in auto)

lemma admin_run_sentinel:
  assumes "list_all sentinel_sent evs"
  shows "sentinel_inv (admin_run render evs)"
  using assms
proof (induction evs rule: rev_induct)
  case Nil
  show ?case by (simp add: admin_run_def admin_start_def sentinel_inv_def)
next
  case (snoc e evs)
  then show ?case
    using sentinel_inv_step [OF admin_run_inv [of render evs]] by (simp add: admin_run_def)
qed

text \<open>
  C27: Every poll gets its sentinel: while a connection waits for its next frame, the newest
  poll has its timer, the expiry of the grace period leaves exactly one sentinel of the poll on
  the screen, and it is there before that if all hosts have replied. It needs the sends of
  sentinels to succeed; every other send, query and rendering may fail.
\<close>

theorem sentinel_arrives:
  assumes "list_all sentinel_sent evs" "ac_main (admin_run render evs) = Receiving"
    and "ac_polls (admin_run render evs) \<noteq> []"
  shows "let c = admin_run render evs; k = length (ac_polls c) - 1; p = ac_polls c ! k in
    pt_timer p \<noteq> None \<and>
    length (filter is_sentinel (poll_frames k (admin_run render (evs @ [GraceElapsed k True])))) = 1 \<and>
    (0 < pt_total p \<and> pt_total p \<le> pt_received p \<longrightarrow> length (filter is_sentinel (poll_frames k c)) = 1)"
proof -
  let ?c = "admin_run render evs"
  let ?k = "length (ac_polls ?c) - 1"
  let ?d = "admin_run render (evs @ [GraceElapsed ?k True])"
  have k: "?k < length (ac_polls ?c)" using assms(3) by (cases "ac_polls ?c") auto
  have step: "?d = grace_elapsed ?k True ?c" by (simp add: admin_run_def)
  have one: "length (filter is_sentinel (poll_frames k (admin_run render es))) = 1"
    if "k < length (ac_polls (admin_run render es))" "pt_completed (ac_polls (admin_run render es) ! k)" for k es
    using admin_run_inv [of render es] that by (auto simp: admin_inv_def shown_def)
  have inv: "sentinel_inv ?c" using assms(1) by (rule admin_run_sentinel)
  then have timer: "pt_timer (ac_polls ?c ! ?k) \<noteq> None"
    and full: "0 < pt_total (ac_polls ?c ! ?k) \<and> pt_total (ac_polls ?c ! ?k) \<le> pt_received (ac_polls ?c ! ?k) \<Longrightarrow>
      pt_completed (ac_polls ?c ! ?k)"
    and late: "pt_timer (ac_polls ?c ! ?k) = Some Elapsed \<Longrightarrow> pt_completed (ac_polls ?c ! ?k)"
    using assms(2,3) by (auto simp: sentinel_inv_def last_conv_nth)
  have cur: "is_current ?c" using admin_run_inv [of render evs] by (simp add: admin_inv_def is_current_def)
  have "?k < length (ac_polls ?d) \<and> pt_completed (ac_polls ?d ! ?k)"
  proof (cases "pt_timer (ac_polls ?c ! ?k) = Some Sleeping")
    case True
    with k cur show ?thesis unfolding step by (simp add: grace_elapsed_def emit_sentinel_def Let_def is_current_def)
  next
    case False
    with timer have "pt_timer (ac_polls ?c ! ?k) = Some Elapsed"
      by (metis option.exhaust timer_state.exhaust)
    with False k late show ?thesis unfolding step by (simp add: grace_elapsed_def)
  qed
  then have "length (filter is_sentinel (poll_frames ?k ?d)) = 1" by (intro one) simp_all
  with timer full one [OF k] show ?thesis by (simp add: Let_def)
qed

theorem sentinel_arrives_witness:
  "length (filter is_sentinel (poll_frames 0 (admin_run Inr
     ([PollFrame ''a'' (Inr [''h1'', ''h2'']) True True, Bound (\<lambda>_. False), Message 0 ''reply'' False] @ [GraceElapsed 0 True])))) = 1"
proof -
  let ?evs = "[PollFrame ''a'' (Inr [''h1'', ''h2'']) True True, Bound (\<lambda>_. False), Message 0 ''reply'' False]"
  have e: "list_all sentinel_sent ?evs" by simp
  have c: "ac_main (admin_run Inr ?evs) = Receiving" "length (ac_polls (admin_run Inr ?evs)) = 1" by code_simp+
  then have "ac_polls (admin_run Inr ?evs) \<noteq> []" by auto
  from sentinel_arrives [OF e c(1) this] c(2) show ?thesis by (simp add: Let_def)
qed

text \<open>
  The generation guard never fires: the closures of a poll compare the shared counter with
  the shared variable, which the next poll assigns together, so \<open>_is_current\<close> answers True
  to every closure at every moment. What keeps a superseded poll silent is only that its tasks
  have been cancelled.
\<close>

theorem generation_guard_vacuous:
  "is_current (admin_run render evs) \<and>
   list_all ended (butlast (ac_polls (admin_run render evs)))"
proof -
  have "ended (ac_polls (admin_run render evs) ! k)" if "k < length (ac_polls (admin_run render evs)) - 1" for k
    using admin_run_inv [of render evs] that by (auto simp: admin_inv_def)
  then show ?thesis
    using admin_run_inv [of render evs] by (simp add: admin_inv_def is_current_def list_all_length nth_butlast)
qed

text \<open>
  A reply whose rendering raises ends the consumer of the current poll for good: nothing
  that arrives for this poll afterwards is shown or counted.
\<close>

theorem bad_reply_silences_poll:
  assumes "k < length (ac_polls c)" "pt_consumer (ac_polls c ! k) = Running" "is_current c" "render body = Inl e"
  shows "\<forall>msgs. fold (admin_step render) (map (\<lambda>m. Message k m True) msgs) (admin_step render (Message k body ok) c) =
    set_consumer k Ended c"
proof
  fix msgs
  have "fold (admin_step render) (map (\<lambda>m. Message k m True) msgs) (set_consumer k Ended c) = set_consumer k Ended c"
    using assms(1) by (induction msgs) (simp_all add: deliver_def set_consumer_def)
  then show "fold (admin_step render) (map (\<lambda>m. Message k m True) msgs) (admin_step render (Message k body ok) c) =
      set_consumer k Ended c"
    using assms by (simp add: deliver_def)
qed

theorem bad_reply_silences_poll_witness:
  "let render = render_status_row (\<lambda>_. CHR ''?'') (\<lambda>_. []);
       c = admin_run render [PollFrame ''id'' (Inr [''h1'']) True True]
   in fold (admin_step render) (map (\<lambda>m. Message 0 m True) [''{}'']) (admin_step render (Message 0 ''[]'' True) c) = set_consumer 0 Ended c"
proof -
  let ?r = "render_status_row (\<lambda>_. CHR ''?'') (\<lambda>_. [])"
  let ?c = "admin_run ?r [PollFrame ''id'' (Inr [''h1'']) True True]"
  have c: "0 < length (ac_polls ?c)" "pt_consumer (ac_polls ?c ! 0) = Running" "is_current ?c"
    by (simp_all add: admin_run_def admin_start_def begin_poll_def cancel_inflight_def new_poll_task_def is_current_def Let_def)
  have "json_loads (\<lambda>_. CHR ''?'') ''[]'' = Inr (PList [])" by code_simp
  then obtain e where e: "?r ''[]'' = Inl e" by (simp add: render_status_row_def)
  from bad_reply_silences_poll [where render = ?r and k = 0 and c = ?c and body = "''[]''", OF c e] show ?thesis by (simp only: Let_def)
qed

end
