(* ===== verification/InfluxClient.thy ===== *)
theory InfluxClient
  imports PyFormat Config
begin

text \<open>
  \<open>backend/services/influx_client.py\<close>: writing a log line as a point of the time series, and
  the query that reads the lines of a test back. The database itself is a parameter: whether a
  write fails, and the tables a query text answers with (\<open>Flux\<close> says what a text means).
\<close>

definition measurement :: string where
  "measurement = ''test_log''"

text \<open>The point of a line: its bucket and measurement, the tag, and the two fields.\<close>

definition log_point :: "settings \<Rightarrow> string \<Rightarrow> int \<Rightarrow> string \<Rightarrow> effect" where
  "log_point s test_id line_no content =
     InfluxWrite (influx_bucket s) measurement test_id line_no content"

definition write_line ::
    "settings \<Rightarrow> (pyfloat \<Rightarrow> string) \<Rightarrow> pyerr option \<Rightarrow> pyval \<Rightarrow> pyval \<Rightarrow> pyval \<Rightarrow> unit act" where
  "write_line s frepr fails test_id line_no content =
     act_bind (act_lift (require_non_empty_str test_id ''test_id'')) (\<lambda>tid.
     act_bind (act_lift (case line_no of
         PInt n \<Rightarrow> if n < 0 then Inl (ValueError (''line_no must be an int >= 0, got '' @ py_repr frepr line_no))
                   else Inr n
       | _ \<Rightarrow> Inl (ValueError (''line_no must be an int >= 0, got '' @ py_repr frepr line_no)))) (\<lambda>n.
     act_bind (act_lift (case content of
         PStr c \<Rightarrow> Inr c
       | _ \<Rightarrow> Inl (TypeError (''content must be a str, got '' @ type_name content)))) (\<lambda>c.
     call_service fails (log_point s tid n c))))"

definition quoted :: "string \<Rightarrow> string" where
  "quoted s = [CHR 0x22] @ s @ [CHR 0x22]"

definition flux_line :: "string \<Rightarrow> string" where
  "flux_line s = replicate 8 CHR '' '' @ s @ [CHR 0x0A]"

definition flux_query :: "settings \<Rightarrow> string \<Rightarrow> int \<Rightarrow> string" where
  "flux_query s test_id limit = [CHR 0x0A]
     @ flux_line (''from(bucket: '' @ quoted (influx_bucket s) @ '')'')
     @ flux_line (''  |> range(start: -30d)'')
     @ flux_line (''  |> filter(fn: (r) => r._measurement == '' @ quoted measurement @ '')'')
     @ flux_line (''  |> filter(fn: (r) => r.test_id == '' @ quoted test_id @ '')'')
     @ flux_line (''  |> pivot(rowKey: ['' @ quoted ''_time'' @ ''], columnKey: ['' @ quoted ''_field''
                  @ ''], valueColumn: '' @ quoted ''_value'' @ '')'')
     @ flux_line (''  |> sort(columns: ['' @ quoted ''line_no'' @ ''])'')
     @ flux_line (''  |> limit(n: '' @ int_str limit @ '')'')
     @ replicate 8 CHR '' ''"

text \<open>The values of the records of every table, in the order of the answer.\<close>

definition read_lines ::
    "settings \<Rightarrow> (string \<Rightarrow> pydict list list result) \<Rightarrow> pyval \<Rightarrow> pyval \<Rightarrow> pyval list result" where
  "read_lines s query test_id limit =
     ebind (require_non_empty_str test_id ''test_id'') (\<lambda>tid.
     ebind (require_positive_int limit ''limit'') (\<lambda>n.
     ebind (query (flux_query s tid n)) (\<lambda>tables.
     Inr (map (\<lambda>r. dict_get r ''content'' (PStr [])) (concat tables)))))"

section \<open>Writing\<close>

lemma write_line_ok [simp]:
  "\<not> blank tid \<Longrightarrow> write_line s frepr fails (PStr tid) (PInt (int n)) (PStr c) w =
    call_service fails (log_point s tid (int n) c) w"
  by (simp add: write_line_def)

lemma write_line_keeps [keeps_intros]:
  "keeps (\<lambda>w. P (w_db w)) (write_line s frepr fails t n c)"
  unfolding write_line_def
  by (intro keeps_bind keeps_lift) (auto simp: keeps_def call_service_def act_raise_def emit_def split: option.splits)

end
