(* ===== verification/Runners.thy ===== *)
theory Runners
  imports Json Config
begin

text \<open>
  \<open>worker/translation_layer.py\<close>: the two runners that turn the variables of a bundle into the
  configuration file of their framework. The file system is a parameter (which calls fail, with
  an \<open>OSError\<close>).
\<close>

section \<open>The file system\<close>

record fs_env =
  fs_makedirs :: "string \<Rightarrow> string option"
  fs_open :: "string \<Rightarrow> string option"
  fs_isdir :: "string \<Rightarrow> bool"
  fs_isfile :: "string \<Rightarrow> bool"
  fs_listdir :: "string \<Rightarrow> string list result"

definition path_join :: "string \<Rightarrow> string \<Rightarrow> string" where
  "path_join a b = (if startswith b ''/'' then b
     else if a = [] \<or> endswith a ''/'' then a @ b
     else a @ ''/'' @ b)"

definition make_dirs :: "fs_env \<Rightarrow> string \<Rightarrow> unit act" where
  "make_dirs fs path = call_service (map_option OSErr (fs_makedirs fs path)) (MakeDirs path)"

section \<open>Runners\<close>

datatype runner = PytestRunner string pydict | RobotRunner string pydict

text \<open>\<open>Runner.__init__\<close>\<close>

definition Runner :: "(string \<Rightarrow> pydict \<Rightarrow> runner) \<Rightarrow> pyval \<Rightarrow> pyval \<Rightarrow> runner result" where
  "Runner cls test_id variables =
     ebind (require_non_empty_str test_id ''test_id'') (\<lambda>tid.
     ebind (require_mapping variables ''variables'') (\<lambda>vars.
     Inr (cls tid vars)))"

definition config_dir :: "settings \<Rightarrow> fs_env \<Rightarrow> string \<Rightarrow> string act" where
  "config_dir s fs test_id =
     (let path = path_join (test_runs_dir s) test_id
      in act_bind (make_dirs fs path) (\<lambda>_. act_return path))"

text \<open>\<open>open\<close> and the write of the text \<open>render\<close> produces; an \<open>OSError\<close> becomes a \<open>RuntimeError\<close>.\<close>

definition write_text :: "fs_env \<Rightarrow> string \<Rightarrow> string result \<Rightarrow> unit act" where
  "write_text fs out render = (case fs_open fs out of
     Some m \<Rightarrow> act_raise (RuntimeError (''Failed to write config to '' @ out @ '': '' @ m))
   | None \<Rightarrow> act_bind (act_lift render) (\<lambda>body. emit (WriteFile out body)))"

definition invalid_timeout :: "(pyfloat \<Rightarrow> string) \<Rightarrow> pyval \<Rightarrow> pyerr" where
  "invalid_timeout frepr v = ValueError (''Invalid timeout_seconds: '' @ py_str frepr v)"

definition parse_timeout :: "(pyfloat \<Rightarrow> string) \<Rightarrow> pydict \<Rightarrow> int result" where
  "parse_timeout frepr vars =
     (let timeout_str = dict_get vars ''timeout_seconds'' (PStr ''600'')
      in case ebind (py_int timeout_str) (\<lambda>t.
                if t \<le> 0 then Inl (ValueError ''timeout_seconds must be positive'') else Inr t) of
           Inr t \<Rightarrow> Inr t
         | Inl e \<Rightarrow> Inl (if is_input_error e then invalid_timeout frepr timeout_str else e))"

definition pytest_cfg :: "pydict \<Rightarrow> int \<Rightarrow> pyval" where
  "pytest_cfg vars timeout_seconds = PDict
     [(PStr ''markers'', dict_get vars ''markers'' (PList [])),
      (PStr ''target_dut'', dict_get vars ''target_dut'' (PStr [])),
      (PStr ''timeout_seconds'', PInt timeout_seconds),
      (PStr ''extra_args'', dict_get vars ''extra_args'' (PList []))]"

definition robot_lines :: "(pyfloat \<Rightarrow> string) \<Rightarrow> pydict \<Rightarrow> string list result" where
  "robot_lines frepr vars =
     (let first = ''--variable DUT:'' @ py_str frepr (dict_get vars ''target_dut'' (PStr []))
      in ebind (py_list (dict_get vars ''include_tags'' (PList []))) (\<lambda>tags.
         Inr (first # map (\<lambda>t. ''--include '' @ py_str frepr t) tags)))"

definition newline :: char where
  "newline = CHR 0x0A"

fun write_config ::
    "settings \<Rightarrow> fs_env \<Rightarrow> (pyfloat \<Rightarrow> string) \<Rightarrow> runner \<Rightarrow> string act" where
  "write_config s fs frepr (PytestRunner tid vars) =
     act_bind (act_lift (parse_timeout frepr vars)) (\<lambda>timeout_seconds.
     act_bind (config_dir s fs tid) (\<lambda>dir.
     act_bind (write_text fs (path_join dir ''pytest_config.json'')
                 (Inr (json_dump_indented frepr (pytest_cfg vars timeout_seconds)))) (\<lambda>_.
     config_dir s fs tid)))"
| "write_config s fs frepr (RobotRunner tid vars) =
     act_bind (act_lift (robot_lines frepr vars)) (\<lambda>lines.
     act_bind (config_dir s fs tid) (\<lambda>dir.
     act_bind (write_text fs (path_join dir ''robot.args'') (Inr (join [newline] lines))) (\<lambda>_.
     config_dir s fs tid)))"

definition runners :: "(string \<times> (string \<Rightarrow> pydict \<Rightarrow> runner)) list" where
  "runners = [(''pytest'', PytestRunner), (''robot'', RobotRunner)]"

definition get_runner :: "pyval \<Rightarrow> pyval \<Rightarrow> pyval \<Rightarrow> runner result" where
  "get_runner runner_type test_id variables =
     ebind (require_non_empty_str runner_type ''runner_type'') (\<lambda>rt.
     ebind (require_non_empty_str test_id ''test_id'') (\<lambda>_.
     (case map_of runners rt of
        None \<Rightarrow> Inl (KeyError (''Unknown runner_type '' @ [CHR 0x27] @ rt @ [CHR 0x27] @ ''. Known: ''
                  @ py_repr (\<lambda>_. []) (PList (map PStr (sort (map fst runners))))))
      | Some cls \<Rightarrow> Runner cls test_id variables)))"

section \<open>Which runner\<close>

definition runner_test_id :: "runner \<Rightarrow> string" where
  "runner_test_id r = (case r of PytestRunner t _ \<Rightarrow> t | RobotRunner t _ \<Rightarrow> t)"

lemma get_runner_known [simp]:
  assumes "\<not> blank tid"
  shows "get_runner (PStr ''pytest'') (PStr tid) (PDict vars) = Inr (PytestRunner tid vars)"
    and "get_runner (PStr ''robot'') (PStr tid) (PDict vars) = Inr (RobotRunner tid vars)"
proof -
  have "\<not> blank ''pytest''" "\<not> blank ''robot''" by code_simp+
  with assms show "get_runner (PStr ''pytest'') (PStr tid) (PDict vars) = Inr (PytestRunner tid vars)"
    "get_runner (PStr ''robot'') (PStr tid) (PDict vars) = Inr (RobotRunner tid vars)"
    by (simp_all add: get_runner_def runners_def Runner_def)
qed

text \<open>
  A runner is built exactly for a registered type, a test id that is not blank and a mapping
  of variables; every other call raises \<open>TypeError\<close> or \<open>ValueError\<close> on a malformed argument
  and \<open>KeyError\<close> on an unknown type.
\<close>

theorem get_runner_exact:
  "(case get_runner runner_type test_id variables of
      Inr r \<Rightarrow> (\<exists>rt tid vars. runner_type = PStr rt \<and> test_id = PStr tid \<and> variables = PDict vars \<and> \<not> blank tid \<and>
        (rt = ''pytest'' \<and> r = PytestRunner tid vars \<or> rt = ''robot'' \<and> r = RobotRunner tid vars))
    | Inl (KeyError m) \<Rightarrow> (\<exists>rt. runner_type = PStr rt \<and> rt \<notin> {''pytest'', ''robot''})
    | Inl e \<Rightarrow> is_input_error e)"
proof (cases "get_runner runner_type test_id variables")
  case (Inr r)
  then show ?thesis
    by (auto simp: get_runner_def runners_def Runner_def result_simps guard_simps split: option.splits if_splits)
next
  case (Inl e)
  then consider "require_non_empty_str runner_type ''runner_type'' = Inl e"
    | "require_non_empty_str test_id ''test_id'' = Inl e"
    | rt m where "runner_type = PStr rt" "rt \<notin> {''pytest'', ''robot''}" "e = KeyError m"
    | "require_non_empty_str test_id ''test_id'' = Inl e"
    | "require_mapping variables ''variables'' = Inl e"
    by (auto simp: get_runner_def runners_def Runner_def result_simps guard_simps split: option.splits if_splits)
  moreover have "is_input_error e" if "require_non_empty_str v n = Inl e" for v n
    using require_non_empty_str_input [of v n] that by (simp add: raises_only_input_def)
  moreover have "is_input_error e" if "require_mapping v n = Inl e" for v n
    using require_mapping_input [of v n] that by (simp add: raises_only_input_def)
  ultimately have "is_input_error e \<or> (\<exists>m rt. e = KeyError m \<and> runner_type = PStr rt \<and> rt \<notin> {''pytest'', ''robot''})"
    by cases blast+
  with Inl show ?thesis by (cases e) auto
qed

section \<open>What the runners write\<close>

definition disk_ok :: "fs_env \<Rightarrow> bool" where
  "disk_ok fs \<longleftrightarrow> (\<forall>p. fs_makedirs fs p = None \<and> fs_open fs p = None)"

lemma make_dirs_ok [simp]:
  "disk_ok fs \<Longrightarrow> make_dirs fs p w = (Inr (), w\<lparr>w_trace := w_trace w @ [MakeDirs p]\<rparr>)"
  by (simp add: make_dirs_def disk_ok_def)

lemma config_dir_ok [simp]:
  "disk_ok fs \<Longrightarrow> config_dir s fs tid w =
    (Inr (path_join (test_runs_dir s) tid), w\<lparr>w_trace := w_trace w @ [MakeDirs (path_join (test_runs_dir s) tid)]\<rparr>)"
  by (simp add: config_dir_def Let_def act_bind_def act_return_def)

lemma write_text_ok [simp]:
  "disk_ok fs \<Longrightarrow> write_text fs out (Inr body) w = (Inr (), w\<lparr>w_trace := w_trace w @ [WriteFile out body]\<rparr>)"
  by (simp add: write_text_def disk_ok_def emit_def)

definition config_effects :: "string \<Rightarrow> string \<Rightarrow> string \<Rightarrow> effect list" where
  "config_effects dir name body = [MakeDirs dir, WriteFile (path_join dir name) body, MakeDirs dir]"

lemma write_config_robot:
  assumes "disk_ok fs" "robot_lines frepr vars = Inr ls"
  shows "write_config s fs frepr (RobotRunner tid vars) w =
    (Inr (path_join (test_runs_dir s) tid), w\<lparr>w_trace := w_trace w @
       config_effects (path_join (test_runs_dir s) tid) ''robot.args'' (join [newline] ls)\<rparr>)"
  using assms by (simp add: act_bind_def act_lift_def config_effects_def)

lemma write_config_pytest:
  assumes "disk_ok fs" "parse_timeout frepr vars = Inr t"
  shows "write_config s fs frepr (PytestRunner tid vars) w =
    (Inr (path_join (test_runs_dir s) tid), w\<lparr>w_trace := w_trace w @
       config_effects (path_join (test_runs_dir s) tid) ''pytest_config.json''
         (json_dump_indented frepr (pytest_cfg vars t))\<rparr>)"
  using assms by (simp add: act_bind_def act_lift_def config_effects_def)

text \<open>
  On a working file system the robot runner writes one argument file into the directory it
  returns. If neither the device nor a tag contains a line break, its lines are exactly the
  device variable and one \<open>--include\<close> per tag, in the order of the tags.
\<close>

theorem robot_args_lines:
  assumes "disk_ok fs" "dict_get vars ''target_dut'' (PStr []) = PStr dut"
    and "dict_get vars ''include_tags'' (PList []) = PList (map PStr tags)"
    and "newline \<notin> set dut" "\<forall>t \<in> set tags. newline \<notin> set t"
  shows "\<exists>body. write_config s fs frepr (RobotRunner tid vars) w =
      (Inr (path_join (test_runs_dir s) tid), w\<lparr>w_trace := w_trace w @
         config_effects (path_join (test_runs_dir s) tid) ''robot.args'' body\<rparr>) \<and>
    split_on newline body = (''--variable DUT:'' @ dut) # map (\<lambda>t. ''--include '' @ t) tags"
proof -
  let ?ls = "(''--variable DUT:'' @ dut) # map (\<lambda>t. ''--include '' @ t) tags"
  have ls: "robot_lines frepr vars = Inr ?ls"
    using assms by (simp add: robot_lines_def Let_def py_str_def)
  have "split_on newline (join [newline] ?ls) = ?ls"
    using assms(4,5) by (intro split_on_join) (auto simp: newline_def)
  with write_config_robot [OF assms(1) ls] show ?thesis by blast
qed

definition good_fs :: fs_env where
  "good_fs = \<lparr>fs_makedirs = (\<lambda>_. None), fs_open = (\<lambda>_. None), fs_isdir = (\<lambda>_. True),
     fs_isfile = (\<lambda>_. True), fs_listdir = (\<lambda>_. Inr [])\<rparr>"

lemma good_fs_ok: "disk_ok good_fs"
  by (simp add: disk_ok_def good_fs_def)

definition robot_vars :: pydict where
  "robot_vars = [(PStr ''target_dut'', PStr ''dutB''), (PStr ''include_tags'', PList (map PStr [''tagA'', ''tagB'']))]"

theorem robot_args_lines_witness:
  "\<exists>body. fst (write_config default_settings good_fs (\<lambda>_. []) (RobotRunner ''t'' robot_vars) empty_world) =
      Inr (path_join (test_runs_dir default_settings) ''t'') \<and>
    split_on newline body = [''--variable DUT:dutB'', ''--include tagA'', ''--include tagB'']"
proof -
  have d: "dict_get robot_vars ''target_dut'' (PStr []) = PStr ''dutB''"
    "dict_get robot_vars ''include_tags'' (PList []) = PList (map PStr [''tagA'', ''tagB''])"
    by (simp_all add: robot_vars_def dict_get_def)
  have n: "newline \<notin> set ''dutB''" "\<forall>t \<in> set [''tagA'', ''tagB'']. newline \<notin> set t"
    by (simp_all add: newline_def)
  from robot_args_lines [OF good_fs_ok d n, of default_settings "\<lambda>_. []" "''t''" empty_world]
  show ?thesis by auto
qed

text \<open>
  A line break in the device field of the form becomes a line break of the argument file:
  everything after it is read by the framework as an argument of its own.
\<close>

theorem robot_args_injection:
  assumes "disk_ok fs" "dict_get vars ''target_dut'' (PStr []) = PStr (dut @ newline # arg)"
    and "dict_get vars ''include_tags'' (PList []) = PList []" "newline \<notin> set dut" "newline \<notin> set arg"
  shows "\<exists>body. write_config s fs frepr (RobotRunner tid vars) w =
      (Inr (path_join (test_runs_dir s) tid), w\<lparr>w_trace := w_trace w @
         config_effects (path_join (test_runs_dir s) tid) ''robot.args'' body\<rparr>) \<and>
    split_on newline body = [''--variable DUT:'' @ dut, arg]"
proof -
  have ls: "robot_lines frepr vars = Inr [''--variable DUT:'' @ dut @ newline # arg]"
    using assms by (simp add: robot_lines_def Let_def py_str_def)
  have "newline \<notin> set (''--variable DUT:'' @ dut)" using assms(4) by (simp add: newline_def)
  then have "split_on newline ((''--variable DUT:'' @ dut) @ newline # arg) = [''--variable DUT:'' @ dut, arg]"
    by (subst split_on_append) (simp_all only: split_on_no_sep [OF assms(5)] simp_thms)
  then have "split_on newline (join [newline] [''--variable DUT:'' @ dut @ newline # arg]) =
      [''--variable DUT:'' @ dut, arg]" by simp
  with write_config_robot [OF assms(1) ls] show ?thesis by blast
qed

theorem robot_args_injection_witness:
  "\<exists>body. fst (write_config default_settings good_fs (\<lambda>_. [])
      (RobotRunner ''t'' [(PStr ''target_dut'', PStr (''d'' @ newline # ''--dryrun''))]) w) =
      Inr (path_join (test_runs_dir default_settings) ''t'') \<and>
    split_on newline body = [''--variable DUT:d'', ''--dryrun'']"
proof -
  let ?v = "[(PStr ''target_dut'', PStr (''d'' @ newline # ''--dryrun''))]"
  have d: "dict_get ?v ''target_dut'' (PStr []) = PStr (''d'' @ newline # ''--dryrun'')"
    "dict_get ?v ''include_tags'' (PList []) = PList []"
    by (simp_all add: dict_get_def)
  have n: "newline \<notin> set ''d''" "newline \<notin> set ''--dryrun''" by (simp_all add: newline_def)
  from robot_args_injection [OF good_fs_ok d n, of default_settings "\<lambda>_. []" "''t''" w]
  show ?thesis by auto
qed

text \<open>
  C39: The timeout of the pytest configuration is the positive integer the variable denotes, 600
  when it is missing; for every other value a \<open>ValueError\<close> with one message is raised, with one
  exception: exactly a float infinity raises \<open>OverflowError\<close>, which neither the code nor its
  documentation foresees.
\<close>

theorem parse_timeout_exact:
  "(let v = dict_get vars ''timeout_seconds'' (PStr ''600'') in
     (\<forall>t. parse_timeout frepr vars = Inr t \<longleftrightarrow> 0 < t \<and> py_int v = Inr t) \<and>
     ((\<exists>m. parse_timeout frepr vars = Inl (OverflowError m)) \<longleftrightarrow> v = PFloat PInf \<or> v = PFloat NInf) \<and>
     parse_timeout frepr vars \<in> range Inr \<union> range (Inl \<circ> OverflowError) \<union>
       {Inl (ValueError (''Invalid timeout_seconds: '' @ py_str frepr v))}) \<and>
   parse_timeout frepr [] = Inr 600 \<and> parse_timeout frepr [(PStr ''timeout_seconds'', PInt 0)] =
     Inl (ValueError (''Invalid timeout_seconds: 0''))"
proof -
  let ?v = "dict_get vars ''timeout_seconds'' (PStr ''600'')"
  have "(\<exists>m. py_int ?v = Inl (OverflowError m)) \<longleftrightarrow> ?v = PFloat PInf \<or> ?v = PFloat NInf"
    by (cases ?v rule: py_int.cases)
       (auto simp: parse_int_def parse_digits_def Let_def result_simps split: list.splits if_splits)
  moreover have "is_input_error e \<or> (\<exists>m. e = OverflowError m)" if "py_int ?v = Inl e" for e
    using that by (cases ?v rule: py_int.cases)
      (auto simp: parse_int_def parse_digits_def Let_def result_simps split: list.splits if_splits)
  moreover have "\<not> is_input_error (OverflowError m)" for m by simp
  ultimately have "(\<forall>t. parse_timeout frepr vars = Inr t \<longleftrightarrow> 0 < t \<and> py_int ?v = Inr t) \<and>
     ((\<exists>m. parse_timeout frepr vars = Inl (OverflowError m)) \<longleftrightarrow> ?v = PFloat PInf \<or> ?v = PFloat NInf) \<and>
     parse_timeout frepr vars \<in> range Inr \<union> range (Inl \<circ> OverflowError) \<union>
       {Inl (ValueError (''Invalid timeout_seconds: '' @ py_str frepr ?v))}"
    by (cases "py_int ?v") (auto simp: parse_timeout_def invalid_timeout_def Let_def)
  moreover have "parse_timeout frepr [] = Inr 600"
    by (simp add: parse_timeout_def dict_get_def Let_def parse_int_def parse_digits_def digits_def
        strip_def rstrip_by_def is_space_def nat_of_digits_def digit_val_def)
  moreover have "parse_timeout frepr [(PStr ''timeout_seconds'', PInt 0)] = Inl (ValueError (''Invalid timeout_seconds: 0''))"
  proof -
    have "int_str 0 = ''0''" by code_simp
    then have "py_str frepr (PInt 0) = ''0''" by (simp add: py_str_def)
    then show ?thesis by (simp add: parse_timeout_def dict_get_def invalid_timeout_def)
  qed
  ultimately show ?thesis by (simp add: Let_def)
qed

text \<open>
  The file the pytest runner writes is one its container can read: on a working file system
  it decodes, whatever its layout, to the mapping of the four configuration keys, with the
  timeout as an integer, for every set of variables that JSON can carry.
\<close>

theorem pytest_config_readable:
  assumes "disk_ok fs" "parse_timeout frepr vars = Inr t" "jsonable frepr (pytest_cfg vars t)"
  shows "\<exists>body. write_config s fs frepr (PytestRunner tid vars) w =
      (Inr (path_join (test_runs_dir s) tid), w\<lparr>w_trace := w_trace w @
         config_effects (path_join (test_runs_dir s) tid) ''pytest_config.json'' body\<rparr>) \<and>
    json_loads wide body = Inr (pytest_cfg vars t)"
  using write_config_pytest [OF assms(1,2)] json_loads_text [OF assms(3), of wide "Some 2" 0]
  unfolding json_dump_indented_def by blast

definition pytest_vars :: pydict where
  "pytest_vars = [(PStr ''markers'', PList [PStr ''smoke'']), (PStr ''timeout_seconds'', PInt 30)]"

theorem pytest_config_readable_witness:
  "\<exists>body. fst (write_config default_settings good_fs (\<lambda>_. []) (PytestRunner ''t'' pytest_vars) empty_world) =
      Inr (path_join (test_runs_dir default_settings) ''t'') \<and>
    json_loads (\<lambda>_. CHR ''?'') body = Inr (PDict
      [(PStr ''markers'', PList [PStr ''smoke'']), (PStr ''target_dut'', PStr []),
       (PStr ''timeout_seconds'', PInt 30), (PStr ''extra_args'', PList [])])"
proof -
  have t: "parse_timeout (\<lambda>_. []) pytest_vars = Inr 30" by code_simp
  have j: "jsonable (\<lambda>_. []) (pytest_cfg pytest_vars 30)" by code_simp
  have "pytest_cfg pytest_vars 30 = PDict
      [(PStr ''markers'', PList [PStr ''smoke'']), (PStr ''target_dut'', PStr []),
       (PStr ''timeout_seconds'', PInt 30), (PStr ''extra_args'', PList [])]" by code_simp
  with pytest_config_readable [OF good_fs_ok t j, of default_settings "''t''" empty_world "\<lambda>_. CHR ''?''"]
  show ?thesis by auto
qed

end
