(* ===== verification/ArtifactUploader.thy ===== *)
theory ArtifactUploader
  imports QualiClient Runners
begin

text \<open>
  \<open>worker/artifact_uploader.py\<close>: a result file is PUT to Artifactory. Which files exist and
  can be opened is the file-system parameter, the answer of the server the HTTP parameter.
\<close>

definition basename :: "string \<Rightarrow> string" where
  "basename p = last (split_on CHR ''/'' p)"

definition artifact_url :: "settings \<Rightarrow> string \<Rightarrow> string \<Rightarrow> string" where
  "artifact_url s test_id filename =
     artifactory_url s @ ''/'' @ artifactory_repo s @ ''/'' @ test_id @ ''/'' @ filename"

definition upload_artifact ::
    "settings \<Rightarrow> fs_env \<Rightarrow> (string \<Rightarrow> http_outcome) \<Rightarrow> pyval \<Rightarrow> pyval \<Rightarrow> string act" where
  "upload_artifact s fs http test_id file_path =
     act_bind (act_lift (require_non_empty_str test_id ''test_id'')) (\<lambda>tid.
     act_bind (act_lift (require_non_empty_str file_path ''file_path'')) (\<lambda>path.
     if \<not> fs_isfile fs path then act_raise (FileNotFoundError (''artifact not found: '' @ path))
     else
       (let url = artifact_url s tid (basename path)
        in case fs_open fs path of
             Some m \<Rightarrow> act_raise (OSErr m)
           | None \<Rightarrow>
               (case http url of
                  NoResponse m \<Rightarrow> act_raise (ServiceError m)
                | Status code \<Rightarrow>
                    act_bind (emit (HttpPut url)) (\<lambda>_.
                    act_bind (act_lift (raise_for_status code)) (\<lambda>_. act_return url))))))"

lemma upload_artifact_keeps [keeps_intros]:
  "keeps (\<lambda>w. P (w_db w)) (upload_artifact s fs http t p)"
  unfolding upload_artifact_def
  by (intro keeps_bind keeps_lift)
     (auto simp: keeps_def act_raise_def act_bind_def emit_def act_lift_def act_return_def Let_def
       split: option.splits http_outcome.splits sum.splits)

lemma basename_join:
  assumes "CHR ''/'' \<notin> set name"
  shows "basename (path_join dir name) = name"
proof -
  have last: "last (split_on CHR ''/'' (d @ CHR ''/'' # name)) = name" for d
    using assms by (simp add: split_on_at split_on_no_sep)
  show ?thesis
  proof (cases "startswith name ''/''")
    case True
    with assms show ?thesis by (cases name) (auto simp: startswith_def)
  next
    case False
    show ?thesis
    proof (cases "dir = [] \<or> endswith dir ''/''")
      case True
      then consider "dir = []" | d where "dir = d @ ''/''"
        by (cases dir rule: rev_cases) (auto simp: endswith_def startswith_def)
      then show ?thesis
        using False True assms last by cases (simp_all add: path_join_def basename_def split_on_no_sep)
    next
      case no: False
      with False show ?thesis using last [of dir] by (simp add: path_join_def basename_def)
    qed
  qed
qed

lemma artifact_url_inj: "artifact_url s t f = artifact_url s t g \<longleftrightarrow> f = g"
  by (simp add: artifact_url_def)

end
