(* ===== verification/DockerEngine.thy ===== *)
theory DockerEngine
  imports Runners
begin

text \<open>
  \<open>worker/docker_engine.py\<close>: the life of a test container. The Docker daemon is a parameter:
  which calls raise, the names of the running containers, and what a container prints and
  returns.
\<close>

record docker_env =
  dk_client :: "pyerr option"
  dk_run :: "string \<Rightarrow> pyerr option"
  dk_get :: "string \<Rightarrow> pyerr option"
  dk_remove :: "string \<Rightarrow> pyerr option"
  dk_running :: "string list result"
  dk_output :: "string list"
  dk_output_fails :: "pyerr option"
  dk_wait :: "pydict result"

definition container_prefix :: string where
  "container_prefix = ''test_''"

definition container_name :: "pyval \<Rightarrow> string result" where
  "container_name test_id =
     ebind (require_non_empty_str test_id ''test_id'') (\<lambda>tid. Inr (container_prefix @ tid))"

text \<open>\<open>volumes[path] = spec\<close> on the dictionary of mounts.\<close>

fun volume_set :: "(string \<times> string \<times> string) list \<Rightarrow> string \<times> string \<times> string \<Rightarrow> (string \<times> string \<times> string) list" where
  "volume_set [] v = [v]"
| "volume_set (u # us) v = (if fst u = fst v then v # us else u # volume_set us v)"

definition not_directory :: "string \<Rightarrow> string \<Rightarrow> pyerr" where
  "not_directory what path = ValueError (what @ '' is not a readable directory: '' @ path)"

definition container_labels :: "pyval \<Rightarrow> (string \<times> pyval) list" where
  "container_labels test_id = [(''managed-by'', PStr ''test_orch''), (''test-id'', test_id)]"

definition start_test_container ::
    "settings \<Rightarrow> fs_env \<Rightarrow> docker_env \<Rightarrow> pyval \<Rightarrow> pyval \<Rightarrow> pyval \<Rightarrow> string option \<Rightarrow> string act" where
  "start_test_container s fs dk framework_image cfg_dir test_id output_dir =
     act_bind (act_lift (require_non_empty_str framework_image ''image'')) (\<lambda>img.
     act_bind (act_lift (require_non_empty_str cfg_dir ''config_dir'')) (\<lambda>cfg.
     if \<not> fs_isdir fs cfg then act_raise (not_directory ''config_dir'' cfg)
     else
       (let volumes = [(cfg, ''/config'', ''ro'')]
        in act_bind (act_lift (case output_dir of
               None \<Rightarrow> Inr volumes
             | Some out \<Rightarrow>
                 if out = [] then Inr volumes
                 else if \<not> fs_isdir fs out then Inl (not_directory ''output_dir'' out)
                 else Inr (volume_set volumes (out, ''/artifacts'', ''rw'')))) (\<lambda>volumes.
           act_bind (act_lift (container_name test_id)) (\<lambda>name.
           act_bind (call_service (dk_run dk name)
                       (DockerRun img name (docker_network_mode s) volumes (container_labels test_id))) (\<lambda>_.
           act_return name))))))"

definition stream_logs :: "string list \<Rightarrow> string list" where
  "stream_logs raws = map (rstrip_by (\<lambda>c. c = newline)) raws"

definition active_test_container_count :: "docker_env \<Rightarrow> int result" where
  "active_test_container_count dk =
     ebind (dk_running dk) (\<lambda>names. Inr (int (length (filter (\<lambda>n. startswith n container_prefix) names))))"

definition cleanup :: "docker_env \<Rightarrow> pyval \<Rightarrow> unit act" where
  "cleanup dk test_id =
     act_bind (act_lift (container_name test_id)) (\<lambda>name.
     act_catch
       (act_bind (case dk_get dk name of None \<Rightarrow> act_return () | Some e \<Rightarrow> act_raise e) (\<lambda>_.
        call_service (dk_remove dk name) (DockerRemove name)))
       (\<lambda>e. if e = DockerNotFound then act_return () else act_raise e))"

section \<open>Names and counts\<close>

lemma container_name_ok [simp]: "\<not> blank tid \<Longrightarrow> container_name (PStr tid) = Inr (container_prefix @ tid)"
  by (simp add: container_name_def)

lemma container_name_counted: "container_name v = Inr n \<Longrightarrow> startswith n container_prefix"
  by (auto simp: container_name_def result_simps)

lemma start_test_container_ok:
  assumes "\<not> blank img" "\<not> blank cfg" "\<not> blank tid" "fs_isdir fs cfg" "fs_isdir fs out" "out \<noteq> []" "out \<noteq> cfg"
    and "dk_run dk (container_prefix @ tid) = None"
  shows "start_test_container s fs dk (PStr img) (PStr cfg) (PStr tid) (Some out) w =
    (Inr (container_prefix @ tid), w\<lparr>w_trace := w_trace w @
      [DockerRun img (container_prefix @ tid) (docker_network_mode s)
         [(cfg, ''/config'', ''ro''), (out, ''/artifacts'', ''rw'')]
         [(''managed-by'', PStr ''test_orch''), (''test-id'', PStr tid)]]\<rparr>)"
  using assms by (simp add: container_labels_def start_test_container_def act_bind_def act_lift_def act_return_def)

lemma start_test_container_keeps [keeps_intros]:
  "keeps (\<lambda>w. P (w_db w)) (start_test_container s fs dk i c t out)"
  unfolding start_test_container_def Let_def
  by (intro keeps_bind keeps_lift)
     (auto simp: keeps_def act_raise_def act_bind_def emit_def act_lift_def act_return_def call_service_def
       split: option.splits sum.splits)

text \<open>Whatever cleanup does, it never touches the database.\<close>

lemma cleanup_keeps [keeps_intros]: "keeps (\<lambda>w. P (w_db w)) (cleanup dk v)"
  unfolding cleanup_def
  by (intro keeps_intros)
     (auto simp: keeps_def act_raise_def act_bind_def emit_def act_return_def call_service_def
       split: option.splits)

lemma cleanup_gone:
  assumes "\<not> blank tid" "dk_get dk (container_prefix @ tid) = Some DockerNotFound"
  shows "cleanup dk (PStr tid) w = (Inr (), w)"
  using assms by (simp add: cleanup_def act_catch_def act_return_def)

lemma cleanup_removes:
  assumes "\<not> blank tid" "dk_get dk (container_prefix @ tid) = None" "dk_remove dk (container_prefix @ tid) = None"
  shows "cleanup dk (PStr tid) w = (Inr (), w\<lparr>w_trace := w_trace w @ [DockerRemove (container_prefix @ tid)]\<rparr>)"
  using assms by (simp add: cleanup_def act_catch_def)

end
