(* ===== verification/Tasks.thy ===== *)
theory Tasks
  imports Maintenance HostStats InfluxClient ArtifactUploader DockerEngine "HOL-Library.Sublist"
begin

text \<open>
  \<open>worker/tasks.py\<close>: the Celery tasks of a worker host. A run is one pass over its external
  calls in the order of the code; which of them fail, and what other transactions commit while
  the container runs, is the run's environment.
\<close>

section \<open>Status and capacity\<close>

definition publish_fanout :: "pyerr option \<Rightarrow> string \<Rightarrow> string \<Rightarrow> unit act" where
  "publish_fanout fails exchange body = call_service fails (PublishFanout exchange body)"

definition publish_log_line :: "pyerr option \<Rightarrow> string \<Rightarrow> string \<Rightarrow> unit act" where
  "publish_log_line fails test_id line = publish_fanout fails (''test_logs.'' @ test_id) line"

definition publish_stats_reply :: "pyerr option \<Rightarrow> string \<Rightarrow> string \<Rightarrow> unit act" where
  "publish_stats_reply fails correlation_id body = publish_fanout fails (''host_status.'' @ correlation_id) body"

definition status_fields :: "test_status \<Rightarrow> string option \<Rightarrow> string option \<Rightarrow> test_execution \<Rightarrow> test_execution" where
  "status_fields status target_host_id artifact r =
     r\<lparr>te_status := status_value status,
       te_target_host_id := (case target_host_id of None \<Rightarrow> te_target_host_id r | Some h \<Rightarrow> Some h),
       te_artifact_url := (case artifact of None \<Rightarrow> te_artifact_url r | Some u \<Rightarrow> Some u)\<rparr>"

definition set_status ::
    "pyerr option \<Rightarrow> int \<Rightarrow> string \<Rightarrow> test_status \<Rightarrow> string option \<Rightarrow> string option \<Rightarrow> unit act" where
  "set_status commit_err now test_id status target_host_id artifact =
     act_bind (act_lift (require_non_empty_str (PStr test_id) ''test_id'')) (\<lambda>_.
     act_bind get_db (\<lambda>d.
     act_bind (act_lift (find_by te_test_id test_id (executions d))) (\<lambda>found. case found of
       None \<Rightarrow> act_return ()
     | Some row \<Rightarrow>
         commit commit_err (set_executions
           (update_by te_test_id test_id (touch (Aware now) (status_fields status target_host_id artifact)))))))"

definition decrement_active_containers :: "pyerr option \<Rightarrow> string \<Rightarrow> unit act" where
  "decrement_active_containers commit_err host_id =
     act_bind get_db (\<lambda>d.
     act_bind (act_lift (find_by wh_host_id host_id (hosts d))) (\<lambda>found. case found of
       None \<Rightarrow> act_return ()
     | Some host \<Rightarrow>
         if wh_active_containers host > 0
         then commit commit_err (set_hosts (update_by wh_host_id host_id
                (\<lambda>h. h\<lparr>wh_active_containers := wh_active_containers host - 1\<rparr>)))
         else act_return ()))"

section \<open>A run\<close>

record run_env =
  rn_init_db :: "pyerr option"
  rn_docker :: docker_env
  rn_influx_open :: "pyerr option"
  rn_fs :: fs_env
  rn_frepr :: "pyfloat \<Rightarrow> string"
  rn_commit :: "test_status \<Rightarrow> pyerr option"
  rn_now :: int
  rn_others :: "db \<Rightarrow> db"
  rn_influx_write :: "nat \<Rightarrow> pyerr option"
  rn_publish :: "nat \<Rightarrow> pyerr option"
  rn_checkpoint :: "nat \<Rightarrow> pyerr option"
  rn_put :: "string \<Rightarrow> http_outcome"
  rn_quali :: "string \<Rightarrow> http_outcome"
  rn_decrement :: "pyerr option"
  rn_influx_close :: "pyerr option"

definition log_checkpoint_every :: nat where
  "log_checkpoint_every = 25"

definition add_log_line :: "int \<Rightarrow> string \<Rightarrow> nat \<Rightarrow> string \<Rightarrow> db \<Rightarrow> db" where
  "add_log_line now test_id line_no line d =
     d\<lparr>log_lines := log_lines d @ [\<lparr>ll_id = next_id d, ll_test_id = test_id, ll_line_no = int line_no,
         ll_content = line, ll_created_at = Aware now\<rparr>], next_id := next_id d + 1\<rparr>"

text \<open>The loop over the streamed lines, from the line number \<open>n\<close> on.\<close>

fun pump_lines :: "settings \<Rightarrow> run_env \<Rightarrow> string \<Rightarrow> nat \<Rightarrow> string list \<Rightarrow> unit act" where
  "pump_lines s env test_id n [] = service (dk_output_fails (rn_docker env))"
| "pump_lines s env test_id n (line # rest) =
     act_bind (write_line s (rn_frepr env) (rn_influx_write env n) (PStr test_id) (PInt (int n)) (PStr line)) (\<lambda>_.
     act_bind (publish_log_line (rn_publish env n) test_id line) (\<lambda>_.
     act_bind (if n mod log_checkpoint_every = 0
               then commit (rn_checkpoint env n) (add_log_line (rn_now env) test_id n line)
               else act_return ()) (\<lambda>_.
     pump_lines s env test_id (Suc n) rest)))"

definition artifact_suffixes :: "string list" where
  "artifact_suffixes = [''.log'', ''.dmp'', ''.core'', ''.tar.gz'']"

definition is_artifact :: "string \<Rightarrow> bool" where
  "is_artifact fname \<longleftrightarrow> list_ex (endswith fname) artifact_suffixes"

text \<open>Each upload is tried; one that fails is logged and skipped.\<close>

fun upload_each :: "settings \<Rightarrow> run_env \<Rightarrow> string \<Rightarrow> string \<Rightarrow> string list \<Rightarrow> string list act" where
  "upload_each s env test_id output_dir [] = act_return []"
| "upload_each s env test_id output_dir (fname # rest) =
     act_bind
       (if is_artifact fname
        then act_catch
               (act_bind (upload_artifact s (rn_fs env) (rn_put env) (PStr test_id)
                            (PStr (path_join output_dir fname))) (\<lambda>url. act_return [url]))
               (\<lambda>_. act_return [])
        else act_return []) (\<lambda>urls.
     act_bind (upload_each s env test_id output_dir rest) (\<lambda>more. act_return (urls @ more)))"

definition exit_code :: "pydict \<Rightarrow> pyval" where
  "exit_code result = dict_get result ''StatusCode'' (PInt 1)"

definition final_status :: "pyval \<Rightarrow> test_status" where
  "final_status code = (if key_eq code (PInt 0) then PASSED else FAILED)"

definition output_dir_of :: "settings \<Rightarrow> string \<Rightarrow> string" where
  "output_dir_of s test_id = path_join (path_join (test_runs_dir s) test_id) ''artifacts''"

text \<open>
  The body of the \<open>try\<close> block: up to the collected artifacts, and the recording of the result.
\<close>

definition run_container :: "settings \<Rightarrow> run_env \<Rightarrow> test_bundle \<Rightarrow> (pydict \<times> string list) act" where
  "run_container s env req =
     (let test_id = tb_test_id req; output_dir = output_dir_of s (tb_test_id req) in
     act_bind (act_lift (get_runner (PStr (tb_runner_type req)) (PStr test_id) (PDict (tb_runner_variables req)))) (\<lambda>runner.
     act_bind (write_config s (rn_fs env) (rn_frepr env) runner) (\<lambda>dir.
     act_bind (make_dirs (rn_fs env) output_dir) (\<lambda>_.
     act_bind (start_test_container s (rn_fs env) (rn_docker env) (PStr (tb_framework_image req)) (PStr dir)
                 (PStr test_id) (Some output_dir)) (\<lambda>container.
     act_bind (pump_lines s env test_id 0 (stream_logs (dk_output (rn_docker env)))) (\<lambda>_.
     act_bind (act_lift (dk_wait (rn_docker env))) (\<lambda>result.
     act_bind (act_lift (fs_listdir (rn_fs env) output_dir)) (\<lambda>fnames.
     act_bind (upload_each s env test_id output_dir fnames) (\<lambda>artifact_urls.
     act_return (result, artifact_urls))))))))))"

definition record_result :: "run_env \<Rightarrow> string \<Rightarrow> pydict \<times> string list \<Rightarrow> string act" where
  "record_result env test_id = (\<lambda>(result, artifact_urls).
     (let artifact = (case artifact_urls of [] \<Rightarrow> None | url # _ \<Rightarrow> Some url);
          final = final_status (exit_code result)
      in act_bind (set_status (rn_commit env final) (rn_now env) test_id final None artifact) (\<lambda>_.
         act_return (status_value final))))"

definition run_body :: "settings \<Rightarrow> run_env \<Rightarrow> test_bundle \<Rightarrow> string act" where
  "run_body s env req = act_bind (run_container s env req) (record_result env (tb_test_id req))"

definition run_crashed :: "settings \<Rightarrow> run_env \<Rightarrow> test_bundle \<Rightarrow> pyerr \<Rightarrow> string act" where
  "run_crashed s env req exc =
     act_bind (set_status (rn_commit env FAILED) (rn_now env) (tb_test_id req) FAILED None None) (\<lambda>_.
     act_bind (best_effort_release s (rn_quali env) (tb_quali_reservation_id req)) (\<lambda>_.
     act_raise exc))"

definition run_cleanup :: "settings \<Rightarrow> run_env \<Rightarrow> test_bundle \<Rightarrow> unit act" where
  "run_cleanup s env req =
     act_bind (cleanup (rn_docker env) (PStr (tb_test_id req))) (\<lambda>_.
     act_bind (decrement_active_containers (rn_decrement env) (worker_host_id s)) (\<lambda>_.
     call_service (rn_influx_close env) InfluxClose))"

definition run_test_bundle :: "settings \<Rightarrow> run_env \<Rightarrow> pyval \<Rightarrow> string act" where
  "run_test_bundle s env bundle =
     act_bind (act_lift (from_dict bundle)) (\<lambda>req.
     act_bind (service (rn_init_db env)) (\<lambda>_.
     act_bind (service (dk_client (rn_docker env))) (\<lambda>_.
     act_bind (service (rn_influx_open env)) (\<lambda>_.
     act_bind (set_status (rn_commit env RUNNING) (rn_now env) (tb_test_id req) RUNNING (Some (worker_host_id s)) None) (\<lambda>_.
     act_finally
       (act_catch (act_bind (put_db (rn_others env)) (\<lambda>_. run_body s env req)) (run_crashed s env req))
       (run_cleanup s env req))))))"

section \<open>What a run leaves alone\<close>

lemma keeps_service [keeps_intros]: "keeps I (service err)"
  by (auto simp: keeps_def service_def act_return_def act_raise_def split: option.splits)

lemma keeps_call_db [keeps_intros]: "keeps (\<lambda>w. P (w_db w)) (call_service err e)"
  by (auto simp: keeps_def call_service_def act_raise_def emit_def split: option.splits)

lemma keeps_commit_db: "(\<And>d. P d \<Longrightarrow> P (f d)) \<Longrightarrow> keeps (\<lambda>w. P (w_db w)) (commit err f)"
  by (auto simp: keeps_def split: option.splits) (cases err; simp)

lemma keeps_put_db: "(\<And>d. P d \<Longrightarrow> P (f d)) \<Longrightarrow> keeps (\<lambda>w. P (w_db w)) (put_db f)"
  by (simp add: keeps_def put_db_def)

lemma make_dirs_keeps [keeps_intros]: "keeps (\<lambda>w. P (w_db w)) (make_dirs fs p)"
  unfolding make_dirs_def by (rule keeps_call_db)

lemma write_config_keeps [keeps_intros]: "keeps (\<lambda>w. P (w_db w)) (write_config s fs frepr r)"
proof -
  have out: "keeps (\<lambda>w. P (w_db w)) (write_text fs p t)" for p t
    by (auto simp: write_text_def keeps_def act_raise_def act_bind_def act_lift_def emit_def
        split: option.splits sum.splits)
  have dir: "keeps (\<lambda>w. P (w_db w)) (config_dir s fs tid)" for tid
    unfolding config_dir_def Let_def by (intro keeps_intros)
  show ?thesis by (cases r) (simp_all add: keeps_bind keeps_lift out dir)
qed

lemma pump_lines_keeps:
  assumes "\<And>n l d. P d \<Longrightarrow> P (add_log_line (rn_now env) tid n l d)"
  shows "keeps (\<lambda>w. P (w_db w)) (pump_lines s env tid n ls)"
  using assms
  by (induction ls arbitrary: n)
     (simp_all add: keeps_service keeps_bind write_line_keeps publish_log_line_def publish_fanout_def
       keeps_call_db keeps_commit_db keeps_return)

lemma upload_each_keeps [keeps_intros]: "keeps (\<lambda>w. P (w_db w)) (upload_each s env tid out fs)"
  by (induction fs) (simp_all add: keeps_bind keeps_return keeps_catch upload_artifact_keeps)

lemma release_keeps [keeps_intros]: "keeps (\<lambda>w. P (w_db w)) (best_effort_release s http rid)"
  by (simp add: keeps_def best_effort_release_result)

lemma set_status_keeps:
  assumes "\<And>f d. (\<And>r. te_test_id (f r) = te_test_id r) \<Longrightarrow> P d \<Longrightarrow>
      P (set_executions (update_by te_test_id tid f) d)"
  shows "keeps (\<lambda>w. P (w_db w)) (set_status err now tid st host art)"
  unfolding set_status_def
  by (intro keeps_intros; split option.split; intro conjI allI impI keeps_return keeps_commit_db assms)
     (simp_all add: status_fields_def)

lemma run_container_keeps:
  assumes "\<And>n l d. P d \<Longrightarrow> P (add_log_line (rn_now env) (tb_test_id req) n l d)"
  shows "keeps (\<lambda>w. P (w_db w)) (run_container s env req)"
  unfolding run_container_def Let_def
  by (intro keeps_intros pump_lines_keeps assms)

lemma run_body_keeps:
  assumes "\<And>n l d. P d \<Longrightarrow> P (add_log_line (rn_now env) (tb_test_id req) n l d)"
    and "\<And>f d. (\<And>r. te_test_id (f r) = te_test_id r) \<Longrightarrow> P d \<Longrightarrow>
      P (set_executions (update_by te_test_id (tb_test_id req) f) d)"
  shows "keeps (\<lambda>w. P (w_db w)) (run_body s env req)"
  unfolding run_body_def record_result_def Let_def split_def
  by (intro keeps_intros run_container_keeps set_status_keeps assms)

lemma run_crashed_keeps:
  assumes "\<And>f d. (\<And>r. te_test_id (f r) = te_test_id r) \<Longrightarrow> P d \<Longrightarrow>
      P (set_executions (update_by te_test_id (tb_test_id req) f) d)"
  shows "keeps (\<lambda>w. P (w_db w)) (run_crashed s env req e)"
  unfolding run_crashed_def
  by (intro keeps_intros set_status_keeps assms)

lemma add_log_line_simps [simp]:
  "hosts (add_log_line now t n l d) = hosts d" "executions (add_log_line now t n l d) = executions d"
  "users (add_log_line now t n l d) = users d" "sessions (add_log_line now t n l d) = sessions d"
  by (simp_all add: add_log_line_def)

text \<open>The guarded part of a run: the body, and the handler when it raises.\<close>

definition run_guarded :: "settings \<Rightarrow> run_env \<Rightarrow> test_bundle \<Rightarrow> string act" where
  "run_guarded s env req =
     act_catch (act_bind (put_db (rn_others env)) (\<lambda>_. run_body s env req)) (run_crashed s env req)"

lemma act_catch_bind_put: "act_catch (act_bind (put_db f) k) h w = act_catch (k ()) h (w\<lparr>w_db := f (w_db w)\<rparr>)"
  by (simp add: act_catch_def)

lemma run_guarded_keeps:
  assumes "\<And>n l d. P d \<Longrightarrow> P (add_log_line (rn_now env) (tb_test_id req) n l d)"
    and "\<And>f d. (\<And>r. te_test_id (f r) = te_test_id r) \<Longrightarrow> P d \<Longrightarrow>
      P (set_executions (update_by te_test_id (tb_test_id req) f) d)"
    and "P (rn_others env (w_db w))"
  shows "P (w_db (snd (run_guarded s env req w)))"
proof -
  have "keeps (\<lambda>w. P (w_db w)) (act_catch (run_body s env req) (run_crashed s env req))"
    by (intro keeps_catch run_body_keeps run_crashed_keeps assms)
  with assms(3) show ?thesis
    by (simp add: run_guarded_def act_catch_bind_put keeps_def)
qed

text \<open>The task once its bundle is decoded and its clients are open.\<close>

definition run_opens :: "run_env \<Rightarrow> bool" where
  "run_opens env \<longleftrightarrow> rn_init_db env = None \<and> dk_client (rn_docker env) = None \<and> rn_influx_open env = None \<and>
     rn_commit env RUNNING = None"

lemma service_None [simp]: "act_bind (service None) k w = k () w"
  by (simp add: service_def)

lemma set_status_ok:
  assumes "\<not> blank tid" "unique_by te_test_id (executions (w_db w))"
  shows "set_status None now tid st host art w = (Inr (), w\<lparr>w_db := set_executions
    (update_by te_test_id tid (touch (Aware now) (status_fields st host art))) (w_db w)\<rparr>)"
proof -
  obtain x where x: "find_by te_test_id tid (executions (w_db w)) = Inr x"
    using execution_table.find_total [OF assms(2)] by blast
  have "update_by te_test_id tid f (executions (w_db w)) = executions (w_db w)" if "x = None" for f
    using x that find_by_None [OF assms(2), of tid] by (intro update_by_id_on) auto
  then have none: "set_executions (update_by te_test_id tid f) (w_db w) = w_db w" if "x = None" for f
    using that by (simp add: set_executions_def)
  show ?thesis
    using assms(1) x none by (cases x) (simp_all add: set_status_def act_return_def)
qed

lemma run_test_bundle_opens:
  assumes "from_dict bundle = Inr req" "run_opens env" "unique_by te_test_id (executions (w_db w))"
  shows "run_test_bundle s env bundle w = act_finally (run_guarded s env req) (run_cleanup s env req)
    (w\<lparr>w_db := set_executions (update_by te_test_id (tb_test_id req)
       (touch (Aware (rn_now env)) (status_fields RUNNING (Some (worker_host_id s)) None))) (w_db w)\<rparr>)"
proof -
  have "\<not> blank (tb_test_id req)" using from_dict_valid [OF assms(1)] by (simp add: valid_bundle_def)
  note step = act_bind_step [where m = "set_status None (rn_now env) (tb_test_id req) RUNNING (Some (worker_host_id s)) None",
      OF set_status_ok [OF this assms(3)]]
  show ?thesis
    using assms(1,2) by (simp add: run_test_bundle_def run_opens_def step run_guarded_def)
qed

section \<open>The reserved slot\<close>

definition release_one :: "worker_host \<Rightarrow> worker_host" where
  "release_one h = (if wh_active_containers h > 0
     then h\<lparr>wh_active_containers := wh_active_containers h - 1\<rparr> else h)"

lemma release_one_fields [simp]:
  "wh_host_id (release_one h) = wh_host_id h" "wh_id (release_one h) = wh_id h"
  by (simp_all add: release_one_def)

lemma decrement_ok:
  assumes "unique_by wh_host_id (hosts (w_db w))"
  shows "decrement_active_containers None hid w =
    (Inr (), w\<lparr>w_db := set_hosts (update_by wh_host_id hid release_one) (w_db w)\<rparr>)"
proof -
  let ?hs = "hosts (w_db w)"
  obtain x where x: "find_by wh_host_id hid ?hs = Inr x"
    using host_table.find_total [OF assms] by blast
  show ?thesis
  proof (cases x)
    case None
    then have "update_by wh_host_id hid release_one ?hs = ?hs"
      using x find_by_None [OF assms, of hid] by (intro update_by_id_on) auto
    with x None show ?thesis by (simp add: decrement_active_containers_def act_return_def set_hosts_def)
  next
    case (Some h)
    with x have h: "h \<in> set ?hs" "wh_host_id h = hid" by (simp_all add: find_by_Some [OF assms])
    have same: "g = h" if "g \<in> set ?hs" "wh_host_id g = hid" for g
      using that h assms by (auto simp: unique_by_def dest: distinct_map_eq)
    show ?thesis
    proof (cases "wh_active_containers h > 0")
      case True
      have "update_by wh_host_id hid (\<lambda>g. g\<lparr>wh_active_containers := wh_active_containers h - 1\<rparr>) ?hs =
          update_by wh_host_id hid release_one ?hs"
        using same True by (intro update_by_cong_on) (auto simp: release_one_def)
      with True x Some show ?thesis by (simp add: decrement_active_containers_def set_hosts_def)
    next
      case False
      have "update_by wh_host_id hid release_one ?hs = ?hs"
        using same False by (intro update_by_id_on) (auto simp: release_one_def)
      with False x Some show ?thesis
        by (simp add: decrement_active_containers_def set_hosts_def act_return_def)
    qed
  qed
qed

definition cleanup_ok :: "docker_env \<Rightarrow> string \<Rightarrow> bool" where
  "cleanup_ok dk tid = (case dk_get dk (container_prefix @ tid) of
     None \<Rightarrow> dk_remove dk (container_prefix @ tid) \<in> {None, Some DockerNotFound}
   | Some e \<Rightarrow> e = DockerNotFound)"

lemma cleanup_ok_run:
  assumes "\<not> blank tid" "cleanup_ok dk tid"
  shows "\<exists>tr. cleanup dk (PStr tid) w = (Inr (), w\<lparr>w_trace := tr\<rparr>)"
proof -
  have "\<exists>tr. w = w\<lparr>w_trace := tr\<rparr>" by (rule exI [of _ "w_trace w"]) simp
  with assms show ?thesis
    by (auto simp: cleanup_ok_def cleanup_def act_catch_def act_return_def split: option.splits)
qed

lemma cleanup_fails:
  assumes "\<not> blank tid" "\<not> cleanup_ok dk tid"
  shows "\<exists>e. cleanup dk (PStr tid) w = (Inl e, w)"
  using assms
  by (auto simp: cleanup_ok_def cleanup_def act_catch_def act_return_def act_raise_def split: option.splits)

lemma run_cleanup_hosts:
  assumes "\<not> blank (tb_test_id req)" "cleanup_ok (rn_docker env) (tb_test_id req)" "rn_decrement env = None"
    and "unique_by wh_host_id (hosts (w_db w))"
  shows "hosts (w_db (snd (run_cleanup s env req w))) =
    update_by wh_host_id (worker_host_id s) release_one (hosts (w_db w))"
proof -
  from cleanup_ok_run [OF assms(1,2)] obtain tr where
    c: "cleanup (rn_docker env) (PStr (tb_test_id req)) w = (Inr (), w\<lparr>w_trace := tr\<rparr>)" by blast
  have u: "unique_by wh_host_id (hosts (w_db (w\<lparr>w_trace := tr\<rparr>)))" using assms(4) by simp
  show ?thesis
    using assms(3)
    by (cases "rn_influx_close env")
       (simp_all add: run_cleanup_def act_bind_step [where m = "cleanup (rn_docker env) (PStr (tb_test_id req))", OF c]
         act_bind_step [where m = "decrement_active_containers None (worker_host_id s)", OF decrement_ok [OF u]])
qed

lemma act_finally_db: "w_db (snd (act_finally m f w)) = w_db (snd (f (snd (m w))))"
  by (auto simp: act_finally_def split: prod.splits sum.splits)

lemma run_guarded_hosts:
  assumes "\<And>d. hosts (rn_others env d) = g (hosts d)"
  shows "hosts (w_db (snd (run_guarded s env req w))) = g (hosts (w_db w))"
  using run_guarded_keeps [where P = "\<lambda>d. hosts d = g (hosts (w_db w))" and env = env and req = req and w = w and s = s]
  by (simp add: assms)

text \<open>
  C12: Once a run has started, its slot is given back exactly once however it ends: whether it
  passes, fails, or raises at any step, and whatever changes other transactions make to the
  inventory meanwhile, the container count of the worker's host is decreased by one, unless it
  is already zero, and no other host changes. It needs the removal of the container to succeed.
\<close>

theorem run_releases_slot:
  assumes "from_dict bundle = Inr req" "run_opens env" "unique_by te_test_id (executions (w_db w))"
    and "\<And>d. hosts (rn_others env d) = g (hosts d)" "unique_by wh_host_id (g (hosts (w_db w)))"
    and "cleanup_ok (rn_docker env) (tb_test_id req)" "rn_decrement env = None"
  shows "hosts (w_db (snd (run_test_bundle s env bundle w))) =
    update_by wh_host_id (worker_host_id s) release_one (g (hosts (w_db w)))"
proof -
  have b: "\<not> blank (tb_test_id req)" using from_dict_valid [OF assms(1)] by (simp add: valid_bundle_def)
  show ?thesis
    using assms(5)
    by (simp add: run_test_bundle_opens [OF assms(1-3)] act_finally_db run_cleanup_hosts [OF b assms(6,7)]
        run_guarded_hosts [OF assms(4)])
qed

definition example_docker :: docker_env where
  "example_docker = \<lparr>dk_client = None, dk_run = (\<lambda>_. None), dk_get = (\<lambda>_. None), dk_remove = (\<lambda>_. None),
     dk_running = Inr [''test_t-1'', ''db''], dk_output = [''one'' @ [newline], ''two''],
     dk_output_fails = None, dk_wait = Inr [(PStr ''StatusCode'', PInt 0)]\<rparr>"

definition quiet_run :: run_env where
  "quiet_run = \<lparr>rn_init_db = None, rn_docker = example_docker, rn_influx_open = None, rn_fs = good_fs,
     rn_frepr = (\<lambda>_. []), rn_commit = (\<lambda>_. None), rn_now = 10,
     rn_others = id, rn_influx_write = (\<lambda>_. None), rn_publish = (\<lambda>_. None), rn_checkpoint = (\<lambda>_. None),
     rn_put = (\<lambda>_. Status 201), rn_quali = (\<lambda>_. Status 200), rn_decrement = None, rn_influx_close = None\<rparr>"

definition worker_settings :: settings where
  "worker_settings = default_settings\<lparr>worker_host_id := ''h1''\<rparr>"

definition started_world :: world where
  "started_world = \<lparr>w_db = example_db\<lparr>hosts := [example_host ''h1'' 3 10],
     executions := [new_test_execution 1 ''t-1'' 7 ''pytest'' ''img:1'' DISPATCHED (Aware 0)]\<rparr>, w_trace = []\<rparr>"

lemma example_decodes: "from_dict (PDict (to_dict example_bundle)) = Inr example_bundle"
  by code_simp

lemma started_world_unique: "unique_by te_test_id (executions (w_db started_world))"
  by code_simp

theorem run_releases_slot_witness:
  "map wh_active_containers (hosts (w_db (snd (run_test_bundle worker_settings
     (quiet_run\<lparr>rn_influx_write := (\<lambda>n. Some (ServiceError ''influx down''))\<rparr>)
     (PDict (to_dict example_bundle)) started_world)))) = [2]"
proof -
  let ?env = "quiet_run\<lparr>rn_influx_write := (\<lambda>n. Some (ServiceError ''influx down''))\<rparr>"
  have o: "run_opens ?env" by (simp add: run_opens_def quiet_run_def example_docker_def)
  have h: "\<And>d. hosts (rn_others ?env d) = id (hosts d)" by (simp add: quiet_run_def)
  have u: "unique_by wh_host_id (id (hosts (w_db started_world)))" by code_simp
  have c: "cleanup_ok (rn_docker ?env) (tb_test_id example_bundle)" "rn_decrement ?env = None"
    by (simp_all add: cleanup_ok_def quiet_run_def example_docker_def)
  from run_releases_slot [OF example_decodes o started_world_unique h u c, of worker_settings]
  show ?thesis
    by (simp add: started_world_def worker_settings_def example_host_def new_worker_host_def
        update_by_def release_one_def)
qed

text \<open>
  When the removal of the container fails with anything but "not found", the exception of
  the cleanup replaces the outcome of the run, and the steps after it in the \<open>finally\<close> block
  are skipped: the slot stays reserved and the InfluxDB client stays open.
\<close>

theorem run_cleanup_failure_leaks:
  assumes "from_dict bundle = Inr req" "run_opens env" "unique_by te_test_id (executions (w_db w))"
    and "\<And>d. hosts (rn_others env d) = g (hosts d)" "\<not> cleanup_ok (rn_docker env) (tb_test_id req)"
  shows "\<exists>e w'. run_test_bundle s env bundle w = (Inl e, w') \<and> hosts (w_db w') = g (hosts (w_db w))"
proof -
  have b: "\<not> blank (tb_test_id req)" using from_dict_valid [OF assms(1)] by (simp add: valid_bundle_def)
  let ?w = "w\<lparr>w_db := set_executions (update_by te_test_id (tb_test_id req)
       (touch (Aware (rn_now env)) (status_fields RUNNING (Some (worker_host_id s)) None))) (w_db w)\<rparr>"
  obtain r w1 where g: "run_guarded s env req ?w = (r, w1)" by (metis prod.collapse)
  from cleanup_fails [OF b assms(5)] obtain e where "cleanup (rn_docker env) (PStr (tb_test_id req)) w1 = (Inl e, w1)"
    by blast
  then have "run_cleanup s env req w1 = (Inl e, w1)"
    unfolding run_cleanup_def by (rule act_bind_stop)
  then have "run_test_bundle s env bundle w = (Inl e, w1)"
    by (simp add: run_test_bundle_opens [OF assms(1-3)] act_finally_def g)
  moreover have "hosts (w_db w1) = g (hosts (w_db w))"
    using run_guarded_hosts [OF assms(4), of s req ?w] g by simp
  ultimately show ?thesis by blast
qed

definition daemon_stuck :: run_env where
  "daemon_stuck = quiet_run\<lparr>rn_docker := example_docker\<lparr>dk_remove := (\<lambda>_. Some (ServiceError ''409''))\<rparr>\<rparr>"

theorem run_cleanup_failure_leaks_witness:
  "\<exists>e w'. run_test_bundle worker_settings daemon_stuck (PDict (to_dict example_bundle)) started_world = (Inl e, w') \<and>
     map wh_active_containers (hosts (w_db w')) = [3]"
proof -
  have o: "run_opens daemon_stuck" by (simp add: run_opens_def daemon_stuck_def quiet_run_def example_docker_def)
  have h: "\<And>d. hosts (rn_others daemon_stuck d) = id (hosts d)" by (simp add: daemon_stuck_def quiet_run_def)
  have c: "\<not> cleanup_ok (rn_docker daemon_stuck) (tb_test_id example_bundle)"
    by (simp add: cleanup_ok_def daemon_stuck_def quiet_run_def example_docker_def)
  from run_cleanup_failure_leaks [OF example_decodes o started_world_unique h c, of worker_settings]
  show ?thesis by (auto simp: started_world_def example_host_def new_worker_host_def)
qed

text \<open>
  A failure before the guarded part of the task (a malformed bundle, an unreachable
  database, Docker socket or InfluxDB) changes nothing at all: the slot the scheduler reserved
  is not given back and the execution stays DISPATCHED.
\<close>

theorem run_startup_failure_leaks:
  assumes "from_dict bundle = Inl e \<or> from_dict bundle = Inr req \<and>
      (rn_init_db env = Some e \<or> rn_init_db env = None \<and> dk_client (rn_docker env) = Some e \<or>
       rn_init_db env = None \<and> dk_client (rn_docker env) = None \<and> rn_influx_open env = Some e)"
  shows "run_test_bundle s env bundle w = (Inl e, w)"
proof -
  have "act_bind (service (Some x)) k w = (Inl x, w)" for x and k :: "unit \<Rightarrow> string act"
    by (simp add: service_def)
  with assms show ?thesis by (auto simp: run_test_bundle_def)
qed

theorem run_startup_failure_leaks_witness:
  "run_test_bundle worker_settings (quiet_run\<lparr>rn_influx_open := Some (ServiceError ''no route'')\<rparr>)
     (PDict (to_dict example_bundle)) started_world = (Inl (ServiceError ''no route''), started_world)"
  by (rule run_startup_failure_leaks [where req = example_bundle])
     (simp add: example_decodes quiet_run_def example_docker_def)

section \<open>The final status\<close>

definition terminal :: "string \<Rightarrow> db \<Rightarrow> test_status \<Rightarrow> bool" where
  "terminal tid d st \<longleftrightarrow> unique_by te_test_id (executions d) \<and>
     (\<exists>r \<in> set (executions d). te_test_id r = tid \<and> te_status r = status_value st)"

definition stored :: "string \<Rightarrow> db \<Rightarrow> bool" where
  "stored tid d \<longleftrightarrow> unique_by te_test_id (executions d) \<and> tid \<in> te_test_id ` set (executions d)"

lemma stored_update:
  assumes "\<And>r. te_test_id (f r) = te_test_id r" "stored tid d"
  shows "stored tid (set_executions (update_by te_test_id k f) d)"
proof -
  have "map te_test_id (update_by te_test_id k f (executions d)) = map te_test_id (executions d)"
    using assms(1) by simp
  then have "te_test_id ` set (update_by te_test_id k f (executions d)) = te_test_id ` set (executions d)"
    by (metis list.set_map)
  with assms show ?thesis by (simp add: stored_def unique_update_by)
qed

lemma stored_log [simp]: "stored tid (add_log_line now t n l d) = stored tid d"
  by (simp add: stored_def)

lemma set_status_terminal:
  assumes "\<not> blank tid" "stored tid (w_db w)"
  shows "\<exists>w'. set_status None now tid st host art w = (Inr (), w') \<and> terminal tid (w_db w') st"
proof -
  from assms(2) have u: "unique_by te_test_id (executions (w_db w))" by (simp add: stored_def)
  let ?f = "touch (Aware now) (status_fields st host art)"
  from assms(2) obtain r where r: "r \<in> set (executions (w_db w))" "te_test_id r = tid"
    by (auto simp: stored_def)
  have "?f r \<in> set (update_by te_test_id tid ?f (executions (w_db w)))"
    using r by (force simp: update_by_def)
  moreover have "te_test_id (?f r) = tid" "te_status (?f r) = status_value st"
    using r by (simp_all add: status_fields_def)
  moreover have "unique_by te_test_id (update_by te_test_id tid ?f (executions (w_db w)))"
    using u by (intro unique_update_by) (simp_all add: status_fields_def)
  ultimately have "terminal tid (set_executions (update_by te_test_id tid ?f) (w_db w)) st"
    by (auto simp: terminal_def)
  with set_status_ok [OF assms(1) u, of now st host art] show ?thesis by simp
qed

text \<open>What \<open>docker wait\<close> answered says that the container ended with code zero.\<close>

definition zero_exit :: "pydict \<Rightarrow> bool" where
  "zero_exit result \<longleftrightarrow> key_eq (dict_get result ''StatusCode'' (PInt 1)) (PInt 0)"

text \<open>
  No step of the run raised up to the collected artifacts, and the container ended with code zero.
\<close>

definition succeeds :: "settings \<Rightarrow> run_env \<Rightarrow> test_bundle \<Rightarrow> world \<Rightarrow> bool" where
  "succeeds s env req w \<longleftrightarrow> (\<exists>result. is_ok (fst (run_container s env req w)) \<and>
     dk_wait (rn_docker env) = Inr result \<and> zero_exit result)"

lemma run_container_result:
  "run_container s env req w = (Inr (result, urls), w') \<Longrightarrow> dk_wait (rn_docker env) = Inr result"
  by (auto simp: run_container_def Let_def act_elims)

lemma succeeds_ended:
  assumes "run_container s env req w = (Inr (result, urls), w')"
  shows "succeeds s env req w \<longleftrightarrow> zero_exit result"
  using assms run_container_result [OF assms] by (simp add: succeeds_def)

lemma record_result_terminal:
  assumes "\<not> blank tid" "stored tid (w_db w)" "\<And>st. rn_commit env st = None"
  shows "\<exists>w'. record_result env tid x w = (Inr (status_value (if zero_exit (fst x) then PASSED else FAILED)), w') \<and>
    terminal tid (w_db w') (if zero_exit (fst x) then PASSED else FAILED)"
proof (cases x)
  case (Pair result urls)
  let ?st = "final_status (exit_code result)"
  let ?a = "case urls of [] \<Rightarrow> None | url # _ \<Rightarrow> Some url"
  from set_status_terminal [OF assms(1,2), of "rn_now env" ?st None ?a] obtain w' where
    w': "set_status None (rn_now env) tid ?st None ?a w = (Inr (), w')" "terminal tid (w_db w') ?st" by blast
  have "record_result env tid x w = (Inr (status_value ?st), w')"
    using Pair assms(3)
    by (simp add: record_result_def Let_def act_bind_step [where m = "set_status None (rn_now env) tid ?st None ?a", OF w'(1)]
        act_return_def)
  moreover have "?st = (if zero_exit (fst x) then PASSED else FAILED)"
    using Pair by (simp add: final_status_def exit_code_def zero_exit_def)
  ultimately show ?thesis using w'(2) by (intro exI [of _ w']) (simp only: simp_thms)
qed

lemma run_guarded_crashed:
  assumes "\<not> blank (tb_test_id req)" "\<And>st. rn_commit env st = None"
    and "stored (tb_test_id req) (rn_others env (w_db w))"
    and "run_container s env req (w\<lparr>w_db := rn_others env (w_db w)\<rparr>) = (Inl e, w1)"
  shows "\<exists>w'. run_guarded s env req w = (Inl e, w') \<and> terminal (tb_test_id req) (w_db w') FAILED"
proof -
  let ?tid = "tb_test_id req" and ?w = "w\<lparr>w_db := rn_others env (w_db w)\<rparr>"
  have "keeps (\<lambda>w. stored ?tid (w_db w)) (run_container s env req)" by (rule run_container_keeps) simp
  from keepsD [OF this _ assms(4)] assms(3) have s1: "stored ?tid (w_db w1)" by simp
  have body: "run_body s env req ?w = (Inl e, w1)" using assms(4) by (simp add: run_body_def act_bind_def)
  from set_status_terminal [OF assms(1) s1, of "rn_now env" FAILED None None] obtain w2 where
    st: "set_status None (rn_now env) ?tid FAILED None None w1 = (Inr (), w2)" "terminal ?tid (w_db w2) FAILED"
    by blast
  then have "run_crashed s env req e w1 = (Inl e, w2\<lparr>w_trace := w_trace w2 @
      release_trace s (rn_quali env) (tb_quali_reservation_id req)\<rparr>)"
    using assms(2) by (simp add: run_crashed_def act_bind_def best_effort_release_result act_raise_def)
  with body st(2) show ?thesis by (simp add: run_guarded_def act_catch_bind_put) (simp add: act_catch_def)
qed

lemma run_guarded_terminal:
  assumes "\<not> blank (tb_test_id req)" "stored (tb_test_id req) (rn_others env (w_db w))"
    and "\<And>st. rn_commit env st = None"
  shows "\<exists>st r w'. run_guarded s env req w = (r, w') \<and> st \<in> {PASSED, FAILED} \<and>
    terminal (tb_test_id req) (w_db w') st \<and> (\<forall>v. r = Inr v \<longrightarrow> v = status_value st) \<and>
    (st = PASSED \<longleftrightarrow> succeeds s env req (w\<lparr>w_db := rn_others env (w_db w)\<rparr>)) \<and>
    is_ok r = is_ok (fst (run_container s env req (w\<lparr>w_db := rn_others env (w_db w)\<rparr>)))"
proof -
  let ?tid = "tb_test_id req" and ?w = "w\<lparr>w_db := rn_others env (w_db w)\<rparr>"
  have guarded: "run_guarded s env req w = act_catch (run_body s env req) (run_crashed s env req) ?w"
    by (simp add: run_guarded_def act_catch_bind_put)
  have kept: "keeps (\<lambda>w. stored ?tid (w_db w)) (run_container s env req)"
    by (rule run_container_keeps) simp
  obtain r1 w1 where c: "run_container s env req ?w = (r1, w1)" by (metis prod.collapse)
  with keepsD [OF kept _ c] assms(2) have s1: "stored ?tid (w_db w1)" by simp
  show ?thesis
  proof (cases r1)
    case (Inr x)
    let ?st = "if zero_exit (fst x) then PASSED else FAILED"
    from record_result_terminal [OF assms(1) s1 assms(3), of x] obtain w' where
      r: "record_result env ?tid x w1 = (Inr (status_value ?st), w')" "terminal ?tid (w_db w') ?st" by blast
    have ended: "succeeds s env req ?w \<longleftrightarrow> zero_exit (fst x)"
      using succeeds_ended c Inr by (cases x) simp
    have "run_body s env req ?w = (Inr (status_value ?st), w')"
      using c Inr r(1) by (simp add: run_body_def act_bind_def)
    then have g: "run_guarded s env req w = (Inr (status_value ?st), w')"
      by (simp add: guarded act_catch_def)
    show ?thesis
      by (rule exI [of _ ?st], rule exI [of _ "Inr (status_value ?st)"], rule exI [of _ w'])
         (use g r(2) c Inr ended in simp)
  next
    case (Inl e)
    then have "\<not> succeeds s env req ?w" "\<not> is_ok (fst (run_container s env req ?w))"
      using c by (simp_all add: succeeds_def)
    moreover from run_guarded_crashed [OF assms(1,3,2) c [unfolded Inl]] obtain w' where
      "run_guarded s env req w = (Inl e, w')" "terminal ?tid (w_db w') FAILED" by blast
    ultimately show ?thesis
      by (intro exI [of _ FAILED] exI [of _ "Inl e"] exI [of _ w']) simp
  qed
qed

lemma run_cleanup_keeps_executions:
  "executions (w_db (snd (run_cleanup s env req w))) = executions (w_db w)"
proof -
  have dec: "keeps (\<lambda>w. executions (w_db w) = es) (decrement_active_containers err h)" for err h es
    unfolding decrement_active_containers_def
    by (intro keeps_intros; split option.split; intro conjI allI impI keeps_return)
       (auto simp: keeps_def act_return_def split: option.splits; cases err; simp)
  have "keeps (\<lambda>w'. executions (w_db w') = executions (w_db w)) (run_cleanup s env req)"
    unfolding run_cleanup_def by (intro keeps_intros dec)
  then show ?thesis by (simp add: keeps_def)
qed

text \<open>The world in which the body of the run begins.\<close>

definition opened_world :: "settings \<Rightarrow> run_env \<Rightarrow> test_bundle \<Rightarrow> world \<Rightarrow> world" where
  "opened_world s env req w = w\<lparr>w_db := rn_others env (set_executions (update_by te_test_id (tb_test_id req)
     (touch (Aware (rn_now env)) (status_fields RUNNING (Some (worker_host_id s)) None))) (w_db w))\<rparr>"

text \<open>
  C9: A run that has started always leaves its stored execution in a final state, whichever step
  fails and even if the cleanup raises: PASSED if no step up to the collected artifacts raised
  and the container ended with code zero, FAILED in every other case, never RUNNING. If the task
  returns, it returns the stored status; when a step raised, it does not return.
\<close>

theorem run_ends_terminal:
  assumes "from_dict bundle = Inr req" "run_opens env" "\<And>st. rn_commit env st = None"
    and "stored (tb_test_id req) (w_db w)"
    and "\<And>d. stored (tb_test_id req) d \<Longrightarrow> stored (tb_test_id req) (rn_others env d)"
  shows "\<exists>st \<in> {PASSED, FAILED}.
    terminal (tb_test_id req) (w_db (snd (run_test_bundle s env bundle w))) st \<and>
    (st = PASSED \<longleftrightarrow> (\<exists>result. is_ok (fst (run_container s env req (opened_world s env req w))) \<and>
       dk_wait (rn_docker env) = Inr result \<and> key_eq (dict_get result ''StatusCode'' (PInt 1)) (PInt 0))) \<and>
    (\<forall>v. fst (run_test_bundle s env bundle w) = Inr v \<longrightarrow>
       v = status_value st \<and> is_ok (fst (run_container s env req (opened_world s env req w))))"
proof -
  have b: "\<not> blank (tb_test_id req)" using from_dict_valid [OF assms(1)] by (simp add: valid_bundle_def)
  have u: "unique_by te_test_id (executions (w_db w))" using assms(4) by (simp add: stored_def)
  let ?w = "w\<lparr>w_db := set_executions (update_by te_test_id (tb_test_id req)
       (touch (Aware (rn_now env)) (status_fields RUNNING (Some (worker_host_id s)) None))) (w_db w)\<rparr>"
  have o: "?w\<lparr>w_db := rn_others env (w_db ?w)\<rparr> = opened_world s env req w" by (simp add: opened_world_def)
  have "stored (tb_test_id req) (w_db ?w)"
    using assms(4) by (simp add: stored_update status_fields_def)
  then have "stored (tb_test_id req) (rn_others env (w_db ?w))" by (rule assms(5))
  from run_guarded_terminal [OF b this assms(3), of s] obtain st r w' where
    g: "run_guarded s env req ?w = (r, w')" "st \<in> {PASSED, FAILED}" "terminal (tb_test_id req) (w_db w') st"
    "\<forall>v. r = Inr v \<longrightarrow> v = status_value st" "st = PASSED \<longleftrightarrow> succeeds s env req (opened_world s env req w)"
    "is_ok r = is_ok (fst (run_container s env req (opened_world s env req w)))" unfolding o by blast
  obtain q w'' where c: "run_cleanup s env req w' = (q, w'')" by (metis prod.collapse)
  have run: "run_test_bundle s env bundle w = (case q of Inl e \<Rightarrow> (Inl e, w'') | Inr _ \<Rightarrow> (r, w''))"
    by (simp add: run_test_bundle_opens [OF assms(1,2) u] act_finally_def g(1) c split: sum.splits)
  have "executions (w_db w'') = executions (w_db w')"
    using run_cleanup_keeps_executions [of s env req w'] c by simp
  with g(3) have "terminal (tb_test_id req) (w_db w'') st" by (simp add: terminal_def)
  then have "terminal (tb_test_id req) (w_db (snd (run_test_bundle s env bundle w))) st"
    unfolding run by (cases q) simp_all
  moreover have "\<forall>v. fst (run_test_bundle s env bundle w) = Inr v \<longrightarrow>
      v = status_value st \<and> is_ok (fst (run_container s env req (opened_world s env req w)))"
    unfolding run using g(4,6) by (cases q) auto
  ultimately show ?thesis using g(2,5) unfolding succeeds_def zero_exit_def by blast
qed

theorem run_ends_terminal_witness:
  "terminal ''t-1'' (w_db (snd (run_test_bundle worker_settings quiet_run (PDict (to_dict example_bundle)) started_world))) PASSED"
proof -
  have o: "run_opens quiet_run" "\<And>st. rn_commit quiet_run st = None"
    "\<And>d. stored (tb_test_id example_bundle) d \<Longrightarrow> stored (tb_test_id example_bundle) (rn_others quiet_run d)"
    by (simp_all add: run_opens_def quiet_run_def example_docker_def)
  have s: "stored (tb_test_id example_bundle) (w_db started_world)" by code_simp
  have t: "tb_test_id example_bundle = ''t-1''" by (simp add: example_bundle_def)
  have "is_ok (fst (run_container worker_settings quiet_run example_bundle
      (opened_world worker_settings quiet_run example_bundle started_world)))" by code_simp
  moreover have "\<exists>result. dk_wait (rn_docker quiet_run) = Inr result \<and>
      key_eq (dict_get result ''StatusCode'' (PInt 1)) (PInt 0)"
    by (simp add: quiet_run_def example_docker_def) code_simp
  ultimately show ?thesis
    using run_ends_terminal [OF example_decodes o(1,2) s o(3), of worker_settings] unfolding t by blast
qed

section \<open>A message delivered twice\<close>

lemma start_test_container_refused:
  assumes "dk_run dk (container_prefix @ tid) = Some e"
  shows "start_test_container s fs dk i c (PStr tid) out w \<noteq> (Inr n, w')"
  using assms
  by (auto simp: start_test_container_def container_name_def Let_def act_elims result_simps guard_simps
      split: if_splits)

lemma run_container_refused:
  assumes "dk_run (rn_docker env) (container_prefix @ tb_test_id req) = Some e"
  shows "\<exists>x w1. run_container s env req w = (Inl x, w1)"
proof (cases "run_container s env req w")
  case (Pair r w1)
  then show ?thesis
    using start_test_container_refused [OF assms]
    by (cases r) (auto simp: run_container_def Let_def act_elims)
qed

lemma run_cleanup_removes:
  assumes "\<not> blank (tb_test_id req)" "rn_decrement env = None" "unique_by wh_host_id (hosts (w_db w))"
    and "dk_get (rn_docker env) (container_prefix @ tb_test_id req) = None"
    and "dk_remove (rn_docker env) (container_prefix @ tb_test_id req) = None"
  shows "\<exists>closed. w_trace (snd (run_cleanup s env req w)) =
    w_trace w @ DockerRemove (container_prefix @ tb_test_id req) # closed \<and> set closed \<subseteq> {InfluxClose}"
proof -
  let ?w = "w\<lparr>w_trace := w_trace w @ [DockerRemove (container_prefix @ tb_test_id req)]\<rparr>"
  have c: "cleanup (rn_docker env) (PStr (tb_test_id req)) w = (Inr (), ?w)"
    using assms by (simp add: cleanup_removes)
  have u: "unique_by wh_host_id (hosts (w_db ?w))" using assms(3) by simp
  show ?thesis
    using assms(2)
    by (cases "rn_influx_close env")
       (simp_all add: run_cleanup_def act_bind_step [where m = "cleanup (rn_docker env) (PStr (tb_test_id req))", OF c]
         act_bind_step [where m = "decrement_active_containers None (worker_host_id s)", OF decrement_ok [OF u]])
qed

text \<open>
  C33: The worker acknowledges a message only when its task is over, so the broker may deliver it
  again while the first run is still going. The second run cannot start a container under the
  name in use, and yet it acts on what the first one owns: the execution is stored FAILED, the
  slot is given back a second time, and the last thing done to Docker is the forced removal of
  the container of the first run.
\<close>

theorem redelivered_run_stops_first:
  assumes "from_dict bundle = Inr req" "run_opens env" "\<And>st. rn_commit env st = None"
    and "stored (tb_test_id req) (w_db w)" "unique_by wh_host_id (hosts (w_db w))"
    and "\<And>d. hosts (rn_others env d) = hosts d"
      "\<And>d. stored (tb_test_id req) d \<Longrightarrow> stored (tb_test_id req) (rn_others env d)"
    and "dk_run (rn_docker env) (container_prefix @ tb_test_id req) = Some in_use"
    and "dk_get (rn_docker env) (container_prefix @ tb_test_id req) = None"
      "dk_remove (rn_docker env) (container_prefix @ tb_test_id req) = None" "rn_decrement env = None"
  shows "\<exists>e w' trace closed. run_test_bundle s env bundle w = (Inl e, w') \<and>
    terminal (tb_test_id req) (w_db w') FAILED \<and>
    hosts (w_db w') = update_by wh_host_id (worker_host_id s) release_one (hosts (w_db w)) \<and>
    w_trace w' = trace @ DockerRemove (container_prefix @ tb_test_id req) # closed \<and> set closed \<subseteq> {InfluxClose}"
proof -
  let ?tid = "tb_test_id req"
  have b: "\<not> blank ?tid" using from_dict_valid [OF assms(1)] by (simp add: valid_bundle_def)
  have u: "unique_by te_test_id (executions (w_db w))" using assms(4) by (simp add: stored_def)
  let ?w = "w\<lparr>w_db := set_executions (update_by te_test_id ?tid
       (touch (Aware (rn_now env)) (status_fields RUNNING (Some (worker_host_id s)) None))) (w_db w)\<rparr>"
  have "stored ?tid (w_db ?w)" using assms(4) by (simp add: stored_update status_fields_def)
  then have s: "stored ?tid (rn_others env (w_db ?w))" by (rule assms(7))
  from run_container_refused [OF assms(8)] obtain e w1 where
    "run_container s env req (?w\<lparr>w_db := rn_others env (w_db ?w)\<rparr>) = (Inl e, w1)" by blast
  from run_guarded_crashed [OF b assms(3) s this] obtain w2 where
    g: "run_guarded s env req ?w = (Inl e, w2)" "terminal ?tid (w_db w2) FAILED" by blast
  have h: "hosts (w_db w2) = hosts (w_db w)"
    using run_guarded_hosts [where g = id and env = env and s = s and req = req and w = ?w] assms(6) g(1) by simp
  obtain q w' where c: "run_cleanup s env req w2 = (q, w')" by (metis prod.collapse)
  have "\<exists>x. run_test_bundle s env bundle w = (Inl x, w')"
    by (cases q) (simp_all add: run_test_bundle_opens [OF assms(1,2) u] act_finally_def g(1) c)
  moreover have "terminal ?tid (w_db w') FAILED"
    using run_cleanup_keeps_executions [of s env req w2] c g(2) by (simp add: terminal_def)
  moreover have "hosts (w_db w') = update_by wh_host_id (worker_host_id s) release_one (hosts (w_db w))"
    using run_cleanup_hosts [OF b _ assms(11), of w2 s] assms(5,9,10) h c by (simp add: cleanup_ok_def)
  moreover have "\<exists>closed. w_trace w' = w_trace w2 @ DockerRemove (container_prefix @ ?tid) # closed \<and> set closed \<subseteq> {InfluxClose}"
    using run_cleanup_removes [OF b assms(11) _ assms(9,10), of w2 s] assms(5) h c by simp
  ultimately show ?thesis by blast
qed

definition name_in_use :: run_env where
  "name_in_use = quiet_run\<lparr>rn_docker := example_docker\<lparr>dk_run := (\<lambda>_. Some (ServiceError ''409''))\<rparr>\<rparr>"

theorem redelivered_run_stops_first_witness:
  "\<exists>e w' trace closed. run_test_bundle worker_settings name_in_use (PDict (to_dict example_bundle)) started_world = (Inl e, w') \<and>
     terminal ''t-1'' (w_db w') FAILED \<and> map wh_active_containers (hosts (w_db w')) = [2] \<and>
     w_trace w' = trace @ DockerRemove ''test_t-1'' # closed \<and> set closed \<subseteq> {InfluxClose}"
proof -
  have o: "run_opens name_in_use" "\<And>st. rn_commit name_in_use st = None"
    "\<And>d. hosts (rn_others name_in_use d) = hosts d"
    "\<And>d. stored (tb_test_id example_bundle) d \<Longrightarrow> stored (tb_test_id example_bundle) (rn_others name_in_use d)"
    "dk_run (rn_docker name_in_use) (container_prefix @ tb_test_id example_bundle) = Some (ServiceError ''409'')"
    "dk_get (rn_docker name_in_use) (container_prefix @ tb_test_id example_bundle) = None"
    "dk_remove (rn_docker name_in_use) (container_prefix @ tb_test_id example_bundle) = None"
    "rn_decrement name_in_use = None"
    by (simp_all add: run_opens_def name_in_use_def quiet_run_def example_docker_def)
  have s: "stored (tb_test_id example_bundle) (w_db started_world)" "unique_by wh_host_id (hosts (w_db started_world))"
    by code_simp+
  have t: "tb_test_id example_bundle = ''t-1''" "container_prefix @ ''t-1'' = ''test_t-1''"
    by (simp_all add: example_bundle_def container_prefix_def)
  have h: "map wh_active_containers (update_by wh_host_id (worker_host_id worker_settings) release_one
      (hosts (w_db started_world))) = [2]"
    by (simp add: started_world_def worker_settings_def example_host_def new_worker_host_def
        update_by_def release_one_def)
  from redelivered_run_stops_first [OF example_decodes o(1,2) s o(3-8), of worker_settings] show ?thesis
    unfolding t by (metis h)
qed

end
