(* ===== verification/Periodic.thy ===== *)
theory Periodic
  imports Tasks
begin

text \<open>
  The other tasks of \<open>worker/tasks.py\<close>: the answer to a status poll, the heartbeat that registers
  and refreshes a host, and the reaper of runs that are stuck.
\<close>

section \<open>The periodic tasks\<close>

definition report_status ::
    "settings \<Rightarrow> (pyfloat \<Rightarrow> string) \<Rightarrow> readings \<Rightarrow> pyerr option \<Rightarrow> pyval \<Rightarrow> unit act" where
  "report_status s frepr rd fails correlation_id =
     act_bind (act_lift (require_non_empty_str correlation_id ''correlation_id'')) (\<lambda>cid.
     act_bind (act_lift (collect_host_stats frepr rd (PStr (worker_host_id s)) (PStr (test_runs_dir s)))) (\<lambda>stats.
     publish_stats_reply fails cid (json_dumps frepr (PDict (host_stats_dict stats)))))"

record heartbeat_env =
  hb_init_db :: "pyerr option"
  hb_readings :: readings
  hb_frepr :: "pyfloat \<Rightarrow> string"
  hb_docker :: docker_env
  hb_now :: int
  hb_commit :: "pyerr option"

definition live_containers :: "docker_env \<Rightarrow> int result" where
  "live_containers dk = (case dk_client dk of Some e \<Rightarrow> Inl e | None \<Rightarrow> active_test_container_count dk)"

text \<open>The count from Docker, or the last known one when Docker cannot be asked.\<close>

definition live_or_cached :: "docker_env \<Rightarrow> string \<Rightarrow> worker_host list \<Rightarrow> int act" where
  "live_or_cached dk host_id hs = (case live_containers dk of
     Inr n \<Rightarrow> act_return n
   | Inl _ \<Rightarrow>
       act_bind (act_lift (find_by wh_host_id host_id hs)) (\<lambda>cached.
       act_return (case cached of None \<Rightarrow> 0 | Some h \<Rightarrow> wh_active_containers h)))"

definition beat :: "int \<Rightarrow> pyfloat \<Rightarrow> int \<Rightarrow> worker_host \<Rightarrow> worker_host" where
  "beat live cpu now h =
     h\<lparr>wh_is_online := True, wh_active_containers := live, wh_cpu_utilization := cpu,
       wh_last_heartbeat := Some (Aware now)\<rparr>"

definition publish_heartbeat :: "settings \<Rightarrow> heartbeat_env \<Rightarrow> unit act" where
  "publish_heartbeat s env =
     act_bind (service (hb_init_db env)) (\<lambda>_.
     act_bind (act_lift (collect_host_stats (hb_frepr env) (hb_readings env) (PStr (worker_host_id s))
                 (PStr (test_runs_dir s)))) (\<lambda>stats.
     act_bind get_db (\<lambda>d.
     act_bind (live_or_cached (hb_docker env) (worker_host_id s) (hosts d)) (\<lambda>live_count.
     act_bind (act_lift (find_by wh_host_id (worker_host_id s) (hosts d))) (\<lambda>host. case host of
         None \<Rightarrow>
           (let h = beat live_count (hs_cpu_percent stats) (hb_now env) (new_worker_host (next_id d) (worker_host_id s))
            in act_bind (act_lift (insert_by wh_host_id h (hosts d))) (\<lambda>hs.
               commit (hb_commit env) (\<lambda>d. d\<lparr>hosts := hs, next_id := next_id d + 1\<rparr>)))
       | Some h \<Rightarrow>
           commit (hb_commit env) (set_hosts (update_by wh_host_id (worker_host_id s)
             (beat live_count (hs_cpu_percent stats) (hb_now env)))))))))"

definition run_deadline :: int where
  "run_deadline = seconds (2 * 3600)"

definition stuck :: "string \<Rightarrow> int \<Rightarrow> test_execution \<Rightarrow> bool" where
  "stuck host cutoff r \<longleftrightarrow> te_target_host_id r = Some host \<and> te_status r = status_value RUNNING \<and>
     utc_micros (te_updated_at r) < cutoff"

definition reap_stale ::
    "settings \<Rightarrow> pyerr option \<Rightarrow> (string \<Rightarrow> http_outcome) \<Rightarrow> int \<Rightarrow> pyerr option \<Rightarrow> unit act" where
  "reap_stale s init_err quali now commit_err =
     act_bind (service init_err) (\<lambda>_.
     (let P = stuck (worker_host_id s) (now - run_deadline)
      in act_bind get_db (\<lambda>d.
         act_bind (release_each s quali (filter P (executions d))) (\<lambda>_.
         commit commit_err (set_executions (fail_runs (Aware now) P))))))"

section \<open>Heartbeats\<close>

definition host_ids_fresh :: "db \<Rightarrow> bool" where
  "host_ids_fresh d \<longleftrightarrow> (\<forall>h \<in> set (hosts d). wh_id h < next_id d)"

text \<open>The count a heartbeat reports: Docker's, or the stored one when Docker cannot be asked.\<close>

definition reported_count :: "docker_env \<Rightarrow> string \<Rightarrow> worker_host list \<Rightarrow> int" where
  "reported_count dk hid hs = (case live_containers dk of
     Inr n \<Rightarrow> n
   | Inl _ \<Rightarrow> (case List.find (\<lambda>h. wh_host_id h = hid) hs of None \<Rightarrow> 0 | Some h \<Rightarrow> wh_active_containers h))"

lemma reported_count_nonneg:
  assumes "wf_hosts hs"
  shows "0 \<le> reported_count dk hid hs"
proof -
  have "0 \<le> wh_active_containers h" if "List.find (\<lambda>h. wh_host_id h = hid) hs = Some h" for h
    using find_Some_in [OF that] wf_hosts_in [OF assms, of h] by (simp add: wf_host_def)
  then show ?thesis
    by (auto simp: reported_count_def live_containers_def active_test_container_count_def result_simps
        split: sum.splits option.splits)
qed

lemma collect_cpu:
  assumes "collect_host_stats frepr rd h p = Inr st"
  shows "pf_le (Fin 0) (hs_cpu_percent st)"
  using assms
  by (auto simp: collect_host_stats_def Let_def HostStats_def result_simps split: prod.splits)

lemma beat_fields [simp]:
  "wh_host_id (beat n c t h) = wh_host_id h" "wh_id (beat n c t h) = wh_id h"
  "wh_is_online (beat n c t h)" "wh_active_containers (beat n c t h) = n"
  "wh_last_heartbeat (beat n c t h) = Some (Aware t)" "wh_cpu_utilization (beat n c t h) = c"
  "wh_max_containers (beat n c t h) = wh_max_containers h"
  "wh_hardware_tags (beat n c t h) = wh_hardware_tags h"
  by (simp_all add: beat_def)

lemma wf_host_beat: "wf_host h \<Longrightarrow> 0 \<le> n \<Longrightarrow> pf_le (Fin 0) c \<Longrightarrow> wf_host (beat n c t h)"
  by (simp add: wf_host_def)

definition heartbeat_row :: "settings \<Rightarrow> heartbeat_env \<Rightarrow> host_stats \<Rightarrow> db \<Rightarrow> worker_host \<Rightarrow> worker_host" where
  "heartbeat_row s env stats d =
     beat (reported_count (hb_docker env) (worker_host_id s) (hosts d)) (hs_cpu_percent stats) (hb_now env)"

lemma publish_heartbeat_run:
  assumes "wf_hosts (hosts (w_db w))" "hb_init_db env = None" "hb_commit env = None"
    and "collect_host_stats (hb_frepr env) (hb_readings env) (PStr (worker_host_id s)) (PStr (test_runs_dir s)) = Inr stats"
  shows "publish_heartbeat s env w = (Inr (), w\<lparr>w_db :=
    (case List.find (\<lambda>h. wh_host_id h = worker_host_id s) (hosts (w_db w)) of
       None \<Rightarrow> (w_db w)\<lparr>hosts := hosts (w_db w) @
           [heartbeat_row s env stats (w_db w) (new_worker_host (next_id (w_db w)) (worker_host_id s))],
         next_id := next_id (w_db w) + 1\<rparr>
     | Some h \<Rightarrow> set_hosts (update_by wh_host_id (worker_host_id s) (heartbeat_row s env stats (w_db w))) (w_db w))\<rparr>)"
proof -
  let ?hs = "hosts (w_db w)" and ?hid = "worker_host_id s"
  have u: "unique_by wh_host_id ?hs" using assms(1) by (simp add: wf_hosts_def)
  note f = find_by_unique [OF u, of ?hid]
  have "live_or_cached (hb_docker env) ?hid ?hs w = (Inr (reported_count (hb_docker env) ?hid ?hs), w)"
    by (auto simp: live_or_cached_def reported_count_def f act_return_def split: sum.splits)
  note step = act_bind_step [where m = "live_or_cached (hb_docker env) ?hid ?hs", OF this]
  show ?thesis
  proof (cases "List.find (\<lambda>h. wh_host_id h = ?hid) ?hs")
    case None
    then have "?hid \<notin> wh_host_id ` set ?hs" by (auto simp: find_None_iff)
    then have "insert_by wh_host_id (beat n c t (new_worker_host i ?hid)) ?hs =
        Inr (?hs @ [beat n c t (new_worker_host i ?hid)])" for n c t i
      by (simp add: insert_by_def new_worker_host_def)
    with None assms(2-4) f show ?thesis
      by (simp add: publish_heartbeat_def heartbeat_row_def Let_def step)
  next
    case (Some h)
    with assms(2-4) f show ?thesis
      by (simp add: publish_heartbeat_def heartbeat_row_def step)
  qed
qed

lemma heartbeat_row_fields [simp]:
  "wh_host_id (heartbeat_row s env stats d h) = wh_host_id h" "wh_id (heartbeat_row s env stats d h) = wh_id h"
  "wh_is_online (heartbeat_row s env stats d h)"
  "wh_last_heartbeat (heartbeat_row s env stats d h) = Some (Aware (hb_now env))"
  "wh_active_containers (heartbeat_row s env stats d h) = reported_count (hb_docker env) (worker_host_id s) (hosts d)"
  by (simp_all add: heartbeat_row_def)

lemma heartbeat_row_wf:
  assumes "wf_hosts (hosts d)" "wf_host h"
    and "collect_host_stats (hb_frepr env) (hb_readings env) (PStr (worker_host_id s)) (PStr (test_runs_dir s)) = Inr stats"
  shows "wf_host (heartbeat_row s env stats d h)"
  using assms(2) reported_count_nonneg [OF assms(1)] collect_cpu [OF assms(3)]
  by (simp add: heartbeat_row_def wf_host_beat)

lemma heartbeat_outcome:
  assumes "wf_hosts (hosts (w_db w))" "host_ids_fresh (w_db w)" "hb_init_db env = None" "hb_commit env = None"
    and "\<not> blank (worker_host_id s)"
    and "collect_host_stats (hb_frepr env) (hb_readings env) (PStr (worker_host_id s)) (PStr (test_runs_dir s)) = Inr stats"
  shows "\<exists>w' h. publish_heartbeat s env w = (Inr (), w') \<and> h \<in> set (hosts (w_db w')) \<and>
    wh_host_id h = worker_host_id s \<and> wh_is_online h \<and> wh_last_heartbeat h = Some (Aware (hb_now env)) \<and>
    wh_active_containers h = reported_count (hb_docker env) (worker_host_id s) (hosts (w_db w)) \<and>
    filter (\<lambda>g. wh_host_id g \<noteq> worker_host_id s) (hosts (w_db w')) =
      filter (\<lambda>g. wh_host_id g \<noteq> worker_host_id s) (hosts (w_db w)) \<and>
    wf_hosts (hosts (w_db w')) \<and> host_ids_fresh (w_db w')"
proof -
  let ?hs = "hosts (w_db w)" and ?hid = "worker_host_id s" and ?f = "heartbeat_row s env stats (w_db w)"
  note run = publish_heartbeat_run [OF assms(1,3,4,6)]
  note wf = heartbeat_row_wf [OF assms(1) _ assms(6)]
  show ?thesis
  proof (cases "List.find (\<lambda>h. wh_host_id h = ?hid) ?hs")
    case None
    let ?new = "?f (new_worker_host (next_id (w_db w)) ?hid)"
    let ?w = "w\<lparr>w_db := (w_db w)\<lparr>hosts := ?hs @ [?new], next_id := next_id (w_db w) + 1\<rparr>\<rparr>"
    have new: "wh_host_id ?new = ?hid" "wh_id ?new = next_id (w_db w)" by (simp_all add: new_worker_host_def)
    have "wf_host ?new" using assms(5) by (intro wf) (simp add: wf_host_def new_worker_host_def pf_le_def)
    moreover have "?hid \<notin> wh_host_id ` set ?hs" "next_id (w_db w) \<notin> wh_id ` set ?hs"
      using None assms(2) by (auto simp: find_None_iff host_ids_fresh_def)
    ultimately have "wf_hosts (hosts (w_db ?w))"
      using assms(1) new by (simp add: wf_hosts_def unique_by_def)
    moreover have "host_ids_fresh (w_db ?w)" using assms(2) new by (auto simp: host_ids_fresh_def)
    moreover have "publish_heartbeat s env w = (Inr (), ?w)" using run None by simp
    ultimately show ?thesis
      using new by (intro exI [of _ ?w] exI [of _ ?new]) simp
  next
    case (Some h)
    let ?w = "w\<lparr>w_db := set_hosts (update_by wh_host_id ?hid ?f) (w_db w)\<rparr>"
    from Some have h: "h \<in> set ?hs" "wh_host_id h = ?hid" by (auto dest: find_Some_in)
    then have "?f h \<in> set (hosts (w_db ?w))" by (force simp: update_by_def)
    moreover have "wf_hosts (hosts (w_db ?w))"
      using assms(1) by (auto intro!: wf_hosts_update wf simp: wf_hosts_in)
    moreover have "host_ids_fresh (w_db ?w)"
      using assms(2) by (auto simp: host_ids_fresh_def dest!: in_set_update_by)
    moreover have "filter (\<lambda>g. wh_host_id g \<noteq> ?hid) (hosts (w_db ?w)) = filter (\<lambda>g. wh_host_id g \<noteq> ?hid) ?hs"
      by (simp add: filter_update_by_other)
    moreover have "publish_heartbeat s env w = (Inr (), ?w)" using run Some by simp
    ultimately show ?thesis
      using h by (intro exI [of _ ?w] exI [of _ "?f h"]) simp
  qed
qed

text \<open>
  C21: After a heartbeat the worker's host is registered and online, with the running containers
  of this system as its count (the stored count when Docker does not answer) and the heartbeat
  stamped now; a new host gets the default capacity. No other host changes and the inventory
  stays well-formed, so the host is eligible again at once.
\<close>

theorem heartbeat_effect:
  assumes "wf_hosts (hosts (w_db w))" "host_ids_fresh (w_db w)" "hb_init_db env = None" "hb_commit env = None"
    and "\<not> blank (worker_host_id s)"
    and "collect_host_stats (hb_frepr env) (hb_readings env) (PStr (worker_host_id s)) (PStr (test_runs_dir s)) = Inr stats"
  shows "\<exists>w' h. publish_heartbeat s env w = (Inr (), w') \<and> h \<in> set (hosts (w_db w')) \<and>
    wh_host_id h = worker_host_id s \<and> wh_is_online h \<and> wh_last_heartbeat h = Some (Aware (hb_now env)) \<and>
    wh_active_containers h = reported_count (hb_docker env) (worker_host_id s) (hosts (w_db w)) \<and>
    filter (\<lambda>g. wh_host_id g \<noteq> worker_host_id s) (hosts (w_db w')) =
      filter (\<lambda>g. wh_host_id g \<noteq> worker_host_id s) (hosts (w_db w)) \<and>
    wf_hosts (hosts (w_db w')) \<and> host_ids_fresh (w_db w')"
  using assms by (rule heartbeat_outcome)

definition example_beat :: heartbeat_env where
  "example_beat = \<lparr>hb_init_db = None, hb_readings = example_readings, hb_frepr = (\<lambda>_. []),
     hb_docker = example_docker, hb_now = 77, hb_commit = None\<rparr>"

lemma example_beat_collects:
  "\<exists>st. collect_host_stats (hb_frepr example_beat) (hb_readings example_beat)
      (PStr (worker_host_id worker_settings)) (PStr (test_runs_dir worker_settings)) = Inr st"
proof -
  have c: "sane_readings (hb_readings example_beat)" "\<not> blank (worker_host_id worker_settings)"
    "\<not> blank (test_runs_dir worker_settings)" "sane_disk (5368709120, 10737418240)"
    "rd_disk_usage (hb_readings example_beat) (if \<not> rd_path_exists (hb_readings example_beat) (test_runs_dir worker_settings)
        \<and> rd_makedirs_fails (hb_readings example_beat) (test_runs_dir worker_settings)
       then ''/'' else test_runs_dir worker_settings) = Inr (5368709120, 10737418240)"
    by code_simp+
  show ?thesis using collect_succeeds [OF c(1-3,5,4)] by blast
qed

theorem heartbeat_effect_witness:
  "\<exists>w' h. publish_heartbeat worker_settings example_beat empty_world = (Inr (), w') \<and> h \<in> set (hosts (w_db w')) \<and>
     wh_host_id h = ''h1'' \<and> wh_is_online h \<and> wh_active_containers h = 1"
proof -
  have w: "wf_hosts (hosts (w_db empty_world))" "host_ids_fresh (w_db empty_world)"
    "hb_init_db example_beat = None" "hb_commit example_beat = None" "\<not> blank (worker_host_id worker_settings)"
    by code_simp+
  obtain st where st: "collect_host_stats (hb_frepr example_beat) (hb_readings example_beat)
      (PStr (worker_host_id worker_settings)) (PStr (test_runs_dir worker_settings)) = Inr st"
    using example_beat_collects by blast
  have "reported_count (hb_docker example_beat) (worker_host_id worker_settings) (hosts (w_db empty_world)) = 1"
    "worker_host_id worker_settings = ''h1''" by code_simp+
  note r = this
  obtain w' h where "publish_heartbeat worker_settings example_beat empty_world = (Inr (), w')"
    "h \<in> set (hosts (w_db w'))" "wh_host_id h = worker_host_id worker_settings" "wh_is_online h"
    "wh_active_containers h = reported_count (hb_docker example_beat) (worker_host_id worker_settings)
       (hosts (w_db empty_world))"
    using heartbeat_effect [OF w st] by blast
  then show ?thesis using r by metis
qed

section \<open>The worker's reaper\<close>

text \<open>
  C36: The reaper fails exactly the runs that are RUNNING on its own host and were last updated
  more than two hours ago, stamps them, and asks for the release of each of their reservations in
  their order; every other run is untouched: one of another host, one updated just at the
  deadline, and one that is still DISPATCHED, however old it is.
\<close>

theorem reap_stale_exact:
  "reap_stale s None quali now None w = (Inr (),
    (let late = (\<lambda>r. te_target_host_id r = Some (worker_host_id s) \<and> te_status r = ''RUNNING'' \<and>
           utc_micros (te_updated_at r) < now - 2 * 60 * 60 * 1000000)
     in w\<lparr>w_db := (w_db w)\<lparr>executions := map (\<lambda>r. if late r
           then r\<lparr>te_status := ''FAILED'', te_updated_at := Aware now\<rparr> else r) (executions (w_db w))\<rparr>,
         w_trace := w_trace w @ releases s quali (filter late (executions (w_db w)))\<rparr>))"
proof -
  let ?late = "\<lambda>r. te_target_host_id r = Some (worker_host_id s) \<and> te_status r = ''RUNNING'' \<and>
    utc_micros (te_updated_at r) < now - 2 * 60 * 60 * 1000000"
  have late: "stuck (worker_host_id s) (now - run_deadline) = ?late"
    by (simp add: fun_eq_iff stuck_def run_deadline_def seconds_def)
  have "fail_runs (Aware now) ?late = map (\<lambda>r. if ?late r
      then r\<lparr>te_status := ''FAILED'', te_updated_at := Aware now\<rparr> else r)"
    by (rule fail_runs_stamped) simp
  then show ?thesis
    by (simp add: reap_stale_def late Let_def act_bind_def get_db_def release_each_result service_def
        act_return_def set_executions_def)
qed

text \<open>Runs of both hosts, on both sides of the deadline, RUNNING and DISPATCHED.\<close>

definition reaper_world :: world where
  "reaper_world = (let run = (\<lambda>i tid host st t. (new_test_execution i tid 7 ''pytest'' ''img'' st (Aware t))
       \<lparr>te_target_host_id := Some host, te_quali_reservation_id := Some tid\<rparr>)
     in empty_world\<lparr>w_db := (w_db empty_world)\<lparr>executions :=
          [run 1 ''late'' ''h1'' RUNNING (- 1), run 2 ''just'' ''h1'' RUNNING 0, run 3 ''other'' ''h2'' RUNNING (- 1),
           run 4 ''queued'' ''h1'' DISPATCHED (- 1)]\<rparr>\<rparr>)"

theorem reap_stale_exact_witness:
  "map (\<lambda>r. (te_test_id r, te_status r)) (executions (w_db (snd
     (reap_stale worker_settings None (\<lambda>_. Status 200) 7200000000 None reaper_world)))) =
     [(''late'', ''FAILED''), (''just'', ''RUNNING''), (''other'', ''RUNNING''), (''queued'', ''DISPATCHED'')] \<and>
   w_trace (snd (reap_stale worker_settings None (\<lambda>_. Status 200) 7200000000 None reaper_world)) =
     [HttpPost (release_url worker_settings ''late'')]"
proof -
  have "release_trace worker_settings (\<lambda>_. Status 200) (Some ''late'') = [HttpPost (release_url worker_settings ''late'')]"
    by code_simp
  moreover have "worker_host_id worker_settings = ''h1''" by (simp add: worker_settings_def)
  ultimately show ?thesis
    unfolding reap_stale_exact
    by (simp add: reaper_world_def Let_def empty_world_def new_test_execution_def releases_def)
qed

end
