(* ===== verification/Capacity.thy ===== *)
theory Capacity
  imports Periodic Routes
begin

text \<open>
  The inventory under concurrent access: the backend's dispatch, which reserves under a row lock,
  offers the task to the broker and undoes the reservation when that fails; the backend's admin form
  and maintenance sweep; the worker processes, whose release of a slot and whose heartbeat read
  first and write later, without a lock. The steps are the transactions' reads and writes, in
  any interleaving, and any operation may be aborted before it writes, by a failing commit or a
  crash. A column that has the value its transaction loaded is not written, as in SQLAlchemy.
  Two ghosts are there to state what the counts should be: \<open>cp_owed\<close> counts the tasks that have been
  sent less the slots given back, \<open>cp_running\<close> the containers that run, which is what a heartbeat
  learns from Docker; neither restricts a step of the code.
\<close>

section \<open>The steps\<close>

text \<open>What one process of the backend or of a worker is in the middle of.\<close>

datatype cap_op =
    NoOp
  | Offering worker_host
  | Lost int
  | Undoing worker_host
  | Releasing worker_host
  | Counted string int pyfloat int
  | Beating worker_host int pyfloat int
  | Registering string int pyfloat int
  | Editing worker_host string bool int

record capacity =
  cp_hosts :: "worker_host list"
  cp_ops :: "nat \<Rightarrow> cap_op"
  cp_owed :: "string \<Rightarrow> int"
  cp_running :: "string \<Rightarrow> int"

definition cap_start :: "worker_host list \<Rightarrow> (string \<Rightarrow> int) \<Rightarrow> (string \<Rightarrow> int) \<Rightarrow> capacity" where
  "cap_start hs owed running = \<lparr>cp_hosts = hs, cp_ops = (\<lambda>_. NoOp), cp_owed = owed, cp_running = running\<rparr>"

definition set_op :: "nat \<Rightarrow> cap_op \<Rightarrow> capacity \<Rightarrow> capacity" where
  "set_op i op s = s\<lparr>cp_ops := (cp_ops s)(i := op)\<rparr>"

definition write_hosts :: "nat \<Rightarrow> (worker_host list \<Rightarrow> worker_host list) \<Rightarrow> capacity \<Rightarrow> capacity" where
  "write_hosts i f s = set_op i NoOp (s\<lparr>cp_hosts := f (cp_hosts s)\<rparr>)"

definition add_owed :: "string \<Rightarrow> int \<Rightarrow> capacity \<Rightarrow> capacity" where
  "add_owed hid n s = s\<lparr>cp_owed := (cp_owed s)(hid := cp_owed s hid + n)\<rparr>"

definition add_running :: "string \<Rightarrow> int \<Rightarrow> capacity \<Rightarrow> capacity" where
  "add_running hid n s = s\<lparr>cp_running := (cp_running s)(hid := cp_running s hid + n)\<rparr>"

definition row_of :: "string \<Rightarrow> capacity \<Rightarrow> worker_host option" where
  "row_of hid s = List.find (\<lambda>h. wh_host_id h = hid) (cp_hosts s)"

text \<open>
  \<open>dispatch\<close>: from its locking query to its commit; the same with a commit that fails; the task
  accepted by the broker; the undo after a refusal, which writes the count the dispatch had read;
  and the undo after a failed commit, which reads the row again before it writes.
\<close>

definition cap_reserve :: "nat \<Rightarrow> test_bundle \<Rightarrow> capacity \<Rightarrow> capacity" where
  "cap_reserve i b s = (case pick_host b (cp_hosts s) of
     None \<Rightarrow> s
   | Some h \<Rightarrow> set_op i (Offering h) (s\<lparr>cp_hosts := reserve_slot h (cp_hosts s)\<rparr>))"

definition cap_lose :: "nat \<Rightarrow> test_bundle \<Rightarrow> capacity \<Rightarrow> capacity" where
  "cap_lose i b s = (case pick_host b (cp_hosts s) of None \<Rightarrow> s | Some h \<Rightarrow> set_op i (Lost (wh_id h)) s)"

definition cap_sent :: "nat \<Rightarrow> worker_host \<Rightarrow> capacity \<Rightarrow> capacity" where
  "cap_sent i h s = set_op i NoOp (add_owed (wh_host_id h) 1 s)"

definition cap_refused :: "nat \<Rightarrow> worker_host \<Rightarrow> capacity \<Rightarrow> capacity" where
  "cap_refused i h s = (if wh_active_containers h + 1 > 0
     then write_hosts i (undo_slot h (wh_active_containers h + 1)) s else set_op i NoOp s)"

definition cap_reread :: "nat \<Rightarrow> int \<Rightarrow> capacity \<Rightarrow> capacity" where
  "cap_reread i k s = (case List.find (\<lambda>h. wh_id h = k) (cp_hosts s) of
     None \<Rightarrow> set_op i NoOp s
   | Some row \<Rightarrow> set_op i (if wh_active_containers row > 0 then Undoing row else NoOp) s)"

definition cap_undo :: "nat \<Rightarrow> worker_host \<Rightarrow> capacity \<Rightarrow> capacity" where
  "cap_undo i row s = write_hosts i (undo_slot row (wh_active_containers row)) s"

text \<open>\<open>_decrement_active_containers\<close>: the query with its test, and the write of the value computed from it.\<close>

definition release_read :: "nat \<Rightarrow> string \<Rightarrow> capacity \<Rightarrow> capacity" where
  "release_read i hid s = (case row_of hid s of
     None \<Rightarrow> s
   | Some row \<Rightarrow> if wh_active_containers row > 0 then set_op i (Releasing row) s else add_owed hid (- 1) s)"

definition release_write :: "nat \<Rightarrow> worker_host \<Rightarrow> capacity \<Rightarrow> capacity" where
  "release_write i row s = add_owed (wh_host_id row) (- 1) (write_hosts i
     (update_by wh_id (wh_id row) (\<lambda>h. h\<lparr>wh_active_containers := wh_active_containers row - 1\<rparr>)) s)"

text \<open>
  \<open>publish_heartbeat\<close>: the count, from Docker or the last known one; the query for the row; the
  write of the columns that differ from what was loaded, or the insertion of a new row with an
  id of the database's sequence, which another registration of the name makes fail.
\<close>

definition beat_count :: "nat \<Rightarrow> string \<Rightarrow> bool \<Rightarrow> pyfloat \<Rightarrow> int \<Rightarrow> capacity \<Rightarrow> capacity" where
  "beat_count i hid docker cpu now s = set_op i (Counted hid
     (if docker then cp_running s hid else case row_of hid s of None \<Rightarrow> 0 | Some h \<Rightarrow> wh_active_containers h) cpu now) s"

definition beat_read :: "nat \<Rightarrow> string \<Rightarrow> int \<Rightarrow> pyfloat \<Rightarrow> int \<Rightarrow> capacity \<Rightarrow> capacity" where
  "beat_read i hid n cpu now s = set_op i (case row_of hid s of
     None \<Rightarrow> Registering hid n cpu now
   | Some row \<Rightarrow> Beating row n cpu now) s"

definition beat_columns :: "worker_host \<Rightarrow> int \<Rightarrow> pyfloat \<Rightarrow> int \<Rightarrow> worker_host \<Rightarrow> worker_host" where
  "beat_columns row n cpu now h = h\<lparr>wh_is_online := (wh_is_online row \<longrightarrow> wh_is_online h),
     wh_active_containers := (if n = wh_active_containers row then wh_active_containers h else n),
     wh_cpu_utilization := (if cpu = wh_cpu_utilization row then wh_cpu_utilization h else cpu),
     wh_last_heartbeat := Some (Aware now)\<rparr>"

definition beat_write :: "nat \<Rightarrow> worker_host \<Rightarrow> int \<Rightarrow> pyfloat \<Rightarrow> int \<Rightarrow> capacity \<Rightarrow> capacity" where
  "beat_write i row n cpu now s = write_hosts i (update_by wh_id (wh_id row) (beat_columns row n cpu now)) s"

definition beat_register :: "nat \<Rightarrow> string \<Rightarrow> int \<Rightarrow> pyfloat \<Rightarrow> int \<Rightarrow> int \<Rightarrow> capacity \<Rightarrow> capacity" where
  "beat_register i hid n cpu now k s =
     (case insert_by wh_host_id (beat n cpu now (new_worker_host k hid)) (cp_hosts s) of
        Inl e \<Rightarrow> set_op i NoOp s
      | Inr hs \<Rightarrow> write_hosts i (\<lambda>_. hs) s)"

text \<open>The admin form: the query, and the write of the columns that differ from what was loaded.\<close>

definition edit_read :: "nat \<Rightarrow> string \<Rightarrow> string \<Rightarrow> bool \<Rightarrow> int \<Rightarrow> capacity \<Rightarrow> capacity" where
  "edit_read i hid tags emu n s = (case row_of hid s of None \<Rightarrow> s | Some row \<Rightarrow> set_op i (Editing row tags emu n) s)"

definition edit_columns :: "worker_host \<Rightarrow> worker_host \<Rightarrow> worker_host \<Rightarrow> worker_host" where
  "edit_columns row new h = h\<lparr>
     wh_hardware_tags := (if wh_hardware_tags new = wh_hardware_tags row then wh_hardware_tags h else wh_hardware_tags new),
     wh_supports_emulation := (if wh_supports_emulation new = wh_supports_emulation row then wh_supports_emulation h
       else wh_supports_emulation new),
     wh_max_containers := (if wh_max_containers new = wh_max_containers row then wh_max_containers h
       else wh_max_containers new)\<rparr>"

definition edit_write :: "nat \<Rightarrow> worker_host \<Rightarrow> string \<Rightarrow> bool \<Rightarrow> int \<Rightarrow> capacity \<Rightarrow> capacity" where
  "edit_write i row tags emu n s =
     write_hosts i (update_by wh_id (wh_id row) (edit_columns row (set_capabilities tags emu n row))) s"

text \<open>The sweep writes one constant into the rows it found dead: which ones is left open here.\<close>

inductive cap_step :: "capacity \<Rightarrow> capacity \<Rightarrow> bool" where
  reserve: "cp_ops s i = NoOp \<Longrightarrow> cap_step s (cap_reserve i b s)"
| lose: "cp_ops s i = NoOp \<Longrightarrow> cap_step s (cap_lose i b s)"
| reread: "cp_ops s i = Lost k \<Longrightarrow> cap_step s (cap_reread i k s)"
| undo: "cp_ops s i = Undoing row \<Longrightarrow> cap_step s (cap_undo i row s)"
| sent: "cp_ops s i = Offering h \<Longrightarrow> cap_step s (cap_sent i h s)"
| refused: "cp_ops s i = Offering h \<Longrightarrow> cap_step s (cap_refused i h s)"
| started: "cap_step s (add_running hid 1 s)"
| removed: "0 < cp_running s hid \<Longrightarrow> cap_step s (add_running hid (- 1) s)"
| release: "cp_ops s i = NoOp \<Longrightarrow> cap_step s (release_read i hid s)"
| released: "cp_ops s i = Releasing row \<Longrightarrow> cap_step s (release_write i row s)"
| count: "cp_ops s i = NoOp \<Longrightarrow> \<not> blank hid \<Longrightarrow> pf_le (Fin 0) cpu \<Longrightarrow> cap_step s (beat_count i hid docker cpu now s)"
| counted: "cp_ops s i = Counted hid n cpu now \<Longrightarrow> cap_step s (beat_read i hid n cpu now s)"
| beaten: "cp_ops s i = Beating row n cpu now \<Longrightarrow> cap_step s (beat_write i row n cpu now s)"
| registered: "cp_ops s i = Registering hid n cpu now \<Longrightarrow> k \<notin> wh_id ` set (cp_hosts s) \<Longrightarrow>
    cap_step s (beat_register i hid n cpu now k s)"
| edit: "cp_ops s i = NoOp \<Longrightarrow> cap_step s (edit_read i hid tags emu n s)"
| edited: "cp_ops s i = Editing row tags emu n \<Longrightarrow> cap_step s (edit_write i row tags emu n s)"
| swept: "cap_step s (s\<lparr>cp_hosts := mark_offline ids (cp_hosts s)\<rparr>)"
| aborted: "cap_step s (set_op i NoOp s)"

inductive_cases cap_stepE: "cap_step s t"

section \<open>What every interleaving keeps\<close>

fun op_ok :: "cap_op \<Rightarrow> bool" where
  "op_ok (Offering h) = (0 \<le> wh_active_containers h)"
| "op_ok (Undoing row) = (0 < wh_active_containers row)"
| "op_ok (Releasing row) = (0 < wh_active_containers row)"
| "op_ok (Counted hid n cpu now) = (\<not> blank hid \<and> 0 \<le> n \<and> pf_le (Fin 0) cpu)"
| "op_ok (Beating row n cpu now) = (0 \<le> n \<and> pf_le (Fin 0) cpu)"
| "op_ok (Registering hid n cpu now) = (\<not> blank hid \<and> 0 \<le> n \<and> pf_le (Fin 0) cpu)"
| "op_ok _ = True"

definition cap_inv :: "capacity \<Rightarrow> bool" where
  "cap_inv s \<longleftrightarrow> wf_hosts (cp_hosts s) \<and> (\<forall>i. op_ok (cp_ops s i)) \<and> (\<forall>h. 0 \<le> cp_running s h)"

lemma cap_wf: "cap_inv s \<Longrightarrow> wf_hosts (cp_hosts s)"
  by (simp add: cap_inv_def)

lemma op_ok_at: "cap_inv s \<Longrightarrow> cp_ops s i = op \<Longrightarrow> op_ok op"
  by (auto simp: cap_inv_def)

named_theorems cap_intros \<open>what keeps the invariant of the inventory\<close>

lemma set_op_inv [cap_intros]: "cap_inv s \<Longrightarrow> op_ok op \<Longrightarrow> cap_inv (set_op i op s)"
  by (simp add: cap_inv_def set_op_def)

lemma add_owed_inv [cap_intros]: "cap_inv s \<Longrightarrow> cap_inv (add_owed h n s)"
  by (simp add: cap_inv_def add_owed_def)

lemma add_running_inv: "cap_inv s \<Longrightarrow> 0 \<le> cp_running s h + n \<Longrightarrow> cap_inv (add_running h n s)"
  by (simp add: cap_inv_def add_running_def)

lemma cap_set_hosts_inv: "cap_inv s \<Longrightarrow> wf_hosts (f (cp_hosts s)) \<Longrightarrow> cap_inv (s\<lparr>cp_hosts := f (cp_hosts s)\<rparr>)"
  by (simp add: cap_inv_def)

lemma write_hosts_inv: "cap_inv s \<Longrightarrow> wf_hosts (f (cp_hosts s)) \<Longrightarrow> cap_inv (write_hosts i f s)"
  by (simp add: write_hosts_def set_op_inv cap_set_hosts_inv)

text \<open>A write of columns of one row.\<close>

lemma write_row_inv [cap_intros]:
  assumes "cap_inv s" "\<And>h. wh_host_id (f h) = wh_host_id h" "\<And>h. wh_id (f h) = wh_id h"
    and "\<And>h. wf_host h \<Longrightarrow> wf_host (f h)"
  shows "cap_inv (write_hosts i (update_by wh_id k f) s)"
  using cap_wf [OF assms(1)]
  by (intro write_hosts_inv assms(1) wf_hosts_update assms(2-4)) (auto intro: wf_hosts_in)

lemma row_of_wf: "cap_inv s \<Longrightarrow> row_of hid s = Some row \<Longrightarrow> wf_host row"
  using find_Some_in wf_hosts_in cap_wf unfolding row_of_def by metis

lemma cap_reserve_inv: "cap_inv s \<Longrightarrow> cap_inv (cap_reserve i b s)"
proof (cases "pick_host b (cp_hosts s)")
  case (Some h)
  assume s: "cap_inv s"
  note wf = cap_wf [OF s]
  have "0 \<le> wh_active_containers h" using pick_host_Some [OF wf Some] by (auto intro: host_nonneg [OF wf])
  moreover from this have "wf_hosts (reserve_slot h (cp_hosts s))"
    unfolding reserve_slot_def by (intro wf_hosts_update wf) (auto simp: wf_host_def dest: wf_hosts_in [OF wf])
  ultimately show ?thesis using s Some by (simp add: cap_reserve_def set_op_inv cap_set_hosts_inv)
qed (simp add: cap_reserve_def)

lemma cap_lose_inv: "cap_inv s \<Longrightarrow> cap_inv (cap_lose i b s)"
  by (simp add: cap_lose_def set_op_inv split: option.split)

lemma cap_sent_inv: "cap_inv s \<Longrightarrow> cap_inv (cap_sent i h s)"
  by (simp add: cap_sent_def set_op_inv add_owed_inv)

lemma cap_refused_inv:
  assumes "cap_inv s" "cp_ops s i = Offering h"
  shows "cap_inv (cap_refused i h s)"
  using op_ok_at [OF assms] unfolding cap_refused_def undo_slot_def
  by (auto simp: wf_host_def intro!: cap_intros assms(1))

lemma cap_reread_inv: "cap_inv s \<Longrightarrow> cap_inv (cap_reread i k s)"
  by (auto simp: cap_reread_def intro: cap_intros split: option.split)

lemma cap_undo_inv:
  assumes "cap_inv s" "cp_ops s i = Undoing row"
  shows "cap_inv (cap_undo i row s)"
  using op_ok_at [OF assms] unfolding cap_undo_def undo_slot_def
  by (auto simp: wf_host_def intro!: cap_intros assms(1))

lemma release_read_inv: "cap_inv s \<Longrightarrow> cap_inv (release_read i hid s)"
  by (auto simp: release_read_def intro: cap_intros split: option.split)

lemma release_write_inv:
  assumes "cap_inv s" "cp_ops s i = Releasing row"
  shows "cap_inv (release_write i row s)"
  using op_ok_at [OF assms] unfolding release_write_def
  by (auto simp: wf_host_def intro!: cap_intros assms(1))

lemma beat_count_inv: "cap_inv s \<Longrightarrow> \<not> blank hid \<Longrightarrow> pf_le (Fin 0) cpu \<Longrightarrow> cap_inv (beat_count i hid docker cpu now s)"
  unfolding beat_count_def
  by (rule set_op_inv) (auto simp: cap_inv_def wf_host_def dest: row_of_wf [unfolded cap_inv_def, OF conjI] split: option.split)

lemma beat_read_inv: "cap_inv s \<Longrightarrow> cp_ops s i = Counted hid n cpu now \<Longrightarrow> cap_inv (beat_read i hid n cpu now s)"
  using op_ok_at [of s i] by (auto simp: beat_read_def intro!: set_op_inv split: option.split)

lemma beat_write_inv:
  assumes "cap_inv s" "cp_ops s i = Beating row n cpu now"
  shows "cap_inv (beat_write i row n cpu now s)"
  using op_ok_at [OF assms] unfolding beat_write_def
  by (auto simp: wf_host_def beat_columns_def intro!: cap_intros assms(1))

lemma beat_register_inv:
  assumes "cap_inv s" "cp_ops s i = Registering hid n cpu now" "k \<notin> wh_id ` set (cp_hosts s)"
  shows "cap_inv (beat_register i hid n cpu now k s)"
proof (cases "hid \<in> wh_host_id ` set (cp_hosts s)")
  case False
  let ?new = "beat n cpu now (new_worker_host k hid)"
  have new: "wh_host_id ?new = hid" "wh_id ?new = k" by (simp_all add: new_worker_host_def)
  have "wf_host ?new" using op_ok_at [OF assms(1,2)] by (simp add: wf_host_def beat_def new_worker_host_def)
  then have "wf_hosts (cp_hosts s @ [?new])"
    using cap_wf [OF assms(1)] False assms(3) new by (simp add: wf_hosts_def unique_by_def)
  moreover have "insert_by wh_host_id ?new (cp_hosts s) = Inr (cp_hosts s @ [?new])"
    using False new by (simp add: insert_by_def)
  ultimately show ?thesis using assms(1) by (simp add: beat_register_def write_hosts_inv)
next
  case True
  then show ?thesis using assms(1) by (simp add: beat_register_def insert_by_def new_worker_host_def set_op_inv)
qed

lemma edit_read_inv: "cap_inv s \<Longrightarrow> cap_inv (edit_read i hid tags emu n s)"
  by (simp add: edit_read_def set_op_inv split: option.split)

lemma edit_write_inv: "cap_inv s \<Longrightarrow> cap_inv (edit_write i row tags emu n s)"
  unfolding edit_write_def
  by (auto simp: wf_host_def edit_columns_def set_capabilities_def intro!: cap_intros)

lemma swept_inv: "cap_inv s \<Longrightarrow> cap_inv (s\<lparr>cp_hosts := mark_offline ids (cp_hosts s)\<rparr>)"
proof (rule cap_set_hosts_inv)
  assume "cap_inv s"
  note wf = cap_wf [OF this]
  show "wf_hosts (mark_offline ids (cp_hosts s))"
    unfolding mark_offline_def by (rule wf_hosts_map [OF wf]) (use wf_hosts_in [OF wf] in \<open>auto simp: wf_host_def\<close>)
qed

lemma cap_step_inv: "cap_inv s \<Longrightarrow> cap_step s t \<Longrightarrow> cap_inv t"
  by (erule cap_stepE)
     (simp_all add: cap_reserve_inv cap_lose_inv cap_reread_inv cap_undo_inv cap_sent_inv cap_refused_inv
       release_read_inv release_write_inv beat_count_inv beat_read_inv beat_write_inv beat_register_inv
       edit_read_inv edit_write_inv swept_inv set_op_inv add_running_inv, simp_all add: cap_inv_def add_running_def)

definition cap_init :: "capacity \<Rightarrow> bool" where
  "cap_init s \<longleftrightarrow> (\<exists>hs owed running. wf_hosts hs \<and> (\<forall>h. 0 \<le> running h) \<and> s = cap_start hs owed running)"

interpretation cap: invariant_system cap_init cap_step cap_inv
proof
  show "cap_init s \<Longrightarrow> cap_inv s" for s
    by (auto simp: cap_init_def cap_inv_def cap_start_def)
  show "cap_inv s \<Longrightarrow> cap_step s t \<Longrightarrow> cap_inv t" for s t
    by (rule cap_step_inv)
qed

text \<open>
  C13: Whatever the interleaving of dispatches that are accepted, refused or fail to commit, of
  releases, of heartbeats that refresh or register a host, of admin updates and of sweeps, whichever
  of them are aborted, and however old the values are that are written back, the inventory stays
  well-formed: no container count is ever negative and names stay unique, so the scheduler's
  assertions never fail.
\<close>

theorem capacity_stays_sound:
  assumes "wf_hosts hs" "\<And>h. 0 \<le> running h" "cap_step\<^sup>*\<^sup>* (cap_start hs owed running) s"
  shows "wf_hosts (cp_hosts s) \<and> list_all (\<lambda>h. 0 \<le> wh_active_containers h) (cp_hosts s) \<and>
    (\<exists>r. select_host (cp_hosts s) (Inr b) = Inr r)"
proof -
  have "cap_init (cap_start hs owed running)" using assms(1,2) unfolding cap_init_def by blast
  then have "cap_inv (cap_start hs owed running)" by (rule cap.inv_init)
  with assms(3) have "cap_inv s" by (rule cap.steps_inv)
  then have wf: "wf_hosts (cp_hosts s)" by (simp add: cap_inv_def)
  moreover have "\<exists>r. select_host (cp_hosts s) (Inr b) = Inr r"
    using select_host_pick [OF wf] by auto
  moreover have "list_all (\<lambda>h. 0 \<le> wh_active_containers h) (cp_hosts s)"
    using wf by (auto simp: wf_hosts_def wf_host_def list_all_iff)
  ultimately show ?thesis by blast
qed

section \<open>What the unlocked writes lose\<close>

text \<open>A host for one container that has just reported in.\<close>

definition solo_host :: "int \<Rightarrow> worker_host" where
  "solo_host n = (beat n (Fin 10) 0 (example_host ''h1'' 0 10))\<lparr>wh_max_containers := 1\<rparr>"

definition solo :: "int \<Rightarrow> (nat \<Rightarrow> cap_op) \<Rightarrow> (string \<Rightarrow> int) \<Rightarrow> capacity" where
  "solo n ops owed = \<lparr>cp_hosts = [solo_host n], cp_ops = ops, cp_owed = owed, cp_running = (\<lambda>_. 0)\<rparr>"

lemma solo_wf: "wf_hosts [solo_host 0]"
  by code_simp

lemma solo_fields [simp]:
  "wh_host_id (solo_host n) = ''h1''" "wh_id (solo_host n) = 2"
  "wh_active_containers (solo_host n) = n"
  by (simp_all add: solo_host_def example_host_def new_worker_host_def)

lemma solo_with_count [simp]: "(solo_host m)\<lparr>wh_active_containers := n\<rparr> = solo_host n"
  by (simp add: solo_host_def beat_def)

lemma solo_beat: "beat n (Fin 10) 0 (solo_host m) = solo_host n"
  by (simp add: solo_host_def beat_def)

lemma solo_row [simp]:
  "List.find (\<lambda>h. wh_host_id h = ''h1'') [solo_host n] = Some (solo_host n)"
  by simp

lemmas cap_defs = cap_reserve_def cap_sent_def beat_count_def beat_read_def beat_write_def release_read_def
  release_write_def set_op_def add_owed_def write_hosts_def row_of_def

text \<open>
  A heartbeat that counted the containers before a dispatch and writes after the release and the next
  dispatch, and another worker that registers meanwhile.
\<close>

theorem capacity_stays_sound_witness:
  "\<exists>s. cap_step\<^sup>*\<^sup>* (cap_start [solo_host 0] (\<lambda>_. 0) (\<lambda>_. 0)) s \<and>
     map (\<lambda>h. (wh_host_id h, wh_active_containers h)) (cp_hosts s) = [(''h1'', 0), (''h2'', 0)] \<and> cp_owed s ''h1'' = 1 \<and>
     list_all (\<lambda>h. 0 \<le> wh_active_containers h) (cp_hosts s) \<and> (\<exists>r. select_host (cp_hosts s) (Inr example_bundle) = Inr r)"
proof -
  let ?s0 = "cap_start [solo_host 0] (\<lambda>_. 0) (\<lambda>_. 0)"
  let ?s1 = "cap_reserve 0 example_bundle ?s0"
  let ?s2 = "beat_count 1 ''h1'' True (Fin 20) 5 ?s1"
  let ?s3 = "beat_read 1 ''h1'' 0 (Fin 20) 5 ?s2"
  let ?s4 = "cap_sent 0 (solo_host 0) ?s3"
  let ?s5 = "release_read 2 ''h1'' ?s4"
  let ?s6 = "release_write 2 (solo_host 1) ?s5"
  let ?s7 = "cap_sent 0 (solo_host 0) (cap_reserve 0 example_bundle ?s6)"
  let ?s8 = "beat_write 1 (solo_host 1) 0 (Fin 20) 5 ?s7"
  let ?s9 = "beat_count 3 ''h2'' False (Fin 0) 6 ?s8"
  let ?s10 = "beat_read 3 ''h2'' 0 (Fin 0) 6 ?s9"
  let ?s11 = "beat_register 3 ''h2'' 0 (Fin 0) 6 9 ?s10"
  have c: "pf_le (Fin 0) (Fin 20)" "pf_le (Fin 0) (Fin 0)" "\<not> blank ''h1''" "\<not> blank ''h2''" by code_simp+
  have "cp_ops ?s0 0 = NoOp" "cp_ops ?s1 1 = NoOp" "cp_ops ?s2 1 = Counted ''h1'' 0 (Fin 20) 5"
    "cp_ops ?s3 0 = Offering (solo_host 0)" "cp_ops ?s4 2 = NoOp" "cp_ops ?s5 2 = Releasing (solo_host 1)"
    "cp_ops ?s6 0 = NoOp" "cp_ops (cap_reserve 0 example_bundle ?s6) 0 = Offering (solo_host 0)"
    "cp_ops ?s7 1 = Beating (solo_host 1) 0 (Fin 20) 5" "cp_ops ?s8 3 = NoOp" "cp_ops ?s9 3 = Counted ''h2'' 0 (Fin 0) 6"
    "cp_ops ?s10 3 = Registering ''h2'' 0 (Fin 0) 6"
    by code_simp+
  note o = this
  have k: "9 \<notin> wh_id ` set (cp_hosts ?s10)" by code_simp
  note more = rtranclp.rtrancl_into_rtrancl [of cap_step]
  have "cap_step\<^sup>*\<^sup>* ?s0 ?s1" by (rule r_into_rtranclp) (rule reserve [OF o(1)])
  then have "cap_step\<^sup>*\<^sup>* ?s0 ?s2" by (rule more) (rule count [OF o(2) c(3,1)])
  then have "cap_step\<^sup>*\<^sup>* ?s0 ?s3" by (rule more) (rule counted [OF o(3)])
  then have "cap_step\<^sup>*\<^sup>* ?s0 ?s4" by (rule more) (rule sent [OF o(4)])
  then have "cap_step\<^sup>*\<^sup>* ?s0 ?s5" by (rule more) (rule release [OF o(5)])
  then have "cap_step\<^sup>*\<^sup>* ?s0 ?s6" by (rule more) (rule released [OF o(6)])
  then have "cap_step\<^sup>*\<^sup>* ?s0 (cap_reserve 0 example_bundle ?s6)" by (rule more) (rule reserve [OF o(7)])
  then have "cap_step\<^sup>*\<^sup>* ?s0 ?s7" by (rule more) (rule sent [OF o(8)])
  then have "cap_step\<^sup>*\<^sup>* ?s0 ?s8" by (rule more) (rule beaten [OF o(9)])
  then have "cap_step\<^sup>*\<^sup>* ?s0 ?s9" by (rule more) (rule count [OF o(10) c(4,2)])
  then have "cap_step\<^sup>*\<^sup>* ?s0 ?s10" by (rule more) (rule counted [OF o(11)])
  then have run: "cap_step\<^sup>*\<^sup>* ?s0 ?s11" by (rule more) (rule registered [OF o(12) k])
  have final: "map (\<lambda>h. (wh_host_id h, wh_active_containers h)) (cp_hosts ?s11) = [(''h1'', 0), (''h2'', 0)]"
    "cp_owed ?s11 ''h1'' = 1" by code_simp+
  note sound = capacity_stays_sound [where running = "\<lambda>_. 0", OF solo_wf order_refl run, of example_bundle, THEN conjunct2]
  show ?thesis
    by (rule exI [of _ ?s11], intro conjI; fact run final sound [THEN conjunct1] sound [THEN conjunct2])
qed

lemma solo_dispatch:
  "cap_step\<^sup>*\<^sup>* (solo 0 (\<lambda>_. NoOp) owed) (solo 1 (\<lambda>_. NoOp) (owed(''h1'' := owed ''h1'' + 1)))"
proof -
  let ?s = "solo 0 (\<lambda>_. NoOp) owed" and ?h = "solo_host 0"
  have p: "pick_host example_bundle [solo_host 0] = Some ?h" by code_simp
  let ?t = "cap_reserve 0 example_bundle ?s"
  have "cap_step ?s ?t" by (rule reserve) (simp add: solo_def)
  moreover have "cap_step ?t (cap_sent 0 ?h ?t)"
    by (rule sent) (simp add: cap_defs solo_def p)
  moreover have "cap_sent 0 ?h ?t = solo 1 (\<lambda>_. NoOp) (owed(''h1'' := owed ''h1'' + 1))"
    by (simp add: cap_defs solo_def p reserve_slot_def update_by_def fun_eq_iff)
  ultimately show ?thesis by (metis converse_rtranclp_into_rtranclp rtranclp.rtrancl_refl)
qed

lemma solo_beats: "cap_step\<^sup>*\<^sup>* (solo 1 (\<lambda>_. NoOp) owed) (solo 0 (\<lambda>_. NoOp) owed)"
proof -
  let ?s = "solo 1 (\<lambda>_. NoOp) owed"
  let ?t = "beat_count 0 ''h1'' True (Fin 10) 0 ?s"
  let ?u = "beat_read 0 ''h1'' 0 (Fin 10) 0 ?t"
  let ?v = "beat_write 0 (solo_host 1) 0 (Fin 10) 0 ?u"
  have c: "\<not> blank ''h1''" "pf_le (Fin 0) (Fin 10)" by code_simp+
  have "cap_step ?s ?t" by (rule count [OF _ c]) (simp add: solo_def)
  moreover have "cap_step ?t ?u" by (rule counted) (simp add: cap_defs solo_def)
  moreover have "cap_step ?u ?v" by (rule beaten) (simp add: cap_defs solo_def)
  moreover have "beat_columns (solo_host 1) 0 (Fin 10) 0 (solo_host 1) = solo_host 0"
    by (simp add: beat_columns_def solo_host_def beat_def)
  then have "?v = solo 0 (\<lambda>_. NoOp) owed" by (simp add: cap_defs solo_def update_by_def fun_eq_iff)
  ultimately show ?thesis by (metis converse_rtranclp_into_rtranclp rtranclp.rtrancl_refl)
qed

text \<open>
  The heartbeat writes the number of running containers and so forgets the slots of the
  tasks that are queued but not yet started: a host that accepts one container can be sent any
  number of tasks, one after each heartbeat, without any of them having been released.
\<close>

theorem heartbeat_oversubscribes:
  "\<exists>s. cap_step\<^sup>*\<^sup>* (cap_start [solo_host 0] (\<lambda>_. 0) (\<lambda>_. 0)) s \<and> cp_hosts s = [solo_host 0] \<and>
     wh_max_containers (solo_host 0) = 1 \<and> cp_owed s ''h1'' = int n"
proof -
  have "\<exists>owed. cap_step\<^sup>*\<^sup>* (solo 0 (\<lambda>_. NoOp) (\<lambda>_. 0)) (solo 0 (\<lambda>_. NoOp) owed) \<and> owed ''h1'' = int n"
  proof (induction n)
    case 0
    have "cap_step\<^sup>*\<^sup>* (solo 0 (\<lambda>_. NoOp) (\<lambda>_. 0)) (solo 0 (\<lambda>_. NoOp) (\<lambda>_. 0))" by simp
    then show ?case by (intro exI [of _ "\<lambda>_. 0"]) simp
  next
    case (Suc n)
    then obtain owed where o: "cap_step\<^sup>*\<^sup>* (solo 0 (\<lambda>_. NoOp) (\<lambda>_. 0)) (solo 0 (\<lambda>_. NoOp) owed)" "owed ''h1'' = int n"
      by blast
    let ?owed = "owed(''h1'' := owed ''h1'' + 1)"
    have "cap_step\<^sup>*\<^sup>* (solo 0 (\<lambda>_. NoOp) (\<lambda>_. 0)) (solo 0 (\<lambda>_. NoOp) ?owed)"
      using o(1) solo_dispatch [of owed] solo_beats [of ?owed]
      by (meson rtranclp_trans)
    moreover have "?owed ''h1'' = int (Suc n)" using o(2) by simp
    ultimately show ?case by blast
  qed
  then obtain owed where "cap_step\<^sup>*\<^sup>* (solo 0 (\<lambda>_. NoOp) (\<lambda>_. 0)) (solo 0 (\<lambda>_. NoOp) owed)" "owed ''h1'' = int n"
    by blast
  moreover have "cap_start [solo_host 0] (\<lambda>_. 0) (\<lambda>_. 0) = solo 0 (\<lambda>_. NoOp) (\<lambda>_. 0)"
    by (simp add: cap_start_def solo_def)
  ultimately show ?thesis
    by (intro exI [of _ "solo 0 (\<lambda>_. NoOp) owed"]) (simp add: solo_def solo_host_def)
qed

text \<open>
  Two releases that overlap count as one: both read the same value and write it decreased
  by one, so of two finished runs one slot stays reserved although no run holds it.
\<close>

theorem release_loses_update:
  assumes "wf_hosts hs" "h \<in> set hs" "wh_active_containers h = 2" "owed (wh_host_id h) = 2"
  shows "\<exists>s g. cap_step\<^sup>*\<^sup>* (cap_start hs owed running) s \<and> g \<in> set (cp_hosts s) \<and> wh_host_id g = wh_host_id h \<and>
    wh_active_containers g = 1 \<and> cp_owed s (wh_host_id h) = 0 \<and> cp_ops s = (\<lambda>_. NoOp)"
proof -
  let ?hid = "wh_host_id h" and ?f = "\<lambda>g. g\<lparr>wh_active_containers := 1\<rparr>"
  let ?s0 = "cap_start hs owed running"
  let ?s1 = "release_read 0 ?hid ?s0"
  let ?s2 = "release_read 1 ?hid ?s1"
  let ?s3 = "release_write 0 h ?s2"
  let ?s4 = "release_write 1 h ?s3"
  have row: "List.find (\<lambda>g. wh_host_id g = ?hid) hs = Some h"
    using assms(1,2) wf_hosts_same [OF assms(1)] by (induction hs) (auto simp: wf_hosts_def unique_by_def)
  have s: "?s1 = ?s0\<lparr>cp_ops := (\<lambda>_. NoOp)(0 := Releasing h)\<rparr>"
    "?s2 = ?s0\<lparr>cp_ops := (\<lambda>_. NoOp)(0 := Releasing h, 1 := Releasing h)\<rparr>"
    using row assms(3) by (simp_all add: cap_defs cap_start_def)
  have "cap_step ?s0 ?s1" by (rule release) (simp add: cap_start_def)
  moreover have "cap_step ?s1 ?s2" by (rule release) (simp add: s(1))
  moreover have "cap_step ?s2 ?s3" by (rule released) (unfold s(2), simp)
  moreover have "cap_step ?s3 ?s4" by (rule released) (unfold s(2), simp add: release_write_def write_hosts_def set_op_def add_owed_def)
  ultimately have "cap_step\<^sup>*\<^sup>* ?s0 ?s4" by (meson rtranclp.rtrancl_into_rtrancl rtranclp.rtrancl_refl)
  moreover have "?s4 = ?s0\<lparr>cp_hosts := update_by wh_id (wh_id h) ?f (update_by wh_id (wh_id h) ?f hs),
      cp_owed := owed(?hid := 0)\<rparr>"
    using assms(3,4) unfolding s(2)
    by (simp add: release_write_def write_hosts_def set_op_def add_owed_def cap_start_def fun_eq_iff)
  moreover have "?f h \<in> set (update_by wh_id (wh_id h) ?f (update_by wh_id (wh_id h) ?f hs))"
    using assms(2) by (force simp: update_by_def)
  ultimately show ?thesis by (intro exI [of _ ?s4] exI [of _ "?f h"]) (simp add: cap_start_def)
qed

theorem release_loses_update_witness:
  "\<exists>s g. cap_step\<^sup>*\<^sup>* (cap_start [example_host ''h1'' 2 10] (\<lambda>_. 2) (\<lambda>_. 0)) s \<and> g \<in> set (cp_hosts s) \<and>
     wh_active_containers g = 1 \<and> cp_owed s ''h1'' = 0"
proof -
  let ?h = "example_host ''h1'' 2 10"
  have h: "wf_hosts [?h]" "?h \<in> set [?h]" "wh_active_containers ?h = 2" "wh_host_id ?h = ''h1''" by (code_simp, simp, code_simp+)
  show ?thesis using release_loses_update [OF h(1-3), of "\<lambda>_. 2" "\<lambda>_. 0"] h(4) by auto
qed

end
