(* ===== verification/LiveLogs.thy ===== *)
theory LiveLogs
  imports StatusRender Routes "HOL-Library.Sublist"
begin

text \<open>
  The streaming of a fanout exchange to a WebSocket (\<open>_consume_fanout\<close> of \<open>backend/main.py\<close>)
  and the fragment a log line becomes. The broker and the socket are parameters: whether opening
  the connection, setting up the queue (channel, exchange, queue and binding: one of these awaits
  raises) and closing the connection fail, which sends and callbacks raise, the message bodies, and
  how the iterator of the queue ends: by itself or with an exception, a cancellation among them.
  The acknowledgement of a message is the broker library's.
\<close>

record fanout_env =
  fe_connect :: "pyerr option"
  fe_bind :: "pyerr option"
  fe_send :: "nat \<Rightarrow> pyerr option"
  fe_on_message :: "(nat \<Rightarrow> pyerr option) option"
  fe_end :: "pyerr option"
  fe_close :: "pyerr option"

text \<open>What it does, in order; a call that raises is not in the list.\<close>

datatype fanout_event = Opened | Subscribed | Forwarded string | Notified | Closed

type_synonym fanout_run = "fanout_event list \<times> pyerr option"

text \<open>The loop over the messages: its events, and the exception that ended it, if any.\<close>

fun consume :: "fanout_env \<Rightarrow> (string \<Rightarrow> string result) \<Rightarrow> nat \<Rightarrow> string list \<Rightarrow> fanout_run" where
  "consume env render n [] = ([], fe_end env)"
| "consume env render n (body # rest) =
     (case render body of
        Inl e \<Rightarrow> ([], Some e)
      | Inr fragment \<Rightarrow>
          (case (if fragment \<noteq> [] then fe_send env n else None) of
             Some e \<Rightarrow> ([], Some e)
           | None \<Rightarrow>
               (let out = (if fragment \<noteq> [] then [Forwarded fragment] else [])
                in case fe_on_message env of
                     None \<Rightarrow> (case consume env render (Suc n) rest of (later, r) \<Rightarrow> (out @ later, r))
                   | Some callback \<Rightarrow>
                       (case callback n of
                          Some e \<Rightarrow> (out, Some e)
                        | None \<Rightarrow> (case consume env render (Suc n) rest of (later, r) \<Rightarrow> (out @ Notified # later, r))))))"

text \<open>Python's \<open>finally\<close>: the second part runs however the first ended, and its own exception wins.\<close>

fun run_finally :: "fanout_run \<Rightarrow> fanout_run \<Rightarrow> fanout_run" where
  "run_finally (evs, r) (evs', r') = (evs @ evs', case r' of Some e \<Rightarrow> Some e | None \<Rightarrow> r)"

definition consume_fanout :: "fanout_env \<Rightarrow> (string \<Rightarrow> string result) \<Rightarrow> string list \<Rightarrow> fanout_run" where
  "consume_fanout env render bodies =
     (case fe_connect env of
        Some e \<Rightarrow> ([], Some e)
      | None \<Rightarrow>
          run_finally
            (case fe_bind env of
               Some e \<Rightarrow> ([Opened], Some e)
             | None \<Rightarrow> (case consume env render 0 bodies of (evs, r) \<Rightarrow> (Opened # Subscribed # evs, r)))
            (case fe_close env of Some e \<Rightarrow> ([], Some e) | None \<Rightarrow> ([Closed], None)))"

text \<open>The escaping of \<open>main.py\<close>, a second copy of the one in \<open>status_render.py\<close>.\<close>

definition log_escape :: "string \<Rightarrow> string" where
  "log_escape text = replace1 CHR ''>'' ''&gt;'' (replace1 CHR ''<'' ''&lt;'' (replace1 CHR ''&'' ''&amp;'' text))"

lemma log_escape_escape: "log_escape = escape"
  by (simp add: fun_eq_iff log_escape_def escape_def)

definition log_fragment :: "string \<Rightarrow> string" where
  "log_fragment line =
     ''<div id='' @ [CHR 0x22] @ ''terminal'' @ [CHR 0x22] @ '' hx-swap-oob='' @ [CHR 0x22] @ ''beforeend''
     @ [CHR 0x22] @ ''>'' @ ''<div class='' @ [CHR 0x22] @ ''log-line'' @ [CHR 0x22] @ ''>'' @ log_escape line
     @ ''</div></div>''"

lemma log_fragment_not_Nil [simp]: "log_fragment l \<noteq> []"
  by (simp add: log_fragment_def)

lemma log_fragment_markup: "count_list (log_fragment l) CHR ''<'' = 4"
  by (simp add: log_fragment_def log_escape_escape)

lemma log_fragment_inj: "log_fragment l = log_fragment m \<longleftrightarrow> l = m"
proof
  assume "log_fragment l = log_fragment m"
  then have "escape l = escape m" by (simp add: log_fragment_def log_escape_escape)
  then have "unescape (escape l) = unescape (escape m)" by (rule arg_cong)
  then show "l = m" by (simp only: unescape_escape)
qed simp

text \<open>With no callback, the log lines are forwarded up to the first send that fails.\<close>

lemma consume_logs:
  assumes "fe_on_message env = None"
  shows "\<exists>k \<le> length bodies. (\<forall>i < k. fe_send env (n + i) = None) \<and>
    (k < length bodies \<longrightarrow> fe_send env (n + k) \<noteq> None) \<and>
    consume env (\<lambda>l. Inr (log_fragment l)) n bodies =
      (map (\<lambda>l. Forwarded (log_fragment l)) (take k bodies), if k < length bodies then fe_send env (n + k) else fe_end env)"
proof (induction bodies arbitrary: n)
  case (Cons b bs)
  show ?case
  proof (cases "fe_send env n")
    case None
    from Cons [of "Suc n"] obtain k where k: "k \<le> length bs" "\<forall>i < k. fe_send env (Suc n + i) = None"
      "k < length bs \<longrightarrow> fe_send env (Suc n + k) \<noteq> None"
      "consume env (\<lambda>l. Inr (log_fragment l)) (Suc n) bs =
        (map (\<lambda>l. Forwarded (log_fragment l)) (take k bs), if k < length bs then fe_send env (Suc n + k) else fe_end env)"
      by blast
    have "fe_send env (n + i) = None" if "i < Suc k" for i
      using that k(2) None by (cases i) auto
    then show ?thesis
      using k(1,3,4) None assms by (intro exI [of _ "Suc k"]) simp
  next
    case (Some e)
    then show ?thesis by (intro exI [of _ 0]) simp
  qed
qed simp

text \<open>
  C29: The browser receives the log lines of a test in the order in which they arrived, without
  gaps and all of them up to the first one whose send fails, each in a fragment whose only
  markup is the template's and which determines the line; nothing else is sent. However the stream
  ends, by itself, by a cancellation or by an exception of the socket or the broker, a connection
  that was opened is closed again, once and last, and the exception is passed on.
\<close>

theorem log_stream_faithful:
  assumes "fe_on_message env = None"
  shows "(let run = consume_fanout env (\<lambda>l. Inr (log_fragment l)) bodies in
    (fe_connect env = None \<and> fe_bind env = None \<longrightarrow> (\<exists>k \<le> length bodies.
      (\<forall>i < k. fe_send env i = None) \<and> (k < length bodies \<longrightarrow> fe_send env k \<noteq> None) \<and>
      run = (Opened # Subscribed # map (\<lambda>l. Forwarded (log_fragment l)) (take k bodies) @
               (if fe_close env = None then [Closed] else []),
             if fe_close env \<noteq> None then fe_close env else if k < length bodies then fe_send env k else fe_end env))) \<and>
    (Opened \<in> set (fst run) \<longleftrightarrow> fe_connect env = None) \<and>
    (fe_connect env = None \<and> fe_close env = None \<longrightarrow> last (fst run) = Closed \<and> count_list (fst run) Closed = 1)) \<and>
    (\<forall>l. count_list (log_fragment l) CHR ''<'' = 4) \<and> inj log_fragment"
proof -
  from consume_logs [OF assms, of bodies 0] obtain k where k: "k \<le> length bodies" "\<forall>i < k. fe_send env i = None"
    "k < length bodies \<longrightarrow> fe_send env k \<noteq> None"
    "consume env (\<lambda>l. Inr (log_fragment l)) 0 bodies =
      (map (\<lambda>l. Forwarded (log_fragment l)) (take k bodies), if k < length bodies then fe_send env k else fe_end env)"
    by auto
  let ?run = "consume_fanout env (\<lambda>l. Inr (log_fragment l)) bodies"
  have "fe_connect env = None \<and> fe_bind env = None \<longrightarrow>
      ?run = (Opened # Subscribed # map (\<lambda>l. Forwarded (log_fragment l)) (take k bodies) @
               (if fe_close env = None then [Closed] else []),
             if fe_close env \<noteq> None then fe_close env else if k < length bodies then fe_send env k else fe_end env)"
    by (auto simp: consume_fanout_def k(4) split: option.splits)
  moreover have "Opened \<in> set (fst ?run) \<longleftrightarrow> fe_connect env = None"
    by (auto simp: consume_fanout_def k(4) split: option.splits)
  moreover have none: "count_list (map (\<lambda>l. Forwarded (log_fragment l)) (take k bodies)) Closed = 0"
    by (rule count_notin) auto
  moreover have "fe_connect env = None \<and> fe_close env = None \<longrightarrow>
      last (fst ?run) = Closed \<and> count_list (fst ?run) Closed = 1"
    using none by (auto simp: consume_fanout_def k(4) split: option.splits)
  moreover have "inj log_fragment" by (simp add: inj_def log_fragment_inj)
  ultimately show ?thesis
    unfolding Let_def using k(1-3) log_fragment_markup by blast
qed

definition leaving_browser :: fanout_env where
  "leaving_browser = \<lparr>fe_connect = None, fe_bind = None,
     fe_send = (\<lambda>n. if n = 2 then Some (RuntimeError ''websocket.close'') else None), fe_on_message = None,
     fe_end = None, fe_close = None\<rparr>"

theorem log_stream_faithful_witness:
  "consume_fanout leaving_browser (\<lambda>l. Inr (log_fragment l)) [''a'', ''<b>'', ''c'', ''d''] =
     ([Opened, Subscribed, Forwarded (log_fragment ''a''), Forwarded (log_fragment ''<b>''), Closed],
      Some (RuntimeError ''websocket.close''))"
proof -
  let ?bodies = "[''a'', ''<b>'', ''c'', ''d'']"
  have e: "fe_on_message leaving_browser = None" "fe_connect leaving_browser = None" "fe_bind leaving_browser = None"
    "fe_close leaving_browser = None"
    "fe_send leaving_browser = (\<lambda>n. if n = 2 then Some (RuntimeError ''websocket.close'') else None)"
    by (simp_all add: leaving_browser_def)
  from log_stream_faithful [OF e(1), of ?bodies] e(2,3) obtain k where k: "k \<le> length ?bodies"
    "\<forall>i < k. fe_send leaving_browser i = None" "k < length ?bodies \<longrightarrow> fe_send leaving_browser k \<noteq> None"
    "consume_fanout leaving_browser (\<lambda>l. Inr (log_fragment l)) ?bodies =
      (Opened # Subscribed # map (\<lambda>l. Forwarded (log_fragment l)) (take k ?bodies) @
         (if fe_close leaving_browser = None then [Closed] else []),
       if fe_close leaving_browser \<noteq> None then fe_close leaving_browser
       else if k < length ?bodies then fe_send leaving_browser k else fe_end leaving_browser)"
    unfolding Let_def by blast
  have "k \<le> 2" using k(2) by (auto simp: e(5) not_less [symmetric])
  moreover have "k = 2" if "k < 4" using k(3) that by (simp add: e(5) split: if_splits)
  ultimately have "k = 2" by simp
  with k(4) show ?thesis by (simp add: e(4,5))
qed

section \<open>The socket that watches the consumer\<close>

text \<open>
  One round of the loop of \<open>ws_logs\<close>: whether the consumer task has ended when the round begins,
  and what waiting at most a second for the client brings.
\<close>

datatype receive = Frame | TimedOut | Disconnected | ReceiveRaises pyerr

record ws_round =
  wr_done :: bool
  wr_receive :: receive

datatype socket_end = ConsumerGone | ClientLeft | SocketRaised pyerr

fun watch :: "ws_round list \<Rightarrow> socket_end option" where
  "watch [] = None"
| "watch (r # rs) =
     (if wr_done r then Some ConsumerGone
      else case wr_receive r of
             Frame \<Rightarrow> watch rs
           | TimedOut \<Rightarrow> watch rs
           | Disconnected \<Rightarrow> Some ClientLeft
           | ReceiveRaises e \<Rightarrow> Some (SocketRaised e))"

text \<open>
  The endpoint after the given rounds: refused with a close code, still streaming from an
  exchange, or over, when the \<open>finally\<close> clause has cancelled the consumer of that exchange.
\<close>

datatype logs_socket = Refused int | Streaming string | Over string socket_end

definition ws_logs :: "db \<Rightarrow> int \<Rightarrow> string option \<Rightarrow> string \<Rightarrow> ws_round list \<Rightarrow> logs_socket result" where
  "ws_logs d now cookie test_id rounds =
     ebind (ws_logs_close d now cookie test_id) (\<lambda>code. Inr (case code of
       Some c \<Rightarrow> Refused c
     | None \<Rightarrow> (case watch rounds of
         None \<Rightarrow> Streaming (log_exchange_for test_id)
       | Some e \<Rightarrow> Over (log_exchange_for test_id) e)))"

definition quiet_round :: "ws_round \<Rightarrow> bool" where
  "quiet_round r \<longleftrightarrow> \<not> wr_done r \<and> wr_receive r \<in> {Frame, TimedOut}"

lemma watch_None: "watch rs = None \<longleftrightarrow> list_all quiet_round rs"
  by (induction rs) (auto simp: quiet_round_def split: receive.splits)

lemma watch_append: "watch (rs @ ss) = (case watch rs of None \<Rightarrow> watch ss | Some e \<Rightarrow> Some e)"
  by (induction rs) (auto split: receive.splits)

text \<open>
  A log socket never hangs open on a dead consumer: whatever the client sends meanwhile, it is
  over, its consumer cancelled, by the end of the first round that finds the consumer ended, and
  what happens later changes nothing. As long as the consumer lives, the client stays and the
  socket works, it keeps streaming the exchange of its test.
\<close>

theorem logs_socket_ends:
  assumes "ws_logs_close d now cookie tid = Inr None"
  shows "(wr_done r \<longrightarrow> (\<exists>e. \<forall>later. ws_logs d now cookie tid (before @ r # later) = Inr (Over (log_exchange_for tid) e))) \<and>
    (ws_logs d now cookie tid before = Inr (Streaming (log_exchange_for tid)) \<longleftrightarrow> list_all quiet_round before)"
proof -
  have "\<exists>e. \<forall>later. watch (before @ r # later) = Some e" if "wr_done r"
    using that by (cases "watch before") (simp_all add: watch_append)
  then have "wr_done r \<longrightarrow> (\<exists>e. \<forall>later. ws_logs d now cookie tid (before @ r # later) = Inr (Over (log_exchange_for tid) e))"
    using assms by (fastforce simp: ws_logs_def)
  moreover have "ws_logs d now cookie tid before = Inr (Streaming (log_exchange_for tid)) \<longleftrightarrow> list_all quiet_round before"
    using assms by (auto simp: ws_logs_def watch_None [symmetric] split: option.splits)
  ultimately show ?thesis by blast
qed

theorem logs_socket_ends_witness:
  "\<exists>e. ws_logs logs_db 5 (Some ''t'') ''mine''
     ([\<lparr>wr_done = False, wr_receive = TimedOut\<rparr>] @ \<lparr>wr_done = True, wr_receive = Frame\<rparr> # []) =
     Inr (Over (log_exchange_for ''mine'') e)"
proof -
  have c: "ws_logs_close logs_db 5 (Some ''t'') ''mine'' = Inr None" by code_simp
  show ?thesis
    using logs_socket_ends [OF c, of "\<lparr>wr_done = True, wr_receive = Frame\<rparr>" "[\<lparr>wr_done = False, wr_receive = TimedOut\<rparr>]"]
    by auto
qed

end
