(* ===== verification/Sessions.thy ===== *)
theory Sessions
  imports Prelude
begin

text \<open>
  The database sessions of the backend: the pool of \<open>backend/database.py\<close>, the dependency
  \<open>get_db\<close>, and how the routes, the sockets and the sweep use both. A route that shows or changes
  something runs inside the session of \<open>current_user\<close>, which holds its connection from the
  lookup of the cookie to the end of the request, and opens a second session of its own. A
  session that commits gives its connection back and checks one out again for its next
  transaction. A checkout waits while \<open>pool_size + max_overflow\<close> connections are out, as SQLAlchemy
  documents; a wait that ends in the pool's timeout is not a step of the relation.
  The sockets open their sessions on the event loop; that it stands still while they wait is not
  modelled.
\<close>

section \<open>Requests and the pool\<close>

definition pool_size :: nat where
  "pool_size = 10"

definition max_overflow :: nat where
  "max_overflow = 20"

definition pool_capacity :: nat where
  "pool_capacity = pool_size + max_overflow"

text \<open>What opens sessions: the routes, the two sockets, once per use, and the sweep.\<close>

datatype route = Dashboard | SubmitTest | TestLogsPage | LoginSubmit | Admin | UpdateHost
  | LogsSocket | AdminSocket | MaintenanceSweep

text \<open>The routes that depend on \<open>current_user\<close>.\<close>

definition guarded :: "route \<Rightarrow> bool" where
  "guarded r \<longleftrightarrow> r \<in> {Dashboard, SubmitTest, TestLogsPage, Admin, UpdateHost}"

text \<open>
  The transactions of the route's own session, at most: \<open>submit_test\<close> commits the pending row and
  the final one, and between them \<open>dispatch\<close> its reservation and, if the send fails, the undoing.
\<close>

fun max_transactions :: "route \<Rightarrow> nat" where
  "max_transactions SubmitTest = 4"
| "max_transactions MaintenanceSweep = 2"
| "max_transactions _ = 1"

text \<open>
  \<open>rq_cookie\<close>: the request has a session cookie, so that \<open>current_user\<close> queries the database;
  \<open>rq_transactions\<close>: how many transactions its own session runs, none if a guard turns it away.
\<close>

record request =
  rq_route :: route
  rq_cookie :: bool
  rq_transactions :: nat

definition possible :: "request \<Rightarrow> bool" where
  "possible q \<longleftrightarrow> rq_transactions q \<le> max_transactions (rq_route q)"

text \<open>
  A request has not begun; it is between two transactions of its own session, with the number of
  those to come; it is in one of them; \<open>get_db\<close> has closed the dependency's session.
\<close>

datatype phase = Arrived | Between nat | Within nat | Finished

definition held :: "request \<Rightarrow> nat" where
  "held q = (if guarded (rq_route q) \<and> rq_cookie q then 1 else 0)"

fun connections :: "request \<Rightarrow> phase \<Rightarrow> nat" where
  "connections q Arrived = 0"
| "connections q (Between k) = held q"
| "connections q (Within k) = held q + 1"
| "connections q Finished = 0"

type_synonym backend = "(request \<times> phase) list"

definition checked_out :: "backend \<Rightarrow> nat" where
  "checked_out ps = sum_list (map (\<lambda>(q, a). connections q a) ps)"

inductive request_step :: "bool \<Rightarrow> request \<Rightarrow> phase \<Rightarrow> phase \<Rightarrow> bool" for free q where
  resolve: "guarded (rq_route q) \<Longrightarrow> rq_cookie q \<Longrightarrow> free \<Longrightarrow> request_step free q Arrived (Between (rq_transactions q))"
| turn_away: "guarded (rq_route q) \<Longrightarrow> \<not> rq_cookie q \<Longrightarrow> request_step free q Arrived Finished"
| start: "\<not> guarded (rq_route q) \<Longrightarrow> request_step free q Arrived (Between (rq_transactions q))"
| open_own: "free \<Longrightarrow> request_step free q (Between (Suc k)) (Within k)"
| close_own: "request_step free q (Within k) (Between k)"
| leave: "request_step free q (Between 0) Finished"

inductive_simps request_step_simps [simp]:
  "request_step free q Arrived b" "request_step free q (Between k) b"
  "request_step free q (Within k) b" "request_step free q Finished b"

text \<open>One request of the backend takes a step; a checkout needs a free connection.\<close>

inductive pool_step :: "backend \<Rightarrow> backend \<Rightarrow> bool" where
  "i < length ps \<Longrightarrow> ps ! i = (q, a) \<Longrightarrow> request_step (checked_out ps < pool_capacity) q a b \<Longrightarrow>
    pool_step ps (ps[i := (q, b)])"

definition arrive :: "request list \<Rightarrow> backend" where
  "arrive qs = map (\<lambda>q. (q, Arrived)) qs"

definition all_finished :: "backend \<Rightarrow> bool" where
  "all_finished ps \<longleftrightarrow> list_all (\<lambda>p. snd p = Finished) ps"

section \<open>The pool is never overdrawn\<close>

lemma sum_list_update_nat:
  fixes f :: "'a \<Rightarrow> nat"
  assumes "i < length xs"
  shows "sum_list (map f (xs[i := x])) + f (xs ! i) = sum_list (map f xs) + f x"
  using assms
proof (induction xs arbitrary: i)
  case (Cons y ys)
  then show ?case by (cases i) (auto simp: algebra_simps dest: Cons.IH)
qed simp

lemma checked_out_update:
  assumes "i < length ps" "ps ! i = (q, a)"
  shows "checked_out (ps[i := (q, b)]) + connections q a = checked_out ps + connections q b"
  using sum_list_update_nat [OF assms(1), of "\<lambda>(q, a). connections q a" "(q, b)"] assms(2)
  by (simp add: checked_out_def)

definition pool_inv :: "request list \<Rightarrow> backend \<Rightarrow> bool" where
  "pool_inv qs ps \<longleftrightarrow> map fst ps = qs \<and> checked_out ps \<le> pool_capacity"

text \<open>A step moves one request forward and takes at most one connection, if there is one.\<close>

fun steps_left :: "request \<Rightarrow> phase \<Rightarrow> nat" where
  "steps_left q Arrived = 2 * rq_transactions q + 2"
| "steps_left q (Between k) = 2 * k + 1"
| "steps_left q (Within k) = 2 * k + 2"
| "steps_left q Finished = 0"

lemma request_step_forward: "request_step free q a b \<Longrightarrow> steps_left q b < steps_left q a"
  by (induction rule: request_step.induct) simp_all

lemma request_step_takes:
  "request_step free q a b \<Longrightarrow> connections q b \<le> connections q a \<or> connections q b = connections q a + 1 \<and> free"
  by (induction rule: request_step.induct) (simp_all add: held_def)

lemma pool_step_requests: "pool_step ps rs \<Longrightarrow> map fst rs = map fst ps"
  by (induction rule: pool_step.induct) (metis fst_conv list_update_id map_update)

lemma pool_step_checked:
  assumes "pool_step ps rs" "checked_out ps \<le> pool_capacity"
  shows "checked_out rs \<le> pool_capacity"
  using assms(1)
proof cases
  case (1 i q a b)
  from checked_out_update [OF 1(2,3), of b] request_step_takes [OF 1(4)] assms(2) 1(1) show ?thesis by auto
qed


interpretation pool: invariant_system "\<lambda>ps. ps = arrive qs" pool_step "pool_inv qs"
proof
  fix s assume "s = arrive qs"
  then show "pool_inv qs s"
    by (simp add: pool_inv_def arrive_def checked_out_def o_def)
qed (simp add: pool_inv_def pool_step_requests pool_step_checked)

lemma arrived_steps: "pool_step\<^sup>*\<^sup>* (arrive qs) ps \<Longrightarrow> pool_inv qs ps"
  by (erule pool.steps_inv) (rule pool.inv_init, rule refl)

section \<open>Every request gets through, if few enough hold a connection\<close>

definition work_left :: "backend \<Rightarrow> nat" where
  "work_left ps = sum_list (map (\<lambda>(q, a). steps_left q a) ps)"

lemma pool_step_decreases:
  assumes "pool_step ps rs"
  shows "work_left rs < work_left ps"
  using assms
proof cases
  case (1 i q a b)
  from sum_list_update_nat [OF 1(2), of "\<lambda>(q, a). steps_left q a" "(q, b)"] request_step_forward [OF 1(4)] 1(1,3)
  show ?thesis by (simp add: work_left_def)
qed

lemma pool_run_bounded: "(pool_step ^^ n) ps rs \<Longrightarrow> n + work_left rs \<le> work_left ps"
proof (induction n arbitrary: rs)
  case (Suc n)
  then obtain ts where "(pool_step ^^ n) ps ts" "pool_step ts rs" by auto
  with Suc.IH [of ts] pool_step_decreases [of ts rs] show ?case by simp
qed simp

lemma work_at_arrival:
  assumes "list_all possible qs"
  shows "work_left (arrive qs) \<le> 10 * length qs"
proof -
  have "steps_left q Arrived \<le> 10" if "q \<in> set qs" for q
  proof -
    have "max_transactions r \<le> 4" for r by (cases r) simp_all
    moreover have "rq_transactions q \<le> max_transactions (rq_route q)"
      using assms that by (simp add: possible_def list_all_iff)
    ultimately have "rq_transactions q \<le> 4" by (meson le_trans)
    then show ?thesis by simp
  qed
  then have "sum_list (map (\<lambda>q. steps_left q Arrived) qs) \<le> sum_list (map (\<lambda>_. 10) qs)"
    by (rule sum_list_mono)
  then show ?thesis by (simp add: work_left_def arrive_def o_def sum_list_triv)
qed

text \<open>The requests that hold a connection while they wait for another.\<close>

definition holders :: "request list \<Rightarrow> nat" where
  "holders qs = length (filter (\<lambda>q. guarded (rq_route q) \<and> rq_cookie q) qs)"

lemma holders_sum: "holders qs = sum_list (map held qs)"
  unfolding holders_def by (induction qs) (simp_all add: held_def)

lemma waiting_holds_one:
  assumes "\<And>q k. (q, Within k) \<notin> set ps"
  shows "checked_out ps \<le> holders (map fst ps)"
proof -
  have "connections q a \<le> held q" if "(q, a) \<in> set ps" for q a using assms that by (cases a) auto
  then show ?thesis unfolding checked_out_def holders_sum map_map by (intro sum_list_mono) auto
qed

lemma request_step_live:
  assumes "a \<noteq> Finished"
  shows "\<exists>b. request_step True q a b"
proof (cases a)
  case Arrived
  then show ?thesis by auto
next
  case (Between k)
  then show ?thesis by (cases k) auto
next
  case (Within k)
  then show ?thesis by simp
qed (use assms in simp)

lemma pool_progress:
  assumes "holders (map fst ps) < pool_capacity" "\<not> all_finished ps"
  shows "\<exists>rs. pool_step ps rs"
proof (rule ccontr)
  assume stuck: "\<nexists>rs. pool_step ps rs"
  have step: "\<not> request_step (checked_out ps < pool_capacity) q a b" if "(q, a) \<in> set ps" for q a b
    using that stuck pool_step.intros [of _ ps q a b] by (auto simp: in_set_conv_nth)
  then have "(q, Within k) \<notin> set ps" for q k by (metis close_own)
  then have free: "checked_out ps < pool_capacity" using waiting_holds_one [of ps] assms(1) by force
  have "a = Finished" if "(q, a) \<in> set ps" for q a
  proof (rule ccontr)
    assume "a \<noteq> Finished"
    then have "\<exists>b. request_step True q a b" by (rule request_step_live)
    with step [OF that] free show False by simp
  qed
  with assms(2) show False by (auto simp: all_finished_def list_all_iff)
qed

lemma pool_finishes:
  assumes "holders (map fst ps) < pool_capacity"
  shows "\<exists>rs. pool_step\<^sup>*\<^sup>* ps rs \<and> all_finished rs"
  using assms
proof (induction "work_left ps" arbitrary: ps rule: less_induct)
  case less
  show ?case
  proof (cases "all_finished ps")
    case False
    from pool_progress [OF less.prems this] obtain rs where rs: "pool_step ps rs" ..
    then have "holders (map fst rs) < pool_capacity" using less.prems by (simp add: pool_step_requests)
    from less.hyps [OF pool_step_decreases [OF rs] this] rs show ?thesis
      by (meson converse_rtranclp_into_rtranclp)
  qed blast
qed

lemma finished_step: "all_finished ps \<Longrightarrow> \<not> pool_step ps rs"
  by (auto simp: all_finished_def list_all_length elim!: pool_step.cases)

text \<open>
  C28: The pool is never overdrawn, every run of requests ends after at most ten steps per request,
  and as long as the requests with a user are fewer than the connections, however many logins,
  sockets and sweeps there are, none can block the others: from every reachable state all of
  them can finish, and when they have, no connection is out.
\<close>

theorem requests_get_through:
  assumes "list_all possible qs" "pool_step\<^sup>*\<^sup>* (arrive qs) ps"
  shows "checked_out ps \<le> pool_capacity \<and> (\<forall>n rs. (pool_step ^^ n) ps rs \<longrightarrow> n \<le> 10 * length qs) \<and>
    (holders qs < pool_capacity \<longrightarrow> (all_finished ps \<longleftrightarrow> (\<nexists>rs. pool_step ps rs)) \<and>
      (\<exists>rs. pool_step\<^sup>*\<^sup>* ps rs \<and> all_finished rs)) \<and>
    (all_finished ps \<longrightarrow> checked_out ps = 0)"
proof -
  from arrived_steps [OF assms(2)] have inv: "checked_out ps \<le> pool_capacity" "map fst ps = qs"
    by (auto simp: pool_inv_def)
  obtain m where "(pool_step ^^ m) (arrive qs) ps" using assms(2) by (auto simp: rtranclp_power)
  from pool_run_bounded [OF this] work_at_arrival [OF assms(1)] have "work_left ps \<le> 10 * length qs" by simp
  then have "n \<le> 10 * length qs" if "(pool_step ^^ n) ps rs" for n rs using pool_run_bounded [OF that] by simp
  moreover have "checked_out ps = 0" if "all_finished ps"
    using that by (auto simp: all_finished_def checked_out_def list_all_iff)
  ultimately show ?thesis
    using inv pool_progress [of ps] pool_finishes [of ps] finished_step [of ps] by metis
qed

definition dashboard_request :: request where
  "dashboard_request = \<lparr>rq_route = Dashboard, rq_cookie = True, rq_transactions = 1\<rparr>"

theorem requests_get_through_witness:
  "\<exists>rs. pool_step\<^sup>*\<^sup>* [(dashboard_request, Between 1)] rs \<and> all_finished rs \<and> checked_out rs = 0"
proof -
  let ?q = dashboard_request
  have "checked_out (arrive [?q]) < pool_capacity"
    by (simp add: arrive_def checked_out_def pool_capacity_def pool_size_def)
  moreover have "guarded (rq_route ?q)" "rq_cookie ?q" "rq_transactions ?q = 1"
    by (simp_all add: dashboard_request_def guarded_def)
  ultimately have "pool_step (arrive [?q]) ((arrive [?q])[0 := (?q, Between 1)])"
    using pool_step.intros [of 0 "arrive [?q]" ?q Arrived "Between 1"] by (simp add: arrive_def)
  then have s: "pool_step\<^sup>*\<^sup>* (arrive [?q]) [(?q, Between 1)]" by (simp add: arrive_def r_into_rtranclp)
  have p: "list_all possible [?q]" and c: "holders [?q] < pool_capacity"
    by (simp_all add: possible_def holders_def dashboard_request_def pool_capacity_def pool_size_def)
  from requests_get_through [OF p s] c obtain rs where rs: "pool_step\<^sup>*\<^sup>* [(?q, Between 1)] rs" "all_finished rs" by blast
  with requests_get_through [OF p rtranclp_trans [OF s rs(1)]] show ?thesis by blast
qed

section \<open>And if there are as many as connections, they can all hang\<close>

text \<open>A request that waits for its second connection while it holds the first.\<close>

definition opens_both :: "request \<Rightarrow> bool" where
  "opens_both q \<longleftrightarrow> guarded (rq_route q) \<and> rq_cookie q \<and> rq_transactions q \<noteq> 0"

lemma resolve_some:
  assumes "k \<le> pool_capacity" "k \<le> length (filter opens_both qs)"
  shows "\<exists>ps. pool_step\<^sup>*\<^sup>* (arrive qs) ps \<and> checked_out ps = k \<and>
    (\<forall>(q, a) \<in> set ps. a = Arrived \<or> opens_both q \<and> a = Between (rq_transactions q))"
  using assms
proof (induction k)
  case 0
  have "checked_out (arrive qs) = 0" by (simp add: checked_out_def arrive_def o_def)
  then show ?case by (intro exI [of _ "arrive qs"]) (simp add: arrive_def)
next
  case (Suc k)
  then obtain ps where ps: "pool_step\<^sup>*\<^sup>* (arrive qs) ps" "checked_out ps = k"
    "\<forall>(q, a) \<in> set ps. a = Arrived \<or> opens_both q \<and> a = Between (rq_transactions q)" by auto
  have "\<exists>i q. i < length ps \<and> ps ! i = (q, Arrived) \<and> opens_both q"
  proof (rule ccontr)
    assume none: "\<nexists>i q. i < length ps \<and> ps ! i = (q, Arrived) \<and> opens_both q"
    have "(if opens_both q then 1 else 0) \<le> connections q a" if qa: "(q, a) \<in> set ps" for q a
    proof -
      have "opens_both q \<Longrightarrow> a \<noteq> Arrived" using qa none by (auto simp: in_set_conv_nth)
      then show ?thesis using bspec [OF ps(3) qa] by (auto simp: held_def opens_both_def)
    qed
    then have "sum_list (map (\<lambda>(q, a). if opens_both q then 1 else 0) ps) \<le> checked_out ps"
      unfolding checked_out_def by (intro sum_list_mono) auto
    moreover have "length (filter opens_both (map fst ps)) = sum_list (map (\<lambda>(q, a). if opens_both q then 1 else 0) ps)"
      by (induction ps) auto
    moreover have "map fst ps = qs" using arrived_steps [OF ps(1)] by (simp add: pool_inv_def)
    ultimately show False using ps(2) Suc.prems(2) by simp
  qed
  then obtain i q where i: "i < length ps" "ps ! i = (q, Arrived)" "opens_both q" by blast
  let ?rs = "ps[i := (q, Between (rq_transactions q))]"
  have "pool_step ps ?rs" using i ps(2) Suc.prems(1) by (intro pool_step.intros) (auto simp: opens_both_def)
  moreover have "checked_out ?rs = Suc k"
    using checked_out_update [OF i(1,2), of "Between (rq_transactions q)"] i(3) ps(2)
    by (simp add: held_def opens_both_def)
  moreover have "set ?rs \<subseteq> insert (q, Between (rq_transactions q)) (set ps)" by (rule set_update_subset_insert)
  ultimately show ?case using ps(1,3) i(3) by (intro exI [of _ ?rs]) (auto intro: rtranclp.rtrancl_into_rtrancl)
qed

text \<open>What the requests can still be doing when the pool is exhausted by the ones that wait.\<close>

definition starved :: "request \<Rightarrow> phase \<Rightarrow> bool" where
  "starved q a \<longleftrightarrow> (\<forall>k. a \<noteq> Within k) \<and> (guarded (rq_route q) \<longrightarrow>
    (if rq_cookie q then a = Arrived \<or> rq_transactions q \<noteq> 0 \<and> a = Between (rq_transactions q)
     else a = Arrived \<or> a = Finished))"

lemma starved_step: "request_step False q a b \<Longrightarrow> starved q a \<Longrightarrow> starved q b \<and> connections q b = connections q a"
  by (cases a) (auto simp: starved_def held_def split: if_splits)

lemma starved_steps:
  assumes "pool_step\<^sup>*\<^sup>* ps rs" "checked_out ps = pool_capacity" "\<forall>(q, a) \<in> set ps. starved q a"
  shows "checked_out rs = pool_capacity \<and> (\<forall>(q, a) \<in> set rs. starved q a)"
  using assms(1)
proof (induction rule: rtranclp_induct)
  case (step ts us)
  from step.hyps(2) show ?case
  proof cases
    case (1 i q a b)
    have "request_step False q a b" using 1(4) step.IH by simp
    moreover have "starved q a" using bspec [OF conjunct2 [OF step.IH] nth_mem [OF 1(2)]] 1(3) by simp
    ultimately have "request_step False q a b" "starved q a" .
    from starved_step [OF this] have b: "starved q b" "connections q b = connections q a" by blast+
    have "set us \<subseteq> insert (q, b) (set ts)" unfolding 1(1) by (rule set_update_subset_insert)
    with checked_out_update [OF 1(2,3), of b] b step.IH 1(1) show ?thesis by auto
  qed
qed (use assms(2,3) in simp)

text \<open>
  C34: Holding one connection while waiting for another: when as many logged-in requests arrive as
  the pool has connections, they can all hold the connection of \<open>current_user\<close> at once and wait
  for the second one. From then on every connection stays out, no request with a session cookie is
  ever answered, and nothing that comes besides, be it a login, a socket or the sweep, gets
  into a transaction, until waits run into the timeout of the pool.
\<close>

theorem pool_can_hang:
  assumes "pool_capacity \<le> length (filter opens_both qs)"
  shows "\<exists>ps. pool_step\<^sup>*\<^sup>* (arrive qs) ps \<and> (\<forall>rs. pool_step\<^sup>*\<^sup>* ps rs \<longrightarrow> checked_out rs = pool_capacity \<and>
    (\<forall>(q, a) \<in> set rs. (\<forall>k. a \<noteq> Within k) \<and> (guarded (rq_route q) \<and> rq_cookie q \<longrightarrow> a \<noteq> Finished)))"
proof -
  from resolve_some [OF order_refl assms] obtain ps where ps: "pool_step\<^sup>*\<^sup>* (arrive qs) ps" "checked_out ps = pool_capacity"
    "\<forall>(q, a) \<in> set ps. a = Arrived \<or> opens_both q \<and> a = Between (rq_transactions q)" by blast
  have "\<forall>(q, a) \<in> set ps. starved q a" using ps(3) by (auto simp: starved_def opens_both_def)
  note later = starved_steps [OF _ ps(2) this]
  have "starved q a \<Longrightarrow> (\<forall>k. a \<noteq> Within k) \<and> (guarded (rq_route q) \<and> rq_cookie q \<longrightarrow> a \<noteq> Finished)" for q a
    by (auto simp: starved_def)
  with later ps(1) show ?thesis by (intro exI [of _ ps]) blast
qed

theorem pool_can_hang_witness:
  "\<exists>ps. pool_step\<^sup>*\<^sup>* (arrive (replicate 30 dashboard_request)) ps \<and>
     (\<forall>rs. pool_step\<^sup>*\<^sup>* ps rs \<longrightarrow> checked_out rs = pool_capacity)"
proof -
  have "opens_both dashboard_request" by (simp add: opens_both_def guarded_def dashboard_request_def)
  then have "pool_capacity \<le> length (filter opens_both (replicate 30 dashboard_request))"
    by (simp add: pool_capacity_def pool_size_def max_overflow_def)
  from pool_can_hang [OF this] show ?thesis by blast
qed

end
