(* ===== verification/Environ.thy ===== *)
theory Environ
  imports Config
begin

text \<open>
  How \<open>backend/config.py\<close> gets its values: each field of \<open>Settings\<close> is read from the variable of its
  name, in the process environment first and in the \<open>.env\<close> file otherwise, and keeps its default
  when neither has it; variables of no field are ignored. How a text is read as a number, a
  duration or a flag is pydantic's, and a parameter: \<open>None\<close> is its validation error.
  \<open>get_settings\<close> keeps the first settings it could build.
\<close>

section \<open>Reading the settings\<close>

record parsers =
  read_int :: "string \<Rightarrow> int option"
  read_seconds :: "string \<Rightarrow> int option"
  read_bool :: "string \<Rightarrow> bool option"

type_synonym environment = "string \<Rightarrow> string option"

text \<open>
  The variables of the process, and those of the file \<open>.env\<close>, which they override. Names are matched
  without regard to case, as pydantic-settings does: an environment is indexed by lower-case names.
\<close>

definition effective :: "environment \<times> environment \<Rightarrow> environment" where
  "effective e = snd e ++ fst e"

definition parsed :: "(string \<Rightarrow> 'a option) \<Rightarrow> environment \<Rightarrow> string \<Rightarrow> 'a \<Rightarrow> 'a option" where
  "parsed parse env name dflt = (case env name of None \<Rightarrow> Some dflt | Some v \<Rightarrow> parse v)"

definition text_of :: "environment \<Rightarrow> string \<Rightarrow> string \<Rightarrow> string" where
  "text_of env name dflt = (case env name of None \<Rightarrow> dflt | Some v \<Rightarrow> v)"

definition Settings :: "parsers \<Rightarrow> environment \<Rightarrow> settings option" where
  "Settings p env =
     Option.bind (parsed (read_seconds p) env ''host_poll_grace_seconds'' (host_poll_grace default_settings)) (\<lambda>v_host_poll_grace.
     Option.bind (parsed (read_seconds p) env ''heartbeat_timeout_seconds'' (heartbeat_timeout default_settings)) (\<lambda>v_heartbeat_timeout.
     Option.bind (parsed (read_seconds p) env ''maintenance_sweep_seconds'' (maintenance_sweep default_settings)) (\<lambda>v_maintenance_sweep.
     Option.bind (parsed (read_int p) env ''postgres_port'' (postgres_port default_settings)) (\<lambda>v_postgres_port.
     Option.bind (parsed (read_int p) env ''rabbitmq_port'' (rabbitmq_port default_settings)) (\<lambda>v_rabbitmq_port.
     Option.bind (parsed (read_int p) env ''ldap_port'' (ldap_port default_settings)) (\<lambda>v_ldap_port.
     Option.bind (parsed (read_bool p) env ''ldap_use_ssl'' (ldap_use_ssl default_settings)) (\<lambda>v_ldap_use_ssl.
     Some \<lparr>app_env = text_of env ''app_env'' (app_env default_settings),
       secret_key = text_of env ''secret_key'' (secret_key default_settings),
       worker_host_id = text_of env ''worker_host_id'' (worker_host_id default_settings),
       host_poll_grace = v_host_poll_grace,
       heartbeat_timeout = v_heartbeat_timeout,
       maintenance_sweep = v_maintenance_sweep,
       database_url = (case env ''database_url'' of None \<Rightarrow> database_url default_settings | Some u \<Rightarrow> Some u),
       postgres_host = text_of env ''postgres_host'' (postgres_host default_settings),
       postgres_port = v_postgres_port,
       postgres_user = text_of env ''postgres_user'' (postgres_user default_settings),
       postgres_password = text_of env ''postgres_password'' (postgres_password default_settings),
       postgres_db = text_of env ''postgres_db'' (postgres_db default_settings),
       celery_broker_url = text_of env ''celery_broker_url'' (celery_broker_url default_settings),
       celery_result_backend = text_of env ''celery_result_backend'' (celery_result_backend default_settings),
       rabbitmq_host = text_of env ''rabbitmq_host'' (rabbitmq_host default_settings),
       rabbitmq_port = v_rabbitmq_port,
       rabbitmq_user = text_of env ''rabbitmq_user'' (rabbitmq_user default_settings),
       rabbitmq_password = text_of env ''rabbitmq_password'' (rabbitmq_password default_settings),
       influx_url = text_of env ''influx_url'' (influx_url default_settings),
       influx_token = text_of env ''influx_token'' (influx_token default_settings),
       influx_org = text_of env ''influx_org'' (influx_org default_settings),
       influx_bucket = text_of env ''influx_bucket'' (influx_bucket default_settings),
       ldap_host = text_of env ''ldap_host'' (ldap_host default_settings),
       ldap_port = v_ldap_port,
       ldap_use_ssl = v_ldap_use_ssl,
       ldap_base_dn = text_of env ''ldap_base_dn'' (ldap_base_dn default_settings),
       ldap_user_dn_template = text_of env ''ldap_user_dn_template'' (ldap_user_dn_template default_settings),
       quali_api_url = text_of env ''quali_api_url'' (quali_api_url default_settings),
       quali_api_token = text_of env ''quali_api_token'' (quali_api_token default_settings),
       artifactory_url = text_of env ''artifactory_url'' (artifactory_url default_settings),
       artifactory_repo = text_of env ''artifactory_repo'' (artifactory_repo default_settings),
       artifactory_user = text_of env ''artifactory_user'' (artifactory_user default_settings),
       artifactory_token = text_of env ''artifactory_token'' (artifactory_token default_settings),
       docker_host = text_of env ''docker_host'' (docker_host default_settings),
       test_runs_dir = text_of env ''test_runs_dir'' (test_runs_dir default_settings),
       docker_network_mode = text_of env ''docker_network_mode'' (docker_network_mode default_settings)\<rparr>)))))))"

text \<open>\<open>lru_cache\<close>: a result is kept, an exception is not.\<close>

definition get_settings :: "parsers \<Rightarrow> environment \<times> environment \<Rightarrow> settings option \<Rightarrow> settings option \<times> settings option" where
  "get_settings p env cache = (case cache of
     Some s \<Rightarrow> (Some s, cache)
   | None \<Rightarrow> (case Settings p (effective env) of None \<Rightarrow> (None, None) | Some s \<Rightarrow> (Some s, Some s)))"

text \<open>The calls of a process, each in the environment of its moment.\<close>

fun settings_calls :: "parsers \<Rightarrow> settings option \<Rightarrow> (environment \<times> environment) list \<Rightarrow> settings option list" where
  "settings_calls p cache [] = []"
| "settings_calls p cache (env # envs) =
     (case get_settings p env cache of (r, cache') \<Rightarrow> r # settings_calls p cache' envs)"

section \<open>What the environment decides\<close>

lemma Settings_default: "Settings p Map.empty = Some default_settings"
  by (simp add: Settings_def parsed_def text_of_def)

lemma parsed_other [simp]: "x \<noteq> name \<Longrightarrow> parsed parse (env(x \<mapsto> v)) name d = parsed parse env name d"
  by (simp add: parsed_def)

lemma text_of_other [simp]: "x \<noteq> name \<Longrightarrow> text_of (env(x \<mapsto> v)) name d = text_of env name d"
  by (simp add: text_of_def)

lemma text_of_same [simp]: "text_of (env(x \<mapsto> v)) x d = v"
  by (simp add: text_of_def)

text \<open>
  What each variable is to decide: its name, and the change of the settings its text stands for,
  if it can be read.
\<close>

definition text_variables :: "(string \<times> (string \<Rightarrow> (settings \<Rightarrow> settings) option)) list" where
  "text_variables =
     [(''app_env'', \<lambda>v. Some (\<lambda>s. s\<lparr>app_env := v\<rparr>)),
      (''secret_key'', \<lambda>v. Some (\<lambda>s. s\<lparr>secret_key := v\<rparr>)),
      (''worker_host_id'', \<lambda>v. Some (\<lambda>s. s\<lparr>worker_host_id := v\<rparr>)),
      (''database_url'', \<lambda>v. Some (\<lambda>s. s\<lparr>database_url := Some v\<rparr>)),
      (''postgres_host'', \<lambda>v. Some (\<lambda>s. s\<lparr>postgres_host := v\<rparr>)),
      (''postgres_user'', \<lambda>v. Some (\<lambda>s. s\<lparr>postgres_user := v\<rparr>)),
      (''postgres_password'', \<lambda>v. Some (\<lambda>s. s\<lparr>postgres_password := v\<rparr>)),
      (''postgres_db'', \<lambda>v. Some (\<lambda>s. s\<lparr>postgres_db := v\<rparr>)),
      (''celery_broker_url'', \<lambda>v. Some (\<lambda>s. s\<lparr>celery_broker_url := v\<rparr>)),
      (''celery_result_backend'', \<lambda>v. Some (\<lambda>s. s\<lparr>celery_result_backend := v\<rparr>)),
      (''rabbitmq_host'', \<lambda>v. Some (\<lambda>s. s\<lparr>rabbitmq_host := v\<rparr>)),
      (''rabbitmq_user'', \<lambda>v. Some (\<lambda>s. s\<lparr>rabbitmq_user := v\<rparr>)),
      (''rabbitmq_password'', \<lambda>v. Some (\<lambda>s. s\<lparr>rabbitmq_password := v\<rparr>)),
      (''influx_url'', \<lambda>v. Some (\<lambda>s. s\<lparr>influx_url := v\<rparr>)),
      (''influx_token'', \<lambda>v. Some (\<lambda>s. s\<lparr>influx_token := v\<rparr>)),
      (''influx_org'', \<lambda>v. Some (\<lambda>s. s\<lparr>influx_org := v\<rparr>)),
      (''influx_bucket'', \<lambda>v. Some (\<lambda>s. s\<lparr>influx_bucket := v\<rparr>)),
      (''ldap_host'', \<lambda>v. Some (\<lambda>s. s\<lparr>ldap_host := v\<rparr>)),
      (''ldap_base_dn'', \<lambda>v. Some (\<lambda>s. s\<lparr>ldap_base_dn := v\<rparr>)),
      (''ldap_user_dn_template'', \<lambda>v. Some (\<lambda>s. s\<lparr>ldap_user_dn_template := v\<rparr>)),
      (''quali_api_url'', \<lambda>v. Some (\<lambda>s. s\<lparr>quali_api_url := v\<rparr>)),
      (''quali_api_token'', \<lambda>v. Some (\<lambda>s. s\<lparr>quali_api_token := v\<rparr>)),
      (''artifactory_url'', \<lambda>v. Some (\<lambda>s. s\<lparr>artifactory_url := v\<rparr>)),
      (''artifactory_repo'', \<lambda>v. Some (\<lambda>s. s\<lparr>artifactory_repo := v\<rparr>)),
      (''artifactory_user'', \<lambda>v. Some (\<lambda>s. s\<lparr>artifactory_user := v\<rparr>)),
      (''artifactory_token'', \<lambda>v. Some (\<lambda>s. s\<lparr>artifactory_token := v\<rparr>)),
      (''docker_host'', \<lambda>v. Some (\<lambda>s. s\<lparr>docker_host := v\<rparr>)),
      (''test_runs_dir'', \<lambda>v. Some (\<lambda>s. s\<lparr>test_runs_dir := v\<rparr>)),
      (''docker_network_mode'', \<lambda>v. Some (\<lambda>s. s\<lparr>docker_network_mode := v\<rparr>))]"

definition parsed_variables :: "parsers \<Rightarrow> (string \<times> (string \<Rightarrow> (settings \<Rightarrow> settings) option)) list" where
  "parsed_variables p =
     [(''host_poll_grace_seconds'', \<lambda>v. map_option (\<lambda>t s. s\<lparr>host_poll_grace := t\<rparr>) (read_seconds p v)),
      (''heartbeat_timeout_seconds'', \<lambda>v. map_option (\<lambda>t s. s\<lparr>heartbeat_timeout := t\<rparr>) (read_seconds p v)),
      (''maintenance_sweep_seconds'', \<lambda>v. map_option (\<lambda>t s. s\<lparr>maintenance_sweep := t\<rparr>) (read_seconds p v)),
      (''postgres_port'', \<lambda>v. map_option (\<lambda>i s. s\<lparr>postgres_port := i\<rparr>) (read_int p v)),
      (''rabbitmq_port'', \<lambda>v. map_option (\<lambda>i s. s\<lparr>rabbitmq_port := i\<rparr>) (read_int p v)),
      (''ldap_port'', \<lambda>v. map_option (\<lambda>i s. s\<lparr>ldap_port := i\<rparr>) (read_int p v)),
      (''ldap_use_ssl'', \<lambda>v. map_option (\<lambda>b s. s\<lparr>ldap_use_ssl := b\<rparr>) (read_bool p v))]"

lemma parsed_same [simp]: "parsed parse (env(x \<mapsto> v)) x d = parse v"
  by (simp add: parsed_def)

lemma unset_other [simp]:
  "x \<noteq> name \<Longrightarrow> parsed parse (env(x := None)) name d = parsed parse env name d"
  "x \<noteq> name \<Longrightarrow> text_of (env(x := None)) name dflt = text_of env name dflt"
  "parsed parse (env(x := None)) x d = Some d" "text_of (env(x := None)) x dflt = dflt"
  by (simp_all add: parsed_def text_of_def)

text \<open>\<open>change\<close> is what a variable of that name does to the settings, whatever the other variables say.\<close>

definition decides :: "parsers \<Rightarrow> environment \<Rightarrow> string \<Rightarrow> string \<times> (string \<Rightarrow> (settings \<Rightarrow> settings) option) \<Rightarrow> bool" where
  "decides p env v x \<longleftrightarrow> Settings p (env(fst x \<mapsto> v)) =
     Option.bind (snd x v) (\<lambda>f. map_option f (Settings p (env(fst x := None))))"

lemma text_variables_decide: "list_all (decides p env v) text_variables"
  unfolding text_variables_def list.pred_inject
  by (intro conjI TrueI; simp add: decides_def Settings_def map_option_bind o_def)

lemma parsed_variables_decide: "list_all (decides p env v) (parsed_variables p)"
  unfolding parsed_variables_def list.pred_inject
  by (intro conjI TrueI; cases "read_int p v"; cases "read_seconds p v"; cases "read_bool p v";
      simp add: decides_def Settings_def map_option_bind o_def)

definition plain_parsers :: parsers where
  "plain_parsers = \<lparr>read_int = (\<lambda>t. if t = ''6432'' then Some 6432 else None), read_seconds = (\<lambda>_. None),
     read_bool = (\<lambda>t. if t = ''true'' then Some True else if t = ''false'' then Some False else None)\<rparr>"

lemma other_variables_ignored:
  assumes "name \<notin> fst ` set (text_variables @ parsed_variables p)"
  shows "Settings p (env(name \<mapsto> v)) = Settings p env"
  using assms by (auto simp: text_variables_def parsed_variables_def Settings_def)

lemma variables_distinct: "distinct (map fst (text_variables @ parsed_variables p))"
proof -
  have "map fst (text_variables @ parsed_variables p) = map fst text_variables @ map fst (parsed_variables plain_parsers)"
    by (simp add: parsed_variables_def)
  also have "distinct \<dots>" by code_simp
  finally show ?thesis .
qed

lemma settings_calls_cached: "settings_calls p (Some s) envs = replicate (length envs) (Some s)"
  by (induction envs) (simp_all add: get_settings_def)

text \<open>
  C37: One process has one configuration: whatever happens to its environment, the calls of
  \<open>get_settings\<close> fail until the first environment that validates and return the settings of that one
  ever after. With an empty environment they are the defaults. Each of the 36 variables decides its
  own field and no other (\<open>text_variables\<close>, \<open>parsed_variables\<close>): the settings with the variable are
  those without it, with that field set to what its text says, and there are none if its text
  cannot be read. Any other variable is ignored.
\<close>

theorem one_configuration:
  "(\<exists>n \<le> length envs. settings_calls p None envs =
      replicate n None @ replicate (length envs - n) (Settings p (effective (envs ! n))) \<and>
      (\<forall>i < n. Settings p (effective (envs ! i)) = None) \<and> (n < length envs \<longrightarrow> Settings p (effective (envs ! n)) \<noteq> None)) \<and>
   Settings p Map.empty = Some default_settings \<and>
   (\<forall>(name, change) \<in> set (text_variables @ parsed_variables p). Settings p (env(name \<mapsto> v)) =
      Option.bind (change v) (\<lambda>f. map_option f (Settings p (env(name := None))))) \<and>
   distinct (map fst (text_variables @ parsed_variables p)) \<and>
   (other \<notin> fst ` set (text_variables @ parsed_variables p) \<longrightarrow> Settings p (env(other \<mapsto> v)) = Settings p env)"
proof -
  have "\<exists>n \<le> length envs. settings_calls p None envs =
      replicate n None @ replicate (length envs - n) (Settings p (effective (envs ! n))) \<and>
      (\<forall>i < n. Settings p (effective (envs ! i)) = None) \<and> (n < length envs \<longrightarrow> Settings p (effective (envs ! n)) \<noteq> None)"
  proof (induction envs)
    case (Cons env envs)
    show ?case
    proof (cases "Settings p (effective env)")
      case (Some s)
      then show ?thesis by (intro exI [of _ 0]) (simp add: get_settings_def settings_calls_cached)
    next
      case None
      from Cons obtain n where "n \<le> length envs" "settings_calls p None envs =
          replicate n None @ replicate (length envs - n) (Settings p (effective (envs ! n)))"
        "\<forall>i < n. Settings p (effective (envs ! i)) = None" "n < length envs \<longrightarrow> Settings p (effective (envs ! n)) \<noteq> None" by blast
      with None show ?thesis
        by (intro exI [of _ "Suc n"]) (auto simp: get_settings_def nth_Cons split: nat.splits)
    qed
  qed simp
  moreover have "list_all (decides p env v) (text_variables @ parsed_variables p)"
    using text_variables_decide [of p env v] parsed_variables_decide [of p env v] by simp
  then have "\<forall>(name, change) \<in> set (text_variables @ parsed_variables p). Settings p (env(name \<mapsto> v)) =
      Option.bind (change v) (\<lambda>f. map_option f (Settings p (env(name := None))))"
    unfolding list_all_iff decides_def split_beta .
  moreover note variables_distinct [of p] other_variables_ignored [of other p env v]
  ultimately show ?thesis using Settings_default by blast
qed

theorem one_configuration_witness:
  "map (map_option postgres_port) (settings_calls plain_parsers None
     [([''postgres_port'' \<mapsto> ''port''], Map.empty),
      ([''postgres_port'' \<mapsto> ''6432''], [''postgres_port'' \<mapsto> ''7'', ''app_env'' \<mapsto> ''test'']), (Map.empty, Map.empty)]) = [None, Some 6432, Some 6432] \<and>
   Settings plain_parsers [''influx_url'' \<mapsto> ''http://db''] = Some (default_settings\<lparr>influx_url := ''http://db''\<rparr>)"
proof -
  let ?envs = "[([''postgres_port'' \<mapsto> ''port''], Map.empty),
      ([''postgres_port'' \<mapsto> ''6432''], [''postgres_port'' \<mapsto> ''7'', ''app_env'' \<mapsto> ''test'']), (Map.empty, Map.empty)]
      :: (environment \<times> environment) list"
  let ?S = "\<lambda>e. Settings plain_parsers (effective e)"
  have bad: "?S (?envs ! 0) = None"
    by (simp add: Settings_def parsed_def plain_parsers_def effective_def)
  have good: "map_option postgres_port (?S (?envs ! 1)) = Some 6432"
    by (simp add: Settings_def parsed_def plain_parsers_def effective_def)
  from one_configuration [of ?envs plain_parsers Map.empty "[]"] obtain n where n: "n \<le> length ?envs"
    "settings_calls plain_parsers None ?envs = replicate n None @ replicate (length ?envs - n) (?S (?envs ! n))"
    "\<forall>i < n. ?S (?envs ! i) = None" "n < length ?envs \<longrightarrow> ?S (?envs ! n) \<noteq> None" by blast
  have "n \<noteq> 0" using n(4) bad by (metis length_greater_0_conv list.distinct(1))
  moreover have "n \<le> 1" using n(3) good by (metis linorder_not_less option.map(1) option.distinct(1))
  ultimately have "n = 1" by simp
  with n(2) good have calls: "map (map_option postgres_port) (settings_calls plain_parsers None ?envs) = [None, Some 6432, Some 6432]"
    by (simp add: numeral_2_eq_2)
  have "(''influx_url'', \<lambda>v. Some (\<lambda>s. s\<lparr>influx_url := v\<rparr>)) \<in> set (text_variables @ parsed_variables plain_parsers)"
    by (simp add: text_variables_def)
  then have "Settings plain_parsers (Map.empty(''influx_url'' \<mapsto> ''http://db'')) =
      Option.bind (Some (\<lambda>s. s\<lparr>influx_url := ''http://db''\<rparr>))
        (\<lambda>f. map_option f (Settings plain_parsers (Map.empty(''influx_url'' := None))))"
    using one_configuration [of "[]" plain_parsers Map.empty "''http://db''"] by fast
  with calls show ?thesis by (simp add: Settings_default)
qed

end
