(* ===== verification/Evolution.thy ===== *)
theory Evolution
  imports Routes Periodic
begin

text \<open>
  The database as the whole system sees it: what is consistent between its five tables, and how
  it may change from one transaction to the next. Rows are added, never deleted, and the
  columns that say what a row is about never change. Every handler guarantees such a change, and
  relies on it for what the other transactions do while it has let go of its locks.
\<close>

section \<open>A consistent database\<close>

definition known_statuses :: "string list" where
  "known_statuses = map status_value [PENDING, DISPATCHED, RUNNING, PASSED, FAILED]"

text \<open>A run belongs to a user, has a known status, and while it is in flight a host.\<close>

definition sound_run :: "db \<Rightarrow> test_execution \<Rightarrow> bool" where
  "sound_run d r \<longleftrightarrow> te_id r < next_id d \<and> te_user_id r \<in> u_id ` set (users d) \<and>
     te_status r \<in> set known_statuses \<and> (te_status r \<in> set active_states \<longrightarrow> te_target_host_id r \<noteq> None)"

text \<open>\<open>known\<close> is what is asked of a user besides: where the row came from.\<close>

definition consistent :: "(user \<Rightarrow> bool) \<Rightarrow> db \<Rightarrow> bool" where
  "consistent known d \<longleftrightarrow> wf_auth d \<and> list_all known (users d) \<and> wf_hosts (hosts d) \<and> host_ids_fresh d \<and>
     unique_by te_test_id (executions d) \<and> unique_by te_id (executions d) \<and> list_all (sound_run d) (executions d)"

section \<open>How it evolves\<close>

definition job :: "test_execution \<Rightarrow> int \<times> string \<times> int \<times> string \<times> string" where
  "job r = (te_id r, te_test_id r, te_user_id r, te_runner_type r, te_framework_image r)"

definition host_name :: "worker_host \<Rightarrow> int \<times> string" where
  "host_name h = (wh_id h, wh_host_id h)"

definition evolves :: "db \<Rightarrow> db \<Rightarrow> bool" where
  "evolves d d' \<longleftrightarrow> prefix (users d) (users d') \<and> prefix (sessions d) (sessions d') \<and>
     prefix (map host_name (hosts d)) (map host_name (hosts d')) \<and>
     prefix (map job (executions d)) (map job (executions d')) \<and>
     prefix (log_lines d) (log_lines d') \<and> next_id d \<le> next_id d'"

lemma evolves_refl [simp]: "evolves d d"
  by (simp add: evolves_def)

lemma evolves_trans: "evolves d d' \<Longrightarrow> evolves d' d'' \<Longrightarrow> evolves d d''"
  by (auto simp: evolves_def intro: prefix_order.trans)

text \<open>A consistent database that can have come from \<open>d0\<close>.\<close>

definition later :: "(user \<Rightarrow> bool) \<Rightarrow> db \<Rightarrow> db \<Rightarrow> bool" where
  "later known d0 d \<longleftrightarrow> consistent known d \<and> evolves d0 d"

text \<open>What the other transactions do: any consistent evolution.\<close>

definition allowed :: "(user \<Rightarrow> bool) \<Rightarrow> (db \<Rightarrow> db) \<Rightarrow> bool" where
  "allowed known f \<longleftrightarrow> (\<forall>d. consistent known d \<longrightarrow> later known d (f d))"

lemma later_refl: "consistent known d \<Longrightarrow> later known d d"
  by (simp add: later_def)

lemma later_trans: "later known d d' \<Longrightarrow> later known d' d'' \<Longrightarrow> later known d d''"
  by (auto simp: later_def intro: evolves_trans)

lemma later_allowed: "allowed known f \<Longrightarrow> later known d0 d \<Longrightarrow> later known d0 (f d)"
  using later_trans by (auto simp: allowed_def later_def)

lemma later_consistent: "later known d0 d \<Longrightarrow> consistent known d"
  by (simp add: later_def)

lemma allowed_id: "allowed known id"
  by (simp add: allowed_def later_refl)

lemma allowed_comp: "allowed known f \<Longrightarrow> allowed known g \<Longrightarrow> allowed known (f \<circ> g)"
  using later_allowed by (fastforce simp: allowed_def)

section \<open>The changes the transactions make\<close>

lemma job_fields: "job r = job r' \<longleftrightarrow> te_id r = te_id r' \<and> te_test_id r = te_test_id r' \<and>
    te_user_id r = te_user_id r' \<and> te_runner_type r = te_runner_type r' \<and> te_framework_image r = te_framework_image r'"
  by (simp add: job_def)

lemma job_touch [simp]: "job (f r) = job r \<Longrightarrow> job (touch now f r) = job r"
  by (simp add: touch_def job_def)

text \<open>A new status of a run, with the columns that go with it.\<close>

definition status_change :: "(test_execution \<Rightarrow> test_execution) \<Rightarrow> bool" where
  "status_change f \<longleftrightarrow> (\<forall>r. job (f r) = job r \<and> te_status (f r) \<in> set known_statuses \<and>
     (te_status (f r) \<in> set active_states \<longrightarrow> te_target_host_id (f r) \<noteq> None))"

lemma later_runs:
  assumes "later known d0 d" "status_change f"
  shows "later known d0 (set_executions (map (\<lambda>r. if P r then f r else r)) d)"
proof -
  let ?g = "\<lambda>r. if P r then f r else r" and ?d = "set_executions (map (\<lambda>r. if P r then f r else r)) d"
  have job: "job (?g r) = job r" for r using assms(2) by (simp add: status_change_def)
  then have keys: "te_id (?g r) = te_id r" "te_test_id (?g r) = te_test_id r" "te_user_id (?g r) = te_user_id r" for r
    unfolding job_fields by blast+
  have "sound_run ?d (?g r)" if "sound_run d r" for r
    using that keys [of r] assms(2) by (auto simp: sound_run_def set_executions_def status_change_def)
  moreover have "executions ?d = map ?g (executions d)" by (simp add: set_executions_def)
  ultimately have "list_all (sound_run ?d) (executions ?d)"
    using assms(1) unfolding later_def consistent_def by (metis (no_types, lifting) list.pred_map list.pred_mono_strong comp_apply)
  moreover have "unique_by te_test_id (executions ?d)" "unique_by te_id (executions ?d)"
    using assms(1) unique_map_keep [of te_test_id ?g, OF keys(2)] unique_map_keep [of te_id ?g, OF keys(1)]
    by (simp_all add: later_def consistent_def set_executions_def)
  ultimately show ?thesis
    using assms(1) job
    by (simp add: later_def consistent_def evolves_def set_executions_def wf_auth_def host_ids_fresh_def comp_def)
qed

lemma later_update_run:
  "later known d0 d \<Longrightarrow> status_change f \<Longrightarrow> later known d0 (set_executions (update_by key k f) d)"
  unfolding update_by_def by (rule later_runs)

lemma later_fail_runs: "later known d0 d \<Longrightarrow> later known d0 (set_executions (fail_runs now P) d)"
  unfolding fail_runs_def
  by (rule later_runs) (auto simp: status_change_def active_states_def known_statuses_def job_fields intro!: job_touch)

text \<open>Columns of hosts that keep them well-formed.\<close>

lemma later_hosts:
  assumes "later known d0 d" "wf_hosts (f (hosts d))" "map host_name (f (hosts d)) = map host_name (hosts d)"
  shows "later known d0 (set_hosts f d)"
proof -
  have "map wh_id (f (hosts d)) = map wh_id (hosts d)"
    using arg_cong [OF assms(3), of "map fst"] by (simp add: host_name_def comp_def)
  then have "wh_id ` set (f (hosts d)) = wh_id ` set (hosts d)" by (metis set_map)
  moreover have "\<forall>i \<in> wh_id ` set (hosts d). i < next_id d"
    using assms(1) by (auto simp: later_def consistent_def host_ids_fresh_def)
  ultimately have "\<forall>i \<in> wh_id ` set (f (hosts d)). i < next_id d" by simp
  then have "host_ids_fresh (set_hosts f d)" by (simp add: host_ids_fresh_def)
  moreover have "sound_run (set_hosts f d) = sound_run d" by (simp add: fun_eq_iff sound_run_def)
  ultimately show ?thesis
    using assms by (simp add: later_def consistent_def evolves_def wf_auth_def)
qed

lemma later_update_host:
  assumes "later known d0 d" "\<And>h. wf_host h \<Longrightarrow> wf_host (f h)" "\<And>h. host_name (f h) = host_name h"
  shows "later known d0 (set_hosts (update_by key k f) d)"
proof (rule later_hosts [OF assms(1)])
  have wf: "wf_hosts (hosts d)" using assms(1) by (simp add: later_def consistent_def)
  have "wh_id (f h) = wh_id h" "wh_host_id (f h) = wh_host_id h" for h
    using assms(3) [of h] by (simp_all add: host_name_def)
  then show "wf_hosts (update_by key k f (hosts d))"
    using assms(2) by (intro wf_hosts_update wf) (auto intro: wf_hosts_in [OF wf])
  show "map host_name (update_by key k f (hosts d)) = map host_name (hosts d)"
    using assms(3) by (simp add: update_by_def)
qed

lemma later_log_line: "later known d0 d \<Longrightarrow> later known d0 (add_log_line now tid n l d)"
  by (auto simp: later_def consistent_def evolves_def wf_auth_def host_ids_fresh_def sound_run_def
      add_log_line_def list_all_iff)

text \<open>New rows take the next id.\<close>

lemma later_new_host:
  assumes "later known d0 d" "insert_by wh_host_id h (hosts d) = Inr hs" "wh_id h = next_id d" "wf_host h"
  shows "later known d0 (d\<lparr>hosts := hs, next_id := next_id d + 1\<rparr>)"
proof -
  have hs: "hs = hosts d @ [h]" "wh_host_id h \<notin> wh_host_id ` set (hosts d)"
    using assms(2) by (auto simp: insert_by_def split: if_splits)
  have "wf_hosts hs"
    using assms hs unfolding wf_hosts_def
    by (auto simp: later_def consistent_def wf_hosts_def unique_by_def host_ids_fresh_def)
  with assms(1,3) hs show ?thesis
    by (auto simp: later_def consistent_def evolves_def wf_auth_def host_ids_fresh_def sound_run_def list_all_iff)
qed

lemma later_new_run:
  assumes "later known d0 d" "insert_by te_test_id r (executions d) = Inr rs" "te_id r = next_id d"
    and "te_user_id r \<in> u_id ` set (users d)" "te_status r = status_value PENDING"
  shows "later known d0 (d\<lparr>executions := rs, next_id := next_id d + 1\<rparr>)"
proof -
  have rs: "rs = executions d @ [r]" "te_test_id r \<notin> te_test_id ` set (executions d)"
    using assms(2) by (auto simp: insert_by_def split: if_splits)
  let ?d = "d\<lparr>executions := rs, next_id := next_id d + 1\<rparr>"
  have old: "sound_run d x \<Longrightarrow> sound_run ?d x" for x by (auto simp: sound_run_def)
  have new: "sound_run ?d r" using assms(3-5) by (simp add: sound_run_def active_states_def known_statuses_def)
  have "te_id r \<notin> te_id ` set (executions d)"
    using assms(1,3) by (auto simp: later_def consistent_def list_all_iff sound_run_def)
  then have "unique_by te_test_id rs" "unique_by te_id rs"
    using assms(1) rs by (simp_all add: later_def consistent_def unique_by_def)
  moreover have "list_all (sound_run ?d) rs"
    using assms(1) old new unfolding rs(1) by (auto simp: later_def consistent_def list_all_iff)
  ultimately show ?thesis
    using assms(1) rs by (auto simp: later_def consistent_def evolves_def wf_auth_def host_ids_fresh_def)
qed

lemma later_login:
  assumes "later known d0 d" "login_user now name attrs found d = Inr (u, d1)"
    and "\<And>x. found = Some x \<Longrightarrow> x \<in> set (users d) \<and> u_username x = name"
    and "\<And>x. u_username x = name \<Longrightarrow> known x" "login_session token now u d1 = Inr (sess, d2)"
  shows "later known d0 d2"
proof -
  have auth: "wf_auth d" using assms(1) by (simp add: later_def consistent_def)
  note d1 = login_user_wf [OF assms(2) auth assms(3)]
  have "u \<in> set (users d1)" using d1 by blast
  note d2 = login_session_wf [OF assms(5) _ this]
  have rest: "hosts d2 = hosts d \<and> executions d2 = executions d \<and> log_lines d2 = log_lines d \<and> next_id d \<le> next_id d2 \<and>
      (\<exists>us. users d2 = users d @ us \<and> list_all known us)"
    using assms(2,4,5)
    by (auto simp: login_user_def login_session_def Let_def result_simps insert_by_def split: option.splits if_splits)
  then have "sound_run d r \<Longrightarrow> sound_run d2 r" for r by (auto simp: sound_run_def)
  then have "list_all (sound_run d2) (executions d)"
    using assms(1) by (auto simp: later_def consistent_def list_all_iff)
  with assms(1) d1 d2 rest show ?thesis
    by (auto simp: later_def consistent_def evolves_def host_ids_fresh_def)
qed

end
