(* ===== verification/CeleryApp.thy ===== *)
theory CeleryApp
  imports Scheduler Config
begin

text \<open>
  \<open>worker/celery_app.py\<close>: the configuration of a worker's Celery application, the queue it
  consumes and the schedule of its periodic tasks (periods in microseconds), and the client of
  \<open>backend/celery_client.py\<close>. Celery itself is not modelled.
\<close>

record celery_app =
  ca_main :: string
  ca_broker :: string
  ca_backend :: string

definition worker_app :: "settings \<Rightarrow> celery_app" where
  "worker_app s = \<lparr>ca_main = ''test_orch'', ca_broker = celery_broker_url s, ca_backend = celery_result_backend s\<rparr>"

definition celery_client :: "settings \<Rightarrow> celery_app" where
  "celery_client s =
     \<lparr>ca_main = ''test_orch_client'', ca_broker = celery_broker_url s, ca_backend = celery_result_backend s\<rparr>"

record celery_conf =
  cc_task_default_queue :: string
  cc_task_acks_late :: bool
  cc_worker_prefetch_multiplier :: int
  cc_task_track_started :: bool
  cc_timezone :: string
  cc_enable_utc :: bool

definition worker_conf :: "settings \<Rightarrow> celery_conf result" where
  "worker_conf s = ebind (queue_name_for (PStr (worker_host_id s))) (\<lambda>q. Inr
     \<lparr>cc_task_default_queue = q, cc_task_acks_late = True, cc_worker_prefetch_multiplier = 1,
      cc_task_track_started = True, cc_timezone = ''UTC'', cc_enable_utc = True\<rparr>)"

definition task_default_queue :: "settings \<Rightarrow> string result" where
  "task_default_queue s = ebind (worker_conf s) (\<lambda>c. Inr (cc_task_default_queue c))"

text \<open>The backend publishes to the broker the workers consume from.\<close>

lemma same_broker: "ca_broker (celery_client s) = ca_broker (worker_app s)"
  by (simp add: celery_client_def worker_app_def)

record beat_entry =
  be_task :: string
  be_schedule :: int

definition beat_schedule :: "(string \<times> beat_entry) list" where
  "beat_schedule =
     [(''publish-heartbeat'', \<lparr>be_task = ''worker.publish_heartbeat'', be_schedule = seconds 30\<rparr>),
      (''reap-stale-reservations'', \<lparr>be_task = ''worker.reap_stale'', be_schedule = seconds 120\<rparr>)]"

definition heartbeat_period :: int where
  "heartbeat_period = (case map_of beat_schedule ''publish-heartbeat'' of Some e \<Rightarrow> be_schedule e | None \<Rightarrow> 0)"

lemma queue_of_inj: "queue_of a = queue_of b \<longleftrightarrow> a = b"
  by (simp add: queue_of_def)

lemma task_default_queue_ok: "\<not> blank (worker_host_id s) \<Longrightarrow> task_default_queue s = Inr (queue_of (worker_host_id s))"
  by (simp add: task_default_queue_def worker_conf_def queue_name_for_ok)

lemma heartbeat_period_value: "heartbeat_period = seconds 30"
  by (simp add: heartbeat_period_def beat_schedule_def)

end
