(* ===== verification/Guarantees.thy ===== *)
theory Guarantees
  imports Evolution CeleryApp
begin

text \<open>
  What each handler guarantees in every environment, however it ends: the database it leaves is a
  consistent evolution of the one it found, and the work it has started elsewhere is only what
  its arguments justify. One rule per call, joined by the rules of the combinators.
\<close>

section \<open>The database and the trace together\<close>

text \<open>Calls that start no work elsewhere.\<close>

fun quiet :: "effect \<Rightarrow> bool" where
  "quiet (SendTask _ _ _) = False"
| "quiet (DockerRun _ _ _ _ _) = False"
| "quiet _ = True"

definition both :: "(db \<Rightarrow> bool) \<Rightarrow> (effect \<Rightarrow> bool) \<Rightarrow> world \<Rightarrow> bool" where
  "both Q W w \<longleftrightarrow> Q (w_db w) \<and> list_all (\<lambda>e. quiet e \<or> W e) (w_trace w)"

lemma both_work: "W e \<Longrightarrow> keeps (both Q W) (call_service err e)"
  by (cases err) (simp_all add: keeps_def both_def)

lemma both_emit [keeps_intros]: "quiet e \<Longrightarrow> keeps (both Q W) (emit e)"
  by (simp add: keeps_def both_def emit_def)

lemma both_call [keeps_intros]: "quiet e \<Longrightarrow> keeps (both Q W) (call_service err e)"
  by (cases err) (simp_all add: keeps_def both_def)

lemma both_put: "(\<And>d. Q d \<Longrightarrow> Q (f d)) \<Longrightarrow> keeps (both Q W) (put_db f)"
  by (simp add: keeps_def both_def put_db_def)

lemma both_commit: "(\<And>d. Q d \<Longrightarrow> Q (f d)) \<Longrightarrow> keeps (both Q W) (commit err f)"
  by (cases err) (simp_all add: keeps_def both_def)

lemma keeps_if [keeps_intros]: "(c \<Longrightarrow> keeps I m) \<Longrightarrow> (\<not> c \<Longrightarrow> keeps I n) \<Longrightarrow> keeps I (if c then m else n)"
  by simp

lemma keeps_option [keeps_intros]:
  "(x = None \<Longrightarrow> keeps I m) \<Longrightarrow> (\<And>y. x = Some y \<Longrightarrow> keeps I (f y)) \<Longrightarrow>
     keeps I (case x of None \<Rightarrow> m | Some y \<Rightarrow> f y)"
  by (simp split: option.split)

lemma keeps_pair [keeps_intros]: "(\<And>a b. x = (a, b) \<Longrightarrow> keeps I (f a b)) \<Longrightarrow> keeps I (case x of (a, b) \<Rightarrow> f a b)"
  by (simp split: prod.split)

lemma keeps_lift_bind: "(\<And>x. r = Inr x \<Longrightarrow> keeps I (k x)) \<Longrightarrow> keeps I (act_bind (act_lift r) k)"
  by (cases r) (simp_all add: keeps_def)

lemma keeps_both: "keeps (both Q W) m \<Longrightarrow> both Q W w \<Longrightarrow> both Q W (snd (m w))"
  by (simp add: keeps_def)

lemma both_db: "both Q W w \<Longrightarrow> Q (w_db w)"
  by (simp add: both_def)

text \<open>What a handler guarantees is what the others may rely on.\<close>

lemma guarantee_allowed:
  assumes "\<And>d0. keeps (both (later known d0) (\<lambda>_. False)) m"
  shows "allowed known (\<lambda>d. w_db (snd (m \<lparr>w_db = d, w_trace = []\<rparr>)))"
  unfolding allowed_def
proof (intro allI impI)
  fix d assume "consistent known d"
  then have "both (later known d) (\<lambda>_. False) \<lparr>w_db = d, w_trace = []\<rparr>" by (simp add: both_def later_refl)
  from both_db [OF keeps_both [OF assms this]] show "later known d (w_db (snd (m \<lparr>w_db = d, w_trace = []\<rparr>)))" .
qed

section \<open>The calls of the worker\<close>

lemma both_write_config [keeps_intros]: "keeps (both Q W) (write_config s fs frepr r)"
proof -
  have out: "keeps (both Q W) (write_text fs p t)" for p t
    unfolding write_text_def by (intro keeps_intros) simp
  have dir: "keeps (both Q W) (config_dir s fs tid)" for tid
    unfolding config_dir_def make_dirs_def Let_def by (intro keeps_intros) simp
  show ?thesis by (cases r) (simp_all add: keeps_bind keeps_lift out dir)
qed

lemma both_make_dirs [keeps_intros]: "keeps (both Q W) (make_dirs fs p)"
  unfolding make_dirs_def by (intro keeps_intros) simp

lemma both_release [keeps_intros]: "keeps (both Q W) (best_effort_release s http rid)"
  by (auto simp: keeps_def both_def best_effort_release_result release_trace_def split: option.splits http_outcome.splits)

lemma both_release_each [keeps_intros]: "keeps (both Q W) (release_each s http rs)"
  by (induction rs) (simp_all add: keeps_return keeps_bind both_release)

lemma both_upload [keeps_intros]: "keeps (both Q W) (upload_artifact s fs http t p)"
  unfolding upload_artifact_def Let_def
  by (intro keeps_intros) (auto split: http_outcome.split intro!: keeps_intros)

lemma both_upload_each [keeps_intros]: "keeps (both Q W) (upload_each s env tid out fs)"
  by (induction fs) (simp_all add: keeps_bind keeps_return keeps_catch both_upload)

lemma both_publish [keeps_intros]: "keeps (both Q W) (publish_fanout err x b)"
  unfolding publish_fanout_def by (intro keeps_intros) simp

lemma both_write_line [keeps_intros]: "keeps (both Q W) (write_line s frepr err t n c)"
  unfolding write_line_def by (intro keeps_intros) (simp_all add: log_point_def)

lemma both_service [keeps_intros]: "keeps (both Q W) (service err)"
  by (rule keeps_service)

lemma both_pump_lines:
  "(\<And>n l d. Q d \<Longrightarrow> Q (add_log_line (rn_now env) tid n l d)) \<Longrightarrow> keeps (both Q W) (pump_lines s env tid n ls)"
  by (induction ls arbitrary: n)
     (simp_all add: keeps_service keeps_bind both_write_line publish_log_line_def both_publish both_commit keeps_return)

lemma both_cleanup [keeps_intros]: "keeps (both Q W) (cleanup dk v)"
  unfolding cleanup_def by (intro keeps_intros) simp_all

text \<open>The one container a run starts is named after the test and runs the image of the bundle.\<close>

lemma both_start:
  assumes "\<And>net vols labels. W (DockerRun img (container_prefix @ tid) net vols labels)"
  shows "keeps (both Q W) (start_test_container s fs dk (PStr img) (PStr cfg) (PStr tid) out)"
  unfolding start_test_container_def Let_def
  by (intro keeps_lift_bind keeps_if keeps_raise keeps_bind both_work keeps_return)
     (auto simp: guard_simps result_simps container_name_def assms)

section \<open>The tasks of the worker\<close>

lemma status_change_fields:
  "st \<in> {RUNNING, PASSED, FAILED} \<Longrightarrow> (st = RUNNING \<longrightarrow> host \<noteq> None) \<Longrightarrow>
     status_change (touch now (status_fields st host art))"
  by (auto simp: status_change_def status_fields_def active_states_def known_statuses_def job_fields split: option.splits)

lemma both_set_status:
  assumes "st \<in> {RUNNING, PASSED, FAILED}" "st = RUNNING \<longrightarrow> host \<noteq> None"
  shows "keeps (both (later known d0) W) (set_status err now tid st host art)"
  unfolding set_status_def
  by (intro keeps_intros both_commit later_update_run status_change_fields [OF assms])

lemma both_decrement [keeps_intros]:
  "keeps (both (later known d0) W) (decrement_active_containers err h)"
  unfolding decrement_active_containers_def
  by (intro keeps_intros both_commit later_update_host) (simp_all add: host_name_def)

text \<open>What a run of \<open>req\<close> may start.\<close>

definition starts_for :: "test_bundle \<Rightarrow> effect list \<Rightarrow> effect \<Rightarrow> bool" where
  "starts_for req old e \<longleftrightarrow> e \<in> set old \<or> (\<exists>net vols labels.
     e = DockerRun (tb_framework_image req) (container_prefix @ tb_test_id req) net vols labels)"

lemma both_run_body:
  "keeps (both (later known d0) (starts_for req old)) (run_body s env req)"
proof -
  have fin: "keeps (both (later known d0) W) (record_result env tid x)" for tid x W
    unfolding record_result_def Let_def
    by (intro keeps_intros both_set_status) (simp_all add: final_status_def)
  show ?thesis
    unfolding run_body_def run_container_def Let_def
    by (intro keeps_bind keeps_lift both_write_config both_make_dirs both_start both_pump_lines later_log_line
        both_upload_each keeps_return fin) (auto simp: starts_for_def)
qed

lemma both_run_test_bundle:
  assumes "allowed known (rn_others env)" "\<And>req. from_dict bundle = Inr req \<Longrightarrow> W = starts_for req old"
  shows "keeps (both (later known d0) W) (run_test_bundle s env bundle)"
proof -
  have crash: "keeps (both (later known d0) W) (run_crashed s env req e)" for req e
    unfolding run_crashed_def by (intro keeps_intros both_set_status) simp_all
  have clean: "keeps (both (later known d0) W) (run_cleanup s env req)" for req
    unfolding run_cleanup_def by (intro keeps_intros) simp
  have body: "from_dict bundle = Inr req \<Longrightarrow> keeps (both (later known d0) W) (run_body s env req)" for req
    using assms(2) both_run_body by metis
  show ?thesis
    unfolding run_test_bundle_def
    by (intro keeps_lift_bind keeps_bind both_service both_set_status keeps_finally keeps_catch both_put
        later_allowed [OF assms(1)] body crash clean) simp_all
qed

lemma both_reap [keeps_intros]: "keeps (both (later known d0) W) (reap_stale s ie q now ce)"
  unfolding reap_stale_def Let_def by (intro keeps_intros both_commit later_fail_runs)

lemma both_report [keeps_intros]: "keeps (both Q W) (report_status s frepr rd fails cid)"
  unfolding report_status_def publish_stats_reply_def by (intro keeps_intros)

text \<open>A heartbeat changes the database only when all its calls succeed.\<close>

lemma heartbeat_unchanged:
  assumes "hb_init_db env \<noteq> None \<or> hb_commit env \<noteq> None \<or>
    (\<forall>st. collect_host_stats (hb_frepr env) (hb_readings env) (PStr (worker_host_id s)) (PStr (test_runs_dir s)) \<noteq> Inr st)"
  shows "snd (publish_heartbeat s env w) = w"
proof -
  let ?I = "\<lambda>v. v = w"
  have live: "keeps ?I (live_or_cached dk h hs)" for dk h hs
    unfolding live_or_cached_def by (auto split: sum.split intro!: keeps_intros)
  have commit: "hb_commit env \<noteq> None \<Longrightarrow> keeps ?I (commit (hb_commit env) f)" for f
    by (auto simp: keeps_def)
  have "keeps ?I (publish_heartbeat s env)"
  proof (cases "hb_init_db env = None \<and>
      (\<exists>st. collect_host_stats (hb_frepr env) (hb_readings env) (PStr (worker_host_id s)) (PStr (test_runs_dir s)) = Inr st)")
    case True
    with assms have c: "hb_commit env \<noteq> None" by auto
    show ?thesis
      unfolding publish_heartbeat_def Let_def
      by (intro keeps_bind keeps_service keeps_lift keeps_get_db live keeps_option commit c)
  next
    case False
    then show ?thesis
      by (cases "hb_init_db env"; cases "collect_host_stats (hb_frepr env) (hb_readings env) (PStr (worker_host_id s)) (PStr (test_runs_dir s))")
        (auto simp: keeps_def publish_heartbeat_def service_def)
  qed
  then show ?thesis by (simp add: keeps_def)
qed

lemma heartbeat_guarantee:
  assumes "later known d0 (w_db w)" "\<not> blank (worker_host_id s)"
  shows "later known d0 (w_db (snd (publish_heartbeat s env w)))"
    "w_trace (snd (publish_heartbeat s env w)) = w_trace w"
proof -
  let ?d = "w_db w"
  have "later known d0 (w_db (snd (publish_heartbeat s env w))) \<and> w_trace (snd (publish_heartbeat s env w)) = w_trace w"
  proof (cases "hb_init_db env = None \<and> hb_commit env = None \<and>
      (\<exists>st. collect_host_stats (hb_frepr env) (hb_readings env) (PStr (worker_host_id s)) (PStr (test_runs_dir s)) = Inr st)")
    case False
    with heartbeat_unchanged [of env s w] assms(1) show ?thesis by auto
  next
    case True
    then obtain st where ok: "hb_init_db env = None" "hb_commit env = None"
      "collect_host_stats (hb_frepr env) (hb_readings env) (PStr (worker_host_id s)) (PStr (test_runs_dir s)) = Inr st" by blast
    have wf: "wf_hosts (hosts ?d)" using assms(1) by (simp add: later_def consistent_def)
    let ?f = "heartbeat_row s env st ?d"
    have row: "wf_host h \<Longrightarrow> wf_host (?f h)" "host_name (?f h) = host_name h" for h
      using heartbeat_row_wf [OF wf _ ok(3)] by (simp_all add: host_name_def)
    have new: "wf_host (?f (new_worker_host i (worker_host_id s)))" for i
      using assms(2) by (intro row) (simp add: wf_host_def new_worker_host_def pf_le_def)
    note run = publish_heartbeat_run [OF wf ok]
    show ?thesis
    proof (cases "List.find (\<lambda>h. wh_host_id h = worker_host_id s) (hosts ?d)")
      case None
      let ?h = "?f (new_worker_host (next_id ?d) (worker_host_id s))"
      have "insert_by wh_host_id ?h (hosts ?d) = Inr (hosts ?d @ [?h])"
        using None by (auto simp: insert_by_def find_None_iff new_worker_host_def)
      from later_new_host [OF assms(1) this _ new] show ?thesis
        unfolding run None by (simp add: new_worker_host_def)
    next
      case (Some h)
      then show ?thesis unfolding run using later_update_host [OF assms(1) row] by simp
    qed
  qed
  then show "later known d0 (w_db (snd (publish_heartbeat s env w)))"
    "w_trace (snd (publish_heartbeat s env w)) = w_trace w" by blast+
qed

section \<open>The handlers of the backend\<close>

lemma both_update_host [keeps_intros]: "keeps (both (later known d0) W) (update_host ce h tags emu n u)"
  unfolding update_host_def
  by (intro keeps_intros both_commit later_update_host)
     (auto simp: set_capabilities_def wf_host_def host_name_def)

lemma mark_offline_later:
  assumes "later known d0 d"
  shows "later known d0 (set_hosts (mark_offline ids) d)"
proof (rule later_hosts [OF assms])
  have wf: "wf_hosts (hosts d)" using assms by (simp add: later_def consistent_def)
  show "wf_hosts (mark_offline ids (hosts d))"
    unfolding mark_offline_def by (rule wf_hosts_map [OF wf]) (use wf_hosts_in [OF wf] in \<open>auto simp: wf_host_def\<close>)
  show "map host_name (mark_offline ids (hosts d)) = map host_name (hosts d)"
    by (simp add: mark_offline_def host_name_def)
qed

lemma both_sweep [keeps_intros]: "keeps (both (later known d0) W) (run_maintenance_sweep s env)"
  unfolding run_maintenance_sweep_def sweep_stale_hosts_def fail_orphaned_runs_def Let_def
  by (intro keeps_intros both_commit mark_offline_later later_fail_runs)

lemma sweep_allowed: "allowed known (\<lambda>d. w_db (snd (run_maintenance_sweep s env \<lparr>w_db = d, w_trace = []\<rparr>)))"
  by (intro guarantee_allowed both_sweep)

lemma update_host_allowed: "allowed known (\<lambda>d. w_db (snd (update_host ce h tags emu n u \<lparr>w_db = d, w_trace = []\<rparr>)))"
  by (intro guarantee_allowed both_update_host)

text \<open>What the other transactions do to the inventory between a failed send and the undo.\<close>

definition allowed_rows :: "(worker_host list \<Rightarrow> worker_host list) \<Rightarrow> bool" where
  "allowed_rows f \<longleftrightarrow> (\<forall>hs. wf_hosts hs \<longrightarrow> wf_hosts (f hs) \<and> map host_name (f hs) = map host_name hs)"

lemma both_dispatch_fail:
  assumes "allowed_rows (de_others env)"
  shows "keeps (both (later known d0) W) (dispatch_fail env h e)"
proof -
  have others: "later known d0 d \<Longrightarrow> later known d0 (set_hosts (de_others env) d)" for d
    using assms by (intro later_hosts) (auto simp: allowed_rows_def later_def consistent_def)
  show ?thesis
    unfolding dispatch_fail_def undo_reservation_def undo_slot_def
    by (intro keeps_bind keeps_get_db both_put others keeps_option keeps_raise keeps_if keeps_return both_commit
        later_update_host) (simp_all add: host_name_def)
qed

lemma both_dispatch:
  assumes "allowed_rows (de_others env)" "\<And>q. W (SendTask ''worker.run_test_bundle'' (PDict (to_dict b)) q)"
  shows "keeps (both (later known d0) W) (dispatch env (Inr b))"
  unfolding keeps_def
proof (intro allI impI)
  fix w assume w: "both (later known d0) W w"
  have wf: "wf_hosts (hosts (w_db w))" using both_db [OF w] by (simp add: later_def consistent_def)
  show "both (later known d0) W (snd (dispatch env (Inr b) w))"
  proof (cases "pick_host b (hosts (w_db w))")
    case None
    with w show ?thesis by (simp add: dispatch_pick [OF wf])
  next
    case (Some h)
    let ?w1 = "w\<lparr>w_db := set_hosts (reserve_slot h) (w_db w)\<rparr>"
    have "0 \<le> wh_active_containers h" using pick_host_Some(2) [OF wf Some] host_nonneg [OF wf] by blast
    then have "later known d0 (set_hosts (reserve_slot h) (w_db w))"
      unfolding reserve_slot_def by (intro later_update_host both_db [OF w]) (simp_all add: host_name_def)
    with w have w1: "both (later known d0) W ?w1" by (simp add: both_def)
    note fail = keeps_both [OF both_dispatch_fail [OF assms(1)]]
    from w1 assms(2) have "both (later known d0) W
        (?w1\<lparr>w_trace := w_trace w @ [SendTask ''worker.run_test_bundle'' (PDict (to_dict b)) q]\<rparr>)" for q
      by (simp add: both_def)
    then show ?thesis using fail [OF w] fail [OF w1] Some by (simp add: dispatch_pick [OF wf] Let_def split: option.split)
  qed
qed

text \<open>The tasks that may be sent: serialized bundles that describe a stored run.\<close>

definition describes :: "test_bundle \<Rightarrow> test_execution \<Rightarrow> bool" where
  "describes b r \<longleftrightarrow> tb_test_id b = te_test_id r \<and> tb_user_id b = te_user_id r \<and>
     tb_runner_type b = te_runner_type r \<and> tb_framework_image b = te_framework_image r"

definition sends_for :: "test_execution \<Rightarrow> effect list \<Rightarrow> effect \<Rightarrow> bool" where
  "sends_for r old e \<longleftrightarrow> e \<in> set old \<or>
     (\<exists>b q. valid_bundle b \<and> describes b r \<and> e = SendTask ''worker.run_test_bundle'' (PDict (to_dict b)) q)"

lemma advance_status: "status_change (advance_execution chosen now)"
  by (auto simp: status_change_def advance_execution_def active_states_def known_statuses_def job_fields split: option.splits)

lemma submit_describes:
  assumes "TestBundleRequest (submit_args (sb_uuid env) u rt img dut tags emu) = Inr b"
  shows "valid_bundle b" "describes b (pending_row env rt img u d)"
  using assms
  by (auto simp: TestBundleRequest_Inr submit_args_def Let_def describes_def pending_row_def new_test_execution_def)

text \<open>
  A submission leaves the world alone, or stores its run and then makes only changes and sends
  only tasks that belong to it.
\<close>

lemma submit_guarantee:
  assumes "consistent known (w_db w)" "u \<in> set (users (w_db w))" "allowed known (sb_others env)"
    and "allowed_rows (de_others (sb_dispatch env))"
    and row_def: "row = pending_row env rt img u (w_db w)" and d1_def: "d1 = add_pending env rt img u (w_db w)"
    and w'_def: "w' = snd (submit_test env rt img dut tags emu (Some u) w)"
  shows "w' = w \<or> later known (w_db w) d1 \<and> both (later known d1) (sends_for row (w_trace w)) w'"
proof (cases "TestBundleRequest (submit_args (sb_uuid env) u rt img dut tags emu)")
  case (Inl e)
  then show ?thesis by (simp add: w'_def submit_test_def act_return_def act_raise_def)
next
  case (Inr b)
  have row: "new_test_execution (next_id (w_db w)) (sb_uuid env) (u_id u) rt img PENDING (Aware (sb_now env)) = row"
    by (simp add: row_def pending_row_def)
  show ?thesis
  proof (cases "sb_uuid env \<in> te_test_id ` set (executions (w_db w)) \<or> sb_commit_pending env \<noteq> None")
    case True
    then have "w' = w"
      unfolding w'_def submit_test_def
      by (auto simp: Inr row Let_def insert_by_def) (auto simp: row_def pending_row_def new_test_execution_def)
    then show ?thesis by blast
  next
    case False
    let ?rest = "act_bind (act_catch (dispatch (sb_dispatch env) (Inr b)) (\<lambda>_. act_return None)) (\<lambda>chosen.
      act_bind (put_db (sb_others env)) (\<lambda>_.
      act_bind (commit (sb_commit_final env)
        (set_executions (update_by te_id (te_id row) (advance_execution chosen (sb_later env))))) (\<lambda>_.
      act_return (Redirect ''/''))))"
    have "te_test_id row = sb_uuid env" by (simp add: row_def pending_row_def new_test_execution_def)
    with False have ins: "insert_by te_test_id row (executions (w_db w)) = Inr (executions (w_db w) @ [row])"
      by (simp add: insert_by_def)
    have d1: "d1 = (w_db w)\<lparr>executions := executions (w_db w) @ [row], next_id := next_id (w_db w) + 1\<rparr>"
      by (simp add: d1_def add_pending_def row_def)
    have l: "later known (w_db w) d1"
      unfolding d1 by (rule later_new_run [OF later_refl [OF assms(1)] ins])
        (use assms(2) in \<open>simp_all add: row_def pending_row_def new_test_execution_def\<close>)
    have rest: "keeps (both (later known d1) (sends_for row (w_trace w))) ?rest"
      using submit_describes [OF Inr]
      by (intro keeps_bind keeps_catch both_dispatch both_put later_allowed [OF assms(3)] both_commit later_update_run
          advance_status keeps_return assms(4)) (auto simp: sends_for_def row_def)
    have w': "w' = snd (?rest (w\<lparr>w_db := d1\<rparr>))"
    proof -
      have "sb_commit_pending env = None" using False by simp
      then show ?thesis unfolding w'_def submit_test_def d1 by (simp add: Inr row Let_def ins)
    qed
    have b: "both (later known d1) (sends_for row (w_trace w)) (w\<lparr>w_db := d1\<rparr>)"
      using later_refl [OF later_consistent [OF l]] by (simp add: both_def sends_for_def list_all_iff)
    from l keeps_both [OF rest b] show ?thesis unfolding w' by blast
  qed
qed

lemma keeps_bind_result:
  "keeps I m \<Longrightarrow> (\<And>x w1 w2. m w1 = (Inr x, w2) \<Longrightarrow> keeps I (k x)) \<Longrightarrow> keeps I (act_bind m k)"
  unfolding keeps_def act_bind_def by (force split: prod.splits sum.splits)

lemma both_ldap_bind [keeps_intros]: "keeps (both Q W) (ldap_bind s ldap name pw)"
  unfolding ldap_bind_def by (intro keeps_bind keeps_lift) (auto split: ldap_outcome.split intro!: keeps_intros)

lemma ldap_bind_bound:
  assumes "ldap_bind s ldap name pw w = (Inr attrs, w')"
  shows "\<exists>dn search. format_username None (ldap_user_dn_template s) name = Inr dn \<and> ldap dn pw = Bound search"
proof (cases "format_username None (ldap_user_dn_template s) name")
  case (Inl e)
  with assms show ?thesis by (simp add: ldap_bind_def)
next
  case (Inr dn)
  with assms show ?thesis by (cases "ldap dn pw") (auto simp: ldap_bind_def act_raise_def)
qed

lemma both_login:
  assumes "allowed known (lg_others env)"
    and "\<And>dn search x. format_username None (ldap_user_dn_template s) name = Inr dn \<Longrightarrow> \<not> blank pw \<Longrightarrow>
      lg_ldap env dn pw = Bound search \<Longrightarrow> u_username x = name \<Longrightarrow> known x"
  shows "keeps (both (later known d0) W) (login_submit s env name pw)"
proof -
  let ?I = "both (later known d0) W"
  have tail: "keeps ?I (act_bind get_db (\<lambda>c. act_bind (act_lift (find_by u_username name (users c))) (\<lambda>found.
      act_bind (put_db (lg_others env)) (\<lambda>_. act_bind get_db (\<lambda>d.
      act_bind (act_lift (login_user (lg_now env) name attrs found d)) (\<lambda>(u, d1).
      act_bind (act_lift (login_session (lg_token env) (lg_now env) u d1)) (\<lambda>(sess, d2).
      act_bind (commit (lg_commit env) (\<lambda>_. d2)) (\<lambda>_. act_return (u, sess)))))))))"
    if name: "\<And>x. u_username x = name \<Longrightarrow> known x" for attrs
    unfolding keeps_def
  proof (intro allI impI, goal_cases)
    case (1 w)
    let ?d = "lg_others env (w_db w)"
    have l: "later known d0 ?d" using both_db [OF 1] by (rule later_allowed [OF assms(1)])
    have old: "later known (w_db w) ?d" using assms(1) both_db [OF 1] by (simp add: allowed_def later_def)
    have I: "?I (w\<lparr>w_db := d\<rparr>)" if "later known d0 d" for d using 1 that by (simp add: both_def)
    have found: "x \<in> set (users ?d) \<and> u_username x = name"
      if "find_by u_username name (users (w_db w)) = Inr (Some x)" for x
    proof -
      have "unique_by u_username (users (w_db w))"
        using both_db [OF 1] by (simp add: later_def consistent_def wf_auth_def)
      with that have "x \<in> set (users (w_db w))" "u_username x = name" by (simp_all add: find_by_Some)
      with old show ?thesis by (auto simp: later_def evolves_def dest: set_mono_prefix)
    qed
    have d2: "later known d0 d2"
      if "find_by u_username name (users (w_db w)) = Inr f" "login_user (lg_now env) name attrs f ?d = Inr (u, d1)"
        "login_session (lg_token env) (lg_now env) u d1 = Inr (sess, d2)" for f u d1 sess d2
      using that found name by (intro later_login [OF l that(2) _ _ that(3)]) auto
    show ?case
    proof (cases "find_by u_username name (users (w_db w))")
      case (Inl e)
      with 1 show ?thesis by simp
    next
      case (Inr f)
      show ?thesis
      proof (cases "login_user (lg_now env) name attrs f ?d")
        case (Inl e)
        with Inr I [OF l] show ?thesis by simp
      next
        case u: (Inr ud)
        obtain u d1 where ud: "ud = (u, d1)" by (cases ud)
        show ?thesis
        proof (cases "login_session (lg_token env) (lg_now env) u d1")
          case (Inl e)
          with Inr u ud I [OF l] show ?thesis by simp
        next
          case s: (Inr sd)
          obtain sess d2 where sd: "sd = (sess, d2)" by (cases sd)
          show ?thesis
            using Inr u ud s sd I [OF l] I [OF d2 [OF Inr u [unfolded ud] s [unfolded sd]]]
            by (cases "lg_commit env") (simp_all add: act_return_def)
        qed
      qed
    qed
  qed
  show ?thesis
    unfolding login_submit_def authenticate_ldap_def
  proof (intro keeps_catch keeps_if keeps_return keeps_raise keeps_bind [OF _ keeps_pair] keeps_lift_bind)
    fix n p
    assume n: "require_non_empty_str (PStr name) ''username'' = Inr n" "require_non_empty_str (PStr pw) ''password'' = Inr p"
    then have np: "n = name" "p = pw" "\<not> blank pw" by (auto simp: guard_simps)
    show "keeps ?I (act_bind (ldap_bind s (lg_ldap env) n p) (\<lambda>attrs. act_bind get_db (\<lambda>d0.
      act_bind (act_lift (find_by u_username n (users d0))) (\<lambda>found.
      act_bind (put_db (lg_others env)) (\<lambda>_. act_bind get_db (\<lambda>d.
      act_bind (act_lift (login_user (lg_now env) n attrs found d)) (\<lambda>(u, d1).
      act_bind (act_lift (login_session (lg_token env) (lg_now env) u d1)) (\<lambda>(sess, d2).
      act_bind (commit (lg_commit env) (\<lambda>_. d2)) (\<lambda>_. act_return (u, sess))))))))))"
      unfolding np(1,2) using assms(2) np(3) by (intro keeps_bind_result both_ldap_bind tail) (blast dest: ldap_bind_bound)
  qed
qed

end
