(* ===== verification/Flux.thy ===== *)
theory Flux
  imports InfluxClient
begin

text \<open>
  What the query of the log client asks the time series for. A query is a text; its documented
  meaning is that of the pipeline it spells, stage by stage, over the points that were written.
  The clock of the database stamps the points and is a parameter. The stages are those the
  program uses, and their texts are written as the program writes them.
\<close>

section \<open>Pipelines and their texts\<close>

datatype flux_stage =
    From string
  | Range int
  | Filter string string
  | Pivot string string string
  | Sort string
  | Limit int

fun stage_text :: "flux_stage \<Rightarrow> string" where
  "stage_text (From bucket) = ''from(bucket: '' @ quoted bucket @ '')''"
| "stage_text (Range days) = ''  |> range(start: -'' @ int_str days @ ''d)''"
| "stage_text (Filter column v) = ''  |> filter(fn: (r) => r.'' @ column @ '' == '' @ quoted v @ '')''"
| "stage_text (Pivot row_key column_key v) = ''  |> pivot(rowKey: ['' @ quoted row_key @ ''], columnKey: [''
     @ quoted column_key @ ''], valueColumn: '' @ quoted v @ '')''"
| "stage_text (Sort column) = ''  |> sort(columns: ['' @ quoted column @ ''])''"
| "stage_text (Limit n) = ''  |> limit(n: '' @ int_str n @ '')''"

definition flux_text :: "flux_stage list \<Rightarrow> string" where
  "flux_text stages = [CHR 0x0A] @ concat (map (flux_line \<circ> stage_text) stages) @ replicate 8 CHR '' ''"

text \<open>
  Inside a string literal of Flux a quote ends it and a backslash or a dollar sign is special; the
  name of a column is read up to the next blank.
\<close>

definition plain_text :: "string \<Rightarrow> bool" where
  "plain_text v \<longleftrightarrow> set v \<inter> {CHR 0x22, CHR 0x5C, CHR ''$'', CHR 0x0A} = {}"

fun plain_stage :: "flux_stage \<Rightarrow> bool" where
  "plain_stage (From bucket) = plain_text bucket"
| "plain_stage (Range days) = (0 \<le> days)"
| "plain_stage (Filter column v) = (plain_text column \<and> CHR '' '' \<notin> set column \<and> plain_text v)"
| "plain_stage (Pivot row_key column_key v) = (plain_text row_key \<and> plain_text column_key \<and> plain_text v)"
| "plain_stage (Sort column) = plain_text column"
| "plain_stage (Limit n) = (0 \<le> n)"

text \<open>A text spells at most one pipeline.\<close>

lemma append_delimited:
  "x \<notin> set a \<Longrightarrow> x \<notin> set c \<Longrightarrow> a @ x # b = c @ x # d \<longleftrightarrow> a = c \<and> b = d"
proof (induction a arbitrary: c)
  case Nil
  then show ?case by (cases c) auto
next
  case (Cons y a)
  then show ?case by (cases c) auto
qed

lemma int_str_inj: "int_str i = int_str j \<longleftrightarrow> i = j"
proof
  have minus: "nat_str n \<noteq> CHR ''-'' # cs" for n cs
    using hd_nat_str [of n "CHR ''-''" cs] by (auto simp: digits_def)
  assume "int_str i = int_str j"
  then show "i = j" using minus minus [symmetric]
    by (auto simp: int_str_def nat_str_inj split: if_splits)
qed simp

lemma concat_lines_inj:
  assumes "\<forall>l \<in> set ls \<union> set ms. x \<notin> set l" "x \<notin> set pre" "x \<notin> set tail"
    and "concat (map (\<lambda>l. pre @ l @ [x]) ls) @ tail = concat (map (\<lambda>l. pre @ l @ [x]) ms) @ tail"
  shows "ls = ms"
  using assms(1,4)
proof (induction ls arbitrary: ms)
  case Nil
  show ?case
  proof (cases ms)
    case (Cons m ms')
    then have "x \<in> set (concat (map (\<lambda>l. pre @ l @ [x]) ms) @ tail)" by simp
    moreover have "concat (map (\<lambda>l. pre @ l @ [x]) ms) @ tail = tail" using Nil.prems(2) by simp
    ultimately show ?thesis using assms(3) by metis
  qed simp
next
  case (Cons l ls)
  show ?case
  proof (cases ms)
    case Nil
    then have "x \<in> set (concat (map (\<lambda>l. pre @ l @ [x]) (l # ls)) @ tail)" by simp
    moreover have "concat (map (\<lambda>l. pre @ l @ [x]) (l # ls)) @ tail = tail" using Cons.prems(2) Nil by simp
    ultimately show ?thesis using assms(3) by metis
  next
    case (Cons m ms')
    let ?rest = "\<lambda>ls. concat (map (\<lambda>l. pre @ l @ [x]) ls) @ tail"
    have "l @ x # ?rest ls = m @ x # ?rest ms'" using Cons.prems(2) Cons by simp
    then have "l = m" "?rest ls = ?rest ms'"
      using append_delimited [of x l m] Cons.prems(1) Cons by simp_all
    then show ?thesis using Cons.IH [of ms'] Cons.prems(1) Cons by simp
  qed
qed

lemma stage_text_line: "plain_stage st \<Longrightarrow> CHR 0x0A \<notin> set (stage_text st)"
  using set_int_str_number
  by (cases st) (fastforce simp: plain_text_def quoted_def number_chars_def)+

lemma stage_text_inj: "plain_stage a \<Longrightarrow> plain_stage b \<Longrightarrow> stage_text a = stage_text b \<Longrightarrow> a = b"
  by (cases a; cases b) (auto simp: quoted_def plain_text_def int_str_inj append_delimited)

lemma flux_text_inj:
  assumes "list_all plain_stage p" "list_all plain_stage q" "flux_text p = flux_text q"
  shows "p = q"
proof -
  have "map stage_text p = map stage_text q"
    by (rule concat_lines_inj [where x = "CHR 0x0A" and pre = "replicate 8 CHR '' ''" and tail = "replicate 8 CHR '' ''"])
       (use assms in \<open>auto simp: flux_text_def flux_line_def comp_def list_all_iff stage_text_line\<close>)
  then show ?thesis
    using assms(1,2)
    by (induction p q rule: list_induct2') (auto intro: stage_text_inj)
qed

section \<open>What a pipeline means\<close>

text \<open>
  The points of a trace with their times: the clock stamps each write. A point is one row per field;
  a bucket answers its rows in the order of their times.
\<close>

fun is_write :: "effect \<Rightarrow> bool" where
  "is_write (InfluxWrite b m t n c) = True"
| "is_write _ = False"

definition stamped :: "(nat \<Rightarrow> int) \<Rightarrow> effect list \<Rightarrow> (int \<times> effect) list" where
  "stamped clock trace = (let ws = filter is_write trace in zip (map clock [0..<length ws]) ws)"

definition field_row :: "int \<Rightarrow> string \<Rightarrow> string \<Rightarrow> string \<Rightarrow> pyval \<Rightarrow> pydict" where
  "field_row time m tid field v = [(PStr ''_time'', PInt time), (PStr ''_measurement'', PStr m),
     (PStr ''test_id'', PStr tid), (PStr ''_field'', PStr field), (PStr ''_value'', v)]"

fun point_rows :: "string \<Rightarrow> int \<times> effect \<Rightarrow> pydict list" where
  "point_rows bucket (time, InfluxWrite b m tid n c) = (if b = bucket
     then [field_row time m tid ''line_no'' (PInt n), field_row time m tid ''content'' (PStr c)] else [])"
| "point_rows bucket (time, _) = []"

definition bucket_rows :: "(nat \<Rightarrow> int) \<Rightarrow> effect list \<Rightarrow> string \<Rightarrow> pydict list" where
  "bucket_rows clock trace bucket = concat (map (point_rows bucket) (sort_key fst (stamped clock trace)))"

text \<open>Times are in nanoseconds.\<close>

definition day :: int where
  "day = 24 * 60 * 60 * 1000000000"

fun number_of :: "pyval \<Rightarrow> int" where
  "number_of (PInt n) = n"
| "number_of _ = 0"

definition column :: "string \<Rightarrow> pydict \<Rightarrow> pyval" where
  "column c row = dict_get row c PNone"

text \<open>
  A pivot makes one row of all rows with the same key, with a column for each of theirs. The rows of
  the program's query all belong to one series but for the field when they get there, so one
  table is enough; the columns of the series itself are left out.
\<close>

definition pivot :: "string \<Rightarrow> string \<Rightarrow> string \<Rightarrow> pydict list \<Rightarrow> pydict list" where
  "pivot row_key column_key v rows =
     map (\<lambda>k. foldl (\<lambda>d row. dict_set d (column column_key row) (column v row)) [(PStr row_key, k)]
            (filter (\<lambda>row. column row_key row = k) rows))
       (remdups (map (column row_key) rows))"

fun stage_rows :: "int \<Rightarrow> flux_stage \<Rightarrow> pydict list \<Rightarrow> pydict list" where
  "stage_rows now (From bucket) rows = rows"
| "stage_rows now (Range days) rows =
     filter (\<lambda>row. now - days * day \<le> number_of (column ''_time'' row) \<and> number_of (column ''_time'' row) < now) rows"
| "stage_rows now (Filter c v) rows = filter (\<lambda>row. column c row = PStr v) rows"
| "stage_rows now (Pivot row_key column_key v) rows = pivot row_key column_key v rows"
| "stage_rows now (Sort c) rows = sort_key (\<lambda>row. number_of (column c row)) rows"
| "stage_rows now (Limit n) rows = take (nat n) rows"

text \<open>The tables of the answer: none for no row, and an error for a text without a source.\<close>

fun flux_answer :: "int \<Rightarrow> (string \<Rightarrow> pydict list) \<Rightarrow> flux_stage list \<Rightarrow> pydict list list result" where
  "flux_answer now store (From bucket # stages) =
     (let rows = fold (stage_rows now) stages (store bucket) in Inr (if rows = [] then [] else [rows]))"
| "flux_answer now store _ = Inl (ServiceError ''invalid query'')"

definition answers_flux ::
    "(string \<Rightarrow> pydict list list result) \<Rightarrow> int \<Rightarrow> (string \<Rightarrow> pydict list) \<Rightarrow> string \<Rightarrow> bool" where
  "answers_flux query now store txt \<longleftrightarrow>
     (\<forall>stages. list_all plain_stage stages \<longrightarrow> txt = flux_text stages \<longrightarrow> query txt = flux_answer now store stages)"

text \<open>A service that answers one pipeline by what it means answers its text.\<close>

lemma answers_flux_text:
  "list_all plain_stage stages \<Longrightarrow> answers_flux (\<lambda>_. flux_answer now store stages) now store (flux_text stages)"
  by (auto simp: answers_flux_def dest: flux_text_inj)

section \<open>The query of the log client\<close>

definition log_pipeline :: "settings \<Rightarrow> string \<Rightarrow> int \<Rightarrow> flux_stage list" where
  "log_pipeline s tid limit = [From (influx_bucket s), Range 30, Filter ''_measurement'' measurement,
     Filter ''test_id'' tid, Pivot ''_time'' ''_field'' ''_value'', Sort ''line_no'', Limit limit]"

lemma flux_query_text: "flux_query s tid limit = flux_text (log_pipeline s tid limit)"
proof -
  have "int_str 30 = ''30''" by code_simp
  then show ?thesis by (simp add: flux_query_def flux_text_def log_pipeline_def)
qed

lemma log_pipeline_plain:
  assumes "plain_text (influx_bucket s)" "plain_text tid" "0 < limit"
  shows "list_all plain_stage (log_pipeline s tid limit)"
  using assms by (simp add: log_pipeline_def measurement_def) (simp add: plain_text_def)

text \<open>The points of a test among the writes of a trace: line number and content.\<close>

fun point_of :: "settings \<Rightarrow> string \<Rightarrow> effect \<Rightarrow> (int \<times> string) option" where
  "point_of s tid (InfluxWrite b m t n c) =
     (if b = influx_bucket s \<and> m = measurement \<and> t = tid then Some (n, c) else None)"
| "point_of s tid _ = None"

definition stored_points :: "settings \<Rightarrow> string \<Rightarrow> effect list \<Rightarrow> (int \<times> string) list" where
  "stored_points s tid trace = List.map_filter (point_of s tid) trace"

lemma stored_points_simps [simp]:
  "stored_points s tid [] = []"
  "stored_points s tid (xs @ ys) = stored_points s tid xs @ stored_points s tid ys"
  "stored_points s tid (log_point s tid n c # xs) = (n, c) # stored_points s tid xs"
  "stored_points s tid (PublishFanout x b # xs) = stored_points s tid xs"
  by (induction xs) (simp_all add: stored_points_def log_point_def List.map_filter_def)

text \<open>The stamped points of a test, as the rows stand in the answer.\<close>

definition stamped_point :: "settings \<Rightarrow> string \<Rightarrow> int \<times> effect \<Rightarrow> (int \<times> int \<times> string) option" where
  "stamped_point s tid te = map_option (Pair (fst te)) (point_of s tid (snd te))"

definition point_pair :: "string \<Rightarrow> int \<times> int \<times> string \<Rightarrow> pydict list" where
  "point_pair tid = (\<lambda>(time, n, c). [field_row time measurement tid ''line_no'' (PInt n),
     field_row time measurement tid ''content'' (PStr c)])"

lemma column_field_row [simp]:
  "column ''_time'' (field_row t m tid f v) = PInt t" "column ''_measurement'' (field_row t m tid f v) = PStr m"
  "column ''test_id'' (field_row t m tid f v) = PStr tid" "column ''_field'' (field_row t m tid f v) = PStr f"
  "column ''_value'' (field_row t m tid f v) = v"
  by (simp_all add: column_def field_row_def dict_get_def)

lemma filtered_points:
  assumes "\<forall>te \<in> set tes. is_write (snd te) \<and> now - 30 * day \<le> fst te \<and> fst te < now"
  shows "filter (\<lambda>row. column ''test_id'' row = PStr tid) (filter (\<lambda>row. column ''_measurement'' row = PStr measurement)
      (stage_rows now (Range 30) (concat (map (point_rows (influx_bucket s)) tes)))) =
    concat (map (point_pair tid) (List.map_filter (stamped_point s tid) tes))"
  using assms
proof (induction tes)
  case (Cons te tes)
  obtain time e where te: "te = (time, e)" by fastforce
  show ?case
  proof (cases e)
    case (InfluxWrite b m t n c)
    with Cons te show ?thesis by (auto simp: stamped_point_def point_pair_def)
  qed (use Cons te in simp_all)
qed simp

lemma pivot_points:
  assumes "distinct (map fst ps)"
  shows "pivot ''_time'' ''_field'' ''_value'' (concat (map (point_pair tid) ps)) =
    map (\<lambda>(time, n, c). [(PStr ''_time'', PInt time), (PStr ''line_no'', PInt n), (PStr ''content'', PStr c)]) ps"
proof -
  let ?rows = "concat (map (point_pair tid) ps)"
  have times: "remdups (map (column ''_time'') (concat (map (point_pair tid) qs))) = map (PInt \<circ> fst) qs"
    if "distinct (map fst qs)" for qs
    using that by (induction qs) (auto simp: point_pair_def, force+)
  have group: "filter (\<lambda>row. column ''_time'' row = PInt (fst p)) (concat (map (point_pair tid) qs)) =
      (if p \<in> set qs then point_pair tid p else [])" if "p \<in> set ps" "set qs \<subseteq> set ps" "distinct (map fst qs)" for p qs
    using that(2,3)
  proof (induction qs)
    case (Cons q qs)
    show ?case
    proof (cases "q = p")
      case True
      then have "p \<notin> set qs" using Cons.prems(2) by auto
      with True Cons show ?thesis by (cases p) (simp add: point_pair_def)
    next
      case False
      then have "fst q \<noteq> fst p"
        using Cons.prems(1) that(1) assms by (auto simp: distinct_map dest: inj_onD)
      with False Cons show ?thesis by (cases q) (auto simp: point_pair_def)
    qed
  qed simp
  have "foldl (\<lambda>d row. dict_set d (column ''_field'' row) (column ''_value'' row)) [(PStr ''_time'', PInt (fst p))]
      (filter (\<lambda>row. column ''_time'' row = PInt (fst p)) ?rows) =
    [(PStr ''_time'', PInt (fst p)), (PStr ''line_no'', PInt (fst (snd p))), (PStr ''content'', PStr (snd (snd p)))]"
    if "p \<in> set ps" for p
    using group [OF that subset_refl assms] that by (cases p) (simp add: point_pair_def)
  then show ?thesis
    unfolding pivot_def times [OF assms] by (auto simp: comp_def)
qed

lemma map_filter_map: "List.map_filter f (map g xs) = List.map_filter (f \<circ> g) xs"
  by (induction xs) (simp_all split: option.split)

lemma map_map_filter: "map g (List.map_filter f xs) = List.map_filter (\<lambda>x. map_option g (f x)) xs"
  by (induction xs) (simp_all split: option.split)

lemma insort_key_map: "insort_key f (g x) (map g ys) = map g (insort_key (\<lambda>y. f (g y)) x ys)"
  by (induction ys) simp_all

lemma sort_key_map: "sort_key f (map g xs) = map g (sort_key (f \<circ> g) xs)"
  by (induction xs) (simp_all add: insort_key_map comp_def)

lemma mset_map_filter: "mset xs = mset ys \<Longrightarrow> mset (List.map_filter f xs) = mset (List.map_filter f ys)"
  by (simp add: List.map_filter_def)

text \<open>The stamped points of a test are its stored points, in the order of their times.\<close>

definition test_points :: "settings \<Rightarrow> string \<Rightarrow> (nat \<Rightarrow> int) \<Rightarrow> effect list \<Rightarrow> (int \<times> int \<times> string) list" where
  "test_points s tid clock trace = List.map_filter (stamped_point s tid) (sort_key fst (stamped clock trace))"

lemma test_points_mset: "mset (map snd (test_points s tid clock trace)) = mset (stored_points s tid trace)"
proof -
  have "map snd (test_points s tid clock trace) =
      List.map_filter (point_of s tid \<circ> snd) (sort_key fst (stamped clock trace))"
    by (simp add: test_points_def map_map_filter stamped_point_def option.map_comp comp_def option.map_ident)
  also have "mset \<dots> = mset (List.map_filter (point_of s tid \<circ> snd) (stamped clock trace))"
    by (rule mset_map_filter) simp
  also have "List.map_filter (point_of s tid \<circ> snd) (stamped clock trace) =
      List.map_filter (point_of s tid) (filter is_write trace)"
    unfolding map_filter_map [symmetric] by (simp add: stamped_def Let_def)
  also have "\<dots> = stored_points s tid trace"
    unfolding stored_points_def
  proof (induction trace)
    case (Cons e trace)
    then show ?case by (cases e) simp_all
  qed simp
  finally show ?thesis .
qed

lemma stamped_times:
  assumes "inj_on clock {..<length (filter is_write trace)}"
  shows "distinct (map fst (stamped clock trace))"
  using assms by (simp add: stamped_def Let_def distinct_map atLeast0LessThan)

lemma test_points_times:
  assumes "inj_on clock {..<length (filter is_write trace)}"
  shows "distinct (map fst (test_points s tid clock trace))"
proof -
  have d: "distinct (map fst (sort_key fst (stamped clock trace)))"
    using stamped_times [OF assms] by (metis distinct_map distinct_sort set_sort)
  have "distinct (map fst (List.map_filter (stamped_point s tid) tes))" if "distinct (map fst tes)" for tes
    using that
  proof (induction tes)
    case (Cons te tes)
    have "x \<in> fst ` set tes" if "x \<in> fst ` set (List.map_filter (stamped_point s tid) tes)" for x
      using that by (force simp: List.map_filter_def stamped_point_def)
    note sub = this
    show ?case
    proof (cases "point_of s tid (snd te)")
      case None
      then have "stamped_point s tid te = None" by (simp add: stamped_point_def)
      with Cons show ?thesis by simp
    next
      case (Some p)
      then have "stamped_point s tid te = Some (fst te, p)" by (simp add: stamped_point_def)
      moreover have "fst te \<notin> fst ` set (List.map_filter (stamped_point s tid) tes)" using sub Cons.prems by auto
      ultimately show ?thesis using Cons by simp
    qed
  qed simp
  with d show ?thesis by (simp add: test_points_def)
qed

text \<open>
  The log client reads the points of a test in the order of their line numbers, whatever the order
  of their times, if the times are distinct and recent.
\<close>

lemma read_lines_stored:
  assumes "\<not> blank tid" "0 < limit" "plain_text tid" "plain_text (influx_bucket s)"
    and "inj_on clock {..<length (filter is_write trace)}"
    and "\<forall>i < length (filter is_write trace). now - 30 * day \<le> clock i \<and> clock i < now"
    and "answers_flux query now (bucket_rows clock trace) (flux_query s tid limit)"
    and "sorted (map fst (stored_points s tid trace))" "distinct (map fst (stored_points s tid trace))"
  shows "read_lines s query (PStr tid) (PInt limit) = Inr (map (PStr \<circ> snd) (take (nat limit) (stored_points s tid trace)))"
proof -
  let ?tes = "sort_key fst (stamped clock trace)" and ?ps = "test_points s tid clock trace"
  let ?entry = "\<lambda>(time, n, c). [(PStr ''_time'', PInt time), (PStr ''line_no'', PInt n), (PStr ''content'', PStr c)]"
  have recent: "\<forall>te \<in> set ?tes. is_write (snd te) \<and> now - 30 * day \<le> fst te \<and> fst te < now"
    using assms(6) nth_mem [of _ "filter is_write trace"] by (fastforce simp: stamped_def Let_def set_zip)
  have rows: "fold (stage_rows now) (tl (log_pipeline s tid limit)) (bucket_rows clock trace (influx_bucket s)) =
      take (nat limit) (sort_key (\<lambda>row. number_of (column ''line_no'' row)) (map ?entry ?ps))"
    using filtered_points [OF recent, of tid s] pivot_points [OF test_points_times [OF assms(5)], of tid s tid]
    by (simp add: log_pipeline_def bucket_rows_def test_points_def)
  have key: "(\<lambda>row. number_of (column ''line_no'' row)) \<circ> ?entry = fst \<circ> snd"
    by (simp add: fun_eq_iff column_def dict_get_def)
  have sorted: "map snd (sort_key (fst \<circ> snd) ?ps) = stored_points s tid trace"
  proof -
    have "map snd (sort_key (fst \<circ> snd) ?ps) = sort_key fst (map snd ?ps)"
      by (simp add: sort_key_map)
    also have "\<dots> = stored_points s tid trace"
    proof (rule sort_key_inj_key_eq)
      show m: "mset (map snd ?ps) = mset (stored_points s tid trace)" by (rule test_points_mset)
      show "inj_on fst (set (map snd ?ps))"
        unfolding mset_eq_setD [OF m] using assms(9) by (simp add: distinct_map)
      show "sorted (map fst (stored_points s tid trace))" by (rule assms(8))
    qed
    finally show ?thesis .
  qed
  let ?rows = "take (nat limit) (map ?entry (sort_key (fst \<circ> snd) ?ps))"
  have "fold (stage_rows now) (tl (log_pipeline s tid limit)) (bucket_rows clock trace (influx_bucket s)) = ?rows"
    unfolding rows key [symmetric] by (simp add: sort_key_map)
  then have "query (flux_query s tid limit) = Inr (if ?rows = [] then [] else [?rows])"
    using assms(7) log_pipeline_plain [OF assms(4,3,2)] flux_query_text [of s tid limit]
    by (simp add: answers_flux_def log_pipeline_def Let_def)
  then have "read_lines s query (PStr tid) (PInt limit) = Inr (map (\<lambda>r. dict_get r ''content'' (PStr [])) ?rows)"
    using assms(1,2) by (simp add: read_lines_def)
  also have "map (\<lambda>r. dict_get r ''content'' (PStr [])) ?rows = map (PStr \<circ> snd) (take (nat limit) (map snd (sort_key (fst \<circ> snd) ?ps)))"
    by (simp add: take_map dict_get_def comp_def split_beta)
  finally show ?thesis unfolding sorted .
qed

end
