(* ===== verification/RunOutput.thy ===== *)
theory RunOutput
  imports Tasks Flux
begin

text \<open>
  What a run puts out while its container prints: the points in InfluxDB, the messages of the live
  exchange and the index rows in Postgres, how the log client reads the points back, and the
  artifacts that are uploaded afterwards.
\<close>

section \<open>Log lines\<close>

definition line_effects :: "settings \<Rightarrow> string \<Rightarrow> nat \<Rightarrow> string \<Rightarrow> effect list" where
  "line_effects s tid n line = [log_point s tid (int n) line, PublishFanout (''test_logs.'' @ tid) line]"

fun pumped :: "settings \<Rightarrow> string \<Rightarrow> nat \<Rightarrow> string list \<Rightarrow> effect list" where
  "pumped s tid n [] = []"
| "pumped s tid n (l # ls) = line_effects s tid n l @ pumped s tid (Suc n) ls"

fun indexed :: "string \<Rightarrow> nat \<Rightarrow> string list \<Rightarrow> (string \<times> int \<times> string) list" where
  "indexed tid n [] = []"
| "indexed tid n (l # ls) = (if n mod log_checkpoint_every = 0 then [(tid, int n, l)] else []) @ indexed tid (Suc n) ls"

definition log_index :: "db \<Rightarrow> (string \<times> int \<times> string) list" where
  "log_index d = map (\<lambda>l. (ll_test_id l, ll_line_no l, ll_content l)) (log_lines d)"

lemma log_index_add [simp]: "log_index (add_log_line now tid n l d) = log_index d @ [(tid, int n, l)]"
  by (simp add: log_index_def add_log_line_def)

definition streamed :: "settings \<Rightarrow> string \<Rightarrow> nat \<Rightarrow> string list \<Rightarrow> world \<Rightarrow> unit result \<Rightarrow> world \<Rightarrow> nat \<Rightarrow> effect list \<Rightarrow> bool" where
  "streamed s tid n ls w r w' k p \<longleftrightarrow> k \<le> length ls \<and> prefix p (pumped s tid n ls) \<and>
     prefix (pumped s tid n (take k ls)) p \<and> w_trace w' = w_trace w @ p \<and>
     log_index (w_db w') = log_index (w_db w) @ indexed tid n (take k ls) \<and>
     (r = Inr () \<longrightarrow> k = length ls \<and> p = pumped s tid n ls)"

lemma pump_lines_Cons:
  assumes "\<not> blank tid"
  shows "pump_lines s env tid n (l # ls) w =
    (let w1 = w\<lparr>w_trace := w_trace w @ [log_point s tid (int n) l]\<rparr>;
         w2 = w\<lparr>w_trace := w_trace w @ line_effects s tid n l\<rparr>
     in case rn_influx_write env n of Some e \<Rightarrow> (Inl e, w) | None \<Rightarrow>
       (case rn_publish env n of Some e \<Rightarrow> (Inl e, w1) | None \<Rightarrow>
         if n mod log_checkpoint_every = 0
         then (case rn_checkpoint env n of Some e \<Rightarrow> (Inl e, w2)
               | None \<Rightarrow> pump_lines s env tid (Suc n) ls (w2\<lparr>w_db := add_log_line (rn_now env) tid n l (w_db w2)\<rparr>))
         else pump_lines s env tid (Suc n) ls w2))"
  using assms
  by (auto simp: act_bind_def act_return_def publish_log_line_def publish_fanout_def line_effects_def Let_def
      split: option.splits)

text \<open>The loop stops at one of the three calls of a line, or goes on with the next one.\<close>

lemma pump_lines_first:
  assumes "\<not> blank tid" "pump_lines s env tid n (l # ls) w = (r, w')"
  shows "(\<exists>e p. r = Inl e \<and> w' = w\<lparr>w_trace := w_trace w @ p\<rparr> \<and>
      p \<in> {[], [log_point s tid (int n) l], line_effects s tid n l}) \<or>
    (\<exists>w0. pump_lines s env tid (Suc n) ls w0 = (r, w') \<and> w_trace w0 = w_trace w @ line_effects s tid n l \<and>
      log_index (w_db w0) = log_index (w_db w) @ (if n mod log_checkpoint_every = 0 then [(tid, int n, l)] else []))"
proof -
  let ?w1 = "w\<lparr>w_trace := w_trace w @ [log_point s tid (int n) l]\<rparr>"
    and ?w2 = "w\<lparr>w_trace := w_trace w @ line_effects s tid n l\<rparr>"
  have "w = w\<lparr>w_trace := w_trace w @ []\<rparr>" by simp
  then have "(\<exists>e. r = Inl e \<and> w' \<in> {w, ?w1, ?w2}) \<or>
      pump_lines s env tid (Suc n) ls (if n mod log_checkpoint_every = 0
        then ?w2\<lparr>w_db := add_log_line (rn_now env) tid n l (w_db ?w2)\<rparr> else ?w2) = (r, w')"
    using assms(2) by (auto simp: pump_lines_Cons [OF assms(1)] Let_def simp del: pump_lines.simps
        split: option.splits if_splits)
  then show ?thesis
  proof
    assume "\<exists>e. r = Inl e \<and> w' \<in> {w, ?w1, ?w2}"
    then show ?thesis using \<open>w = w\<lparr>w_trace := w_trace w @ []\<rparr>\<close> by blast
  qed (intro disjI2 exI conjI, assumption, simp_all)
qed

lemma pump_lines_streamed:
  assumes "\<not> blank tid"
  shows "pump_lines s env tid n ls w = (r, w') \<Longrightarrow> \<exists>k p. streamed s tid n ls w r w' k p"
proof (induction ls arbitrary: n w)
  case Nil
  then have "w' = w" by (auto simp: service_def act_return_def act_raise_def split: option.splits)
  then have "streamed s tid n [] w r w' 0 []" by (simp add: streamed_def)
  then show ?case by blast
next
  case (Cons l ls)
  from pump_lines_first [OF assms Cons.prems] show ?case
  proof (elim disjE exE conjE)
    fix e p assume "r = Inl e" "w' = w\<lparr>w_trace := w_trace w @ p\<rparr>"
      "p \<in> {[], [log_point s tid (int n) l], line_effects s tid n l}"
    then have "streamed s tid n (l # ls) w r w' 0 p" by (auto simp: streamed_def line_effects_def)
    then show ?thesis by blast
  next
    fix w0 assume w0: "pump_lines s env tid (Suc n) ls w0 = (r, w')" "w_trace w0 = w_trace w @ line_effects s tid n l"
      "log_index (w_db w0) = log_index (w_db w) @ (if n mod log_checkpoint_every = 0 then [(tid, int n, l)] else [])"
    from Cons.IH [OF w0(1)] obtain k p where "streamed s tid (Suc n) ls w0 r w' k p" by blast
    with w0(2,3) have "streamed s tid n (l # ls) w r w' (Suc k) (line_effects s tid n l @ p)"
      by (simp add: streamed_def)
    then show ?thesis by blast
  qed
qed

text \<open>
  C23: The lines of a container reach InfluxDB and the live exchange in the order they were
  printed, numbered from zero, each exactly once and the point before the message: whatever
  fails, what has been written is a prefix of that sequence, and all of it when the loop ends
  normally. Postgres holds every twenty-fifth line of those completely written.
\<close>

theorem logs_in_order:
  assumes "\<not> blank tid" "pump_lines s env tid 0 ls w = (r, w')"
  shows "\<exists>k p. k \<le> length ls \<and> prefix p (pumped s tid 0 ls) \<and> prefix (pumped s tid 0 (take k ls)) p \<and>
    w_trace w' = w_trace w @ p \<and> log_index (w_db w') = log_index (w_db w) @ indexed tid 0 (take k ls) \<and>
    (r = Inr () \<longrightarrow> k = length ls \<and> p = pumped s tid 0 ls)"
  using pump_lines_streamed [OF assms] by (simp add: streamed_def)

theorem logs_in_order_witness:
  "w_trace (snd (pump_lines default_settings quiet_run ''t'' 0 [''a'', ''b''] empty_world)) = pumped default_settings ''t'' 0 [''a'', ''b''] \<and>
   log_index (w_db (snd (pump_lines default_settings quiet_run ''t'' 0 [''a'', ''b''] empty_world))) = [(''t'', 0, ''a'')]"
proof -
  have b: "\<not> blank ''t''" by code_simp
  have "fst (pump_lines default_settings quiet_run ''t'' 0 [''a'', ''b''] empty_world) = Inr ()" by code_simp
  then obtain w' where w': "pump_lines default_settings quiet_run ''t'' 0 [''a'', ''b''] empty_world = (Inr (), w')"
    by (metis prod.collapse)
  have e: "w_trace empty_world = []" "log_index (w_db empty_world) = []"
    by (simp_all add: empty_world_def empty_db_def log_index_def)
  from logs_in_order [OF b w'] show ?thesis
    by (auto simp: w' e log_checkpoint_every_def simp del: pump_lines.simps)
qed

section \<open>Reading the lines back\<close>

fun numbered :: "nat \<Rightarrow> string list \<Rightarrow> (int \<times> string) list" where
  "numbered n [] = []"
| "numbered n (l # ls) = (int n, l) # numbered (Suc n) ls"

lemma numbered_lines [simp]: "map snd (numbered n ls) = ls"
  by (induction n ls rule: numbered.induct) simp_all

lemma numbered_from: "x \<in> set (numbered n ls) \<Longrightarrow> int n \<le> fst x"
  by (induction n ls rule: numbered.induct) force+

lemma numbered_sorted: "sorted (map fst (numbered n ls))"
  by (induction n ls rule: numbered.induct) (auto dest: numbered_from)

lemma stored_points_pumped [simp]: "stored_points s tid (pumped s tid n ls) = numbered n ls"
  by (induction n ls rule: numbered.induct) (simp_all add: line_effects_def)

lemma stored_points_prefix:
  "prefix p (pumped s tid n ls) \<Longrightarrow> \<exists>m. stored_points s tid p = numbered n (take m ls)"
proof (induction ls arbitrary: n p)
  case Nil
  then show ?case by simp
next
  case (Cons l ls)
  from Cons.prems consider "p = []" | "p = [log_point s tid (int n) l]"
    | q where "p = line_effects s tid n l @ q" "prefix q (pumped s tid (Suc n) ls)"
    by (cases p; cases "tl p") (auto simp: line_effects_def)
  then show ?case
  proof cases
    case 1
    then show ?thesis by (intro exI [of _ 0]) simp
  next
    case 2
    then show ?thesis by (intro exI [of _ 1]) simp
  next
    case (3 q)
    from Cons.IH [OF 3(2)] obtain m where "stored_points s tid q = numbered (Suc n) (take m ls)" by blast
    with 3(1) show ?thesis by (intro exI [of _ "Suc m"]) (simp add: line_effects_def)
  qed
qed

lemma numbered_distinct: "distinct (map fst (numbered n ls))"
  by (induction n ls rule: numbered.induct) (auto dest: numbered_from)

text \<open>
  C24: The log client reads back what the worker wrote: for a test with no earlier points, the
  lines it returns are the first ones the container printed, in their order and without gaps,
  cut at the limit, whatever ended the loop; and when the loop ended normally, only the limit
  cuts them. The time series is only assumed to answer the text of the query by the pipeline
  it spells, with the points stamped by any clock, even one that runs backwards, that gives
  different points different times of the last thirty days; the name of the bucket and the test
  id must not contain characters special to the query language.
\<close>

theorem logs_read_back:
  assumes "\<not> blank tid" "0 < limit" "pump_lines s env tid 0 ls w = (r, w')"
    and "stored_points s tid (w_trace w) = []" "plain_text tid" "plain_text (influx_bucket s)"
    and "inj_on clock {..<length (filter is_write (w_trace w'))}"
    and "\<forall>i < length (filter is_write (w_trace w')). now - 30 * day \<le> clock i \<and> clock i < now"
    and "answers_flux query now (bucket_rows clock (w_trace w')) (flux_query s tid limit)"
  shows "\<exists>m. read_lines s query (PStr tid) (PInt limit) = Inr (map PStr (take (nat limit) (take m ls))) \<and>
    (r = Inr () \<longrightarrow> length ls \<le> m)"
proof -
  from pump_lines_streamed [OF assms(1,3)] obtain k p where "streamed s tid 0 ls w r w' k p" by blast
  then have p: "prefix p (pumped s tid 0 ls)" "w_trace w' = w_trace w @ p"
    and full: "r = Inr () \<Longrightarrow> p = pumped s tid 0 ls"
    by (auto simp: streamed_def)
  obtain m where m: "stored_points s tid p = numbered 0 (take m ls)" "r = Inr () \<longrightarrow> length ls \<le> m"
  proof (cases "r = Inr ()")
    case True
    with full that [of "length ls"] show thesis by simp
  next
    case False
    with stored_points_prefix [OF p(1)] that show thesis by blast
  qed
  have stored: "stored_points s tid (w_trace w') = numbered 0 (take m ls)" using p(2) assms(4) m(1) by simp
  have "read_lines s query (PStr tid) (PInt limit) =
      Inr (map (PStr \<circ> snd) (take (nat limit) (numbered 0 (take m ls))))"
    using read_lines_stored [OF assms(1,2,5-9)] numbered_sorted numbered_distinct unfolding stored by blast
  also have "map (PStr \<circ> snd) (take (nat limit) (numbered 0 (take m ls))) =
      map PStr (take (nat limit) (take m ls))"
    by (metis numbered_lines map_map take_map)
  finally show ?thesis using m(2) by blast
qed

text \<open>A database whose clock runs backwards.\<close>

definition back_clock :: "nat \<Rightarrow> int" where
  "back_clock i = - int i"

theorem logs_read_back_witness:
  "(let w' = snd (pump_lines default_settings quiet_run ''t'' 0 [''a'', ''b'', ''c''] empty_world) in
     read_lines default_settings
       (\<lambda>_. flux_answer 1 (bucket_rows back_clock (w_trace w')) (log_pipeline default_settings ''t'' 2))
       (PStr ''t'') (PInt 2) = Inr [PStr ''a'', PStr ''b''])"
proof -
  let ?run = "pump_lines default_settings quiet_run ''t'' 0 [''a'', ''b'', ''c''] empty_world"
  have b: "\<not> blank ''t''" "plain_text ''t''" "plain_text (influx_bucket default_settings)" by code_simp+
  have r: "fst ?run = Inr ()" "length (filter is_write (w_trace (snd ?run))) = 3" by code_simp+
  then obtain w' where w': "?run = (Inr (), w')" by (metis prod.collapse)
  have e: "stored_points default_settings ''t'' (w_trace empty_world) = []" by (simp add: empty_world_def)
  have n: "(0::int) < 2" by simp
  let ?store = "bucket_rows back_clock (w_trace w')"
  let ?q = "\<lambda>_ :: string. flux_answer 1 ?store (log_pipeline default_settings ''t'' 2)"
  have clock: "inj_on back_clock {..<length (filter is_write (w_trace w'))}"
    "\<forall>i < length (filter is_write (w_trace w')). 1 - 30 * day \<le> back_clock i \<and> back_clock i < 1"
    using r(2) w' by (simp_all add: inj_on_def back_clock_def day_def)
  have q: "answers_flux ?q 1 ?store (flux_query default_settings ''t'' 2)"
    unfolding flux_query_text by (rule answers_flux_text [OF log_pipeline_plain [OF b(3,2) n]])
  from logs_read_back [OF b(1) n w' e b(2,3) clock q]
  have "read_lines default_settings ?q (PStr ''t'') (PInt 2) = Inr [PStr ''a'', PStr ''b'']" by auto
  then show ?thesis by (simp add: w' del: pump_lines.simps flux_answer.simps)
qed

text \<open>
  Lines that share a timestamp are not told apart by the query: the pivot has the time as its only
  key, so they become one record, with the content of the last.
\<close>

theorem same_time_lines_merge:
  "(let w' = snd (pump_lines default_settings quiet_run ''t'' 0 [''a'', ''b'', ''c''] empty_world) in
     read_lines default_settings
       (\<lambda>_. flux_answer 1 (bucket_rows (\<lambda>_. 0) (w_trace w')) (log_pipeline default_settings ''t'' 50))
       (PStr ''t'') (PInt 50)) = Inr [PStr ''c'']"
proof -
  have "w_trace (snd (pump_lines default_settings quiet_run ''t'' 0 [''a'', ''b'', ''c''] empty_world)) =
      pumped default_settings ''t'' 0 [''a'', ''b'', ''c'']" by code_simp
  moreover have "read_lines default_settings
      (\<lambda>_. flux_answer 1 (bucket_rows (\<lambda>_. 0) (pumped default_settings ''t'' 0 [''a'', ''b'', ''c'']))
         (log_pipeline default_settings ''t'' 50)) (PStr ''t'') (PInt 50) = Inr [PStr ''c'']" by code_simp
  ultimately show ?thesis by (simp del: pump_lines.simps flux_answer.simps)
qed

section \<open>Artifacts\<close>

definition upload_succeeds :: "settings \<Rightarrow> run_env \<Rightarrow> string \<Rightarrow> string \<Rightarrow> string \<Rightarrow> bool" where
  "upload_succeeds s env tid dir fname \<longleftrightarrow> fs_isfile (rn_fs env) (path_join dir fname) \<and>
     fs_open (rn_fs env) (path_join dir fname) = None \<and>
     (\<exists>code. rn_put env (artifact_url s tid fname) = Status code \<and> \<not> (400 \<le> code \<and> code < 600))"

lemma upload_artifact_result:
  assumes "\<not> blank tid" "\<not> blank (path_join dir f)" "CHR ''/'' \<notin> set f"
  shows "if upload_succeeds s env tid dir f
    then \<exists>tr. upload_artifact s (rn_fs env) (rn_put env) (PStr tid) (PStr (path_join dir f)) w =
      (Inr (artifact_url s tid f), w\<lparr>w_trace := tr\<rparr>)
    else \<exists>e tr. upload_artifact s (rn_fs env) (rn_put env) (PStr tid) (PStr (path_join dir f)) w =
      (Inl e, w\<lparr>w_trace := tr\<rparr>)"
proof -
  have same: "\<exists>tr. w = w\<lparr>w_trace := tr\<rparr>" by (rule exI [of _ "w_trace w"]) simp
  show ?thesis
    using assms same
    by (auto simp: upload_artifact_def upload_succeeds_def basename_join Let_def act_return_def act_raise_def
        raise_for_status_def split: option.splits http_outcome.splits)
qed

text \<open>
  The artifact URLs of a run are, in the order of the directory listing, those of the files
  with an artifact suffix whose upload succeeded; a failing upload never stops the others, and
  the upload phase never raises.
\<close>

theorem uploads_exact:
  assumes "\<not> blank tid" "\<forall>f \<in> set fnames. CHR ''/'' \<notin> set f \<and> \<not> blank (path_join dir f)"
  shows "fst (upload_each s env tid dir fnames w) =
    Inr (map (artifact_url s tid) (filter (\<lambda>f. is_artifact f \<and> upload_succeeds s env tid dir f) fnames))"
  using assms(2)
proof (induction fnames arbitrary: w)
  case Nil
  then show ?case by (simp add: act_return_def)
next
  case (Cons f fs)
  let ?up = "upload_artifact s (rn_fs env) (rn_put env) (PStr tid) (PStr (path_join dir f))"
  let ?first = "if is_artifact f then act_catch (act_bind ?up (\<lambda>url. act_return [url])) (\<lambda>_. act_return [])
     else act_return []"
  have "\<exists>tr. ?first w = (Inr (if is_artifact f \<and> upload_succeeds s env tid dir f
      then [artifact_url s tid f] else []), w\<lparr>w_trace := tr\<rparr>)"
  proof (cases "is_artifact f")
    case True
    with upload_artifact_result [OF assms(1), of dir f s env w] Cons.prems show ?thesis
      by (auto simp: act_catch_def act_bind_def act_return_def split: if_splits)
  next
    case False
    have "\<exists>tr. w = w\<lparr>w_trace := tr\<rparr>" by (rule exI [of _ "w_trace w"]) simp
    with False show ?thesis by (simp add: act_return_def)
  qed
  then obtain tr where tr: "?first w = (Inr (if is_artifact f \<and> upload_succeeds s env tid dir f
      then [artifact_url s tid f] else []), w\<lparr>w_trace := tr\<rparr>)" by blast
  obtain w' where rest: "upload_each s env tid dir fs (w\<lparr>w_trace := tr\<rparr>) =
      (Inr (map (artifact_url s tid) (filter (\<lambda>f. is_artifact f \<and> upload_succeeds s env tid dir f) fs)), w')"
    using Cons.IH [of "w\<lparr>w_trace := tr\<rparr>"] Cons.prems by (metis list.set_intros(2) prod.collapse)
  have "upload_each s env tid dir (f # fs) w =
      act_bind (upload_each s env tid dir fs) (\<lambda>more. act_return ((if is_artifact f \<and> upload_succeeds s env tid dir f
        then [artifact_url s tid f] else []) @ more)) (w\<lparr>w_trace := tr\<rparr>)"
    unfolding upload_each.simps by (rule act_bind_step [where m = ?first, OF tr])
  then show ?case by (simp add: act_bind_def rest act_return_def)
qed

definition put_env :: run_env where
  "put_env = quiet_run\<lparr>rn_put := (\<lambda>url. if url = artifact_url default_settings ''t'' ''a.log'' then Status 500 else Status 201)\<rparr>"

theorem uploads_exact_witness:
  "fst (upload_each default_settings put_env ''t'' ''/out'' [''a.log'', ''b.txt'', ''c.tar.gz''] empty_world) =
     Inr [artifact_url default_settings ''t'' ''c.tar.gz'']"
proof -
  have b: "\<not> blank ''t''" "\<forall>f \<in> set [''a.log'', ''b.txt'', ''c.tar.gz'']. CHR ''/'' \<notin> set f \<and> \<not> blank (path_join ''/out'' f)"
    by code_simp+
  have a: "is_artifact ''a.log''" "\<not> is_artifact ''b.txt''" "is_artifact ''c.tar.gz''" by code_simp+
  have u: "\<not> upload_succeeds default_settings put_env ''t'' ''/out'' ''a.log''"
    "upload_succeeds default_settings put_env ''t'' ''/out'' ''c.tar.gz''"
    by (simp_all add: upload_succeeds_def put_env_def quiet_run_def good_fs_def artifact_url_inj)
  show ?thesis using uploads_exact [OF b, of default_settings put_env empty_world] by (simp add: a u)
qed

end
