(* ===== verification/RunOutcome.thy ===== *)
theory RunOutcome
  imports RunOutput
begin

text \<open>
  The whole of a run whose external calls work: every call it makes, in order, what it stores,
  and the status it ends with.
\<close>

section \<open>The parts\<close>

text \<open>What the index rows of the lines make of the database.\<close>

fun index_lines :: "int \<Rightarrow> string \<Rightarrow> nat \<Rightarrow> string list \<Rightarrow> db \<Rightarrow> db" where
  "index_lines now tid n [] d = d"
| "index_lines now tid n (l # ls) d =
     index_lines now tid (Suc n) ls (if n mod log_checkpoint_every = 0 then add_log_line now tid n l d else d)"

lemma index_lines_simps [simp]:
  "hosts (index_lines now tid n ls d) = hosts d" "executions (index_lines now tid n ls d) = executions d"
  "users (index_lines now tid n ls d) = users d" "sessions (index_lines now tid n ls d) = sessions d"
  "log_index (index_lines now tid n ls d) = log_index d @ indexed tid n ls"
  by (induction now tid n ls d rule: index_lines.induct) simp_all

definition lines_flow :: "run_env \<Rightarrow> bool" where
  "lines_flow env \<longleftrightarrow> (\<forall>n. rn_influx_write env n = None \<and> rn_publish env n = None \<and> rn_checkpoint env n = None) \<and>
     dk_output_fails (rn_docker env) = None"

lemma pump_lines_flow:
  assumes "\<not> blank tid" "lines_flow env"
  shows "pump_lines s env tid n ls w = (Inr (), w\<lparr>w_db := index_lines (rn_now env) tid n ls (w_db w),
    w_trace := w_trace w @ pumped s tid n ls\<rparr>)"
proof (induction ls arbitrary: n w)
  case Nil
  with assms show ?case by (simp add: lines_flow_def service_def act_return_def)
next
  case (Cons l ls)
  with assms(2) show ?case
    by (simp add: pump_lines_Cons [OF assms(1)] lines_flow_def del: pump_lines.simps(2))
qed

text \<open>The answered uploads reach the server, whatever the answer is; the accepted ones give a URL.\<close>

definition upload_answered :: "settings \<Rightarrow> run_env \<Rightarrow> string \<Rightarrow> string \<Rightarrow> string \<Rightarrow> bool" where
  "upload_answered s env tid dir fname \<longleftrightarrow> is_artifact fname \<and> fs_isfile (rn_fs env) (path_join dir fname) \<and>
     fs_open (rn_fs env) (path_join dir fname) = None \<and> (\<exists>code. rn_put env (artifact_url s tid fname) = Status code)"

definition accepted_uploads :: "settings \<Rightarrow> run_env \<Rightarrow> string \<Rightarrow> string \<Rightarrow> string list \<Rightarrow> string list" where
  "accepted_uploads s env tid dir fnames =
     map (artifact_url s tid) (filter (\<lambda>f. is_artifact f \<and> upload_succeeds s env tid dir f) fnames)"

definition upload_effects :: "settings \<Rightarrow> run_env \<Rightarrow> string \<Rightarrow> string \<Rightarrow> string list \<Rightarrow> effect list" where
  "upload_effects s env tid dir fnames =
     map (HttpPut \<circ> artifact_url s tid) (filter (upload_answered s env tid dir) fnames)"

definition listing_ok :: "string \<Rightarrow> string list \<Rightarrow> bool" where
  "listing_ok dir fnames \<longleftrightarrow> (\<forall>f \<in> set fnames. CHR ''/'' \<notin> set f \<and> \<not> blank (path_join dir f))"

lemma upload_each_effects:
  assumes "\<not> blank tid" "listing_ok dir fnames"
  shows "upload_each s env tid dir fnames w = (Inr (accepted_uploads s env tid dir fnames),
    w\<lparr>w_trace := w_trace w @ upload_effects s env tid dir fnames\<rparr>)"
  using assms(2)
proof (induction fnames arbitrary: w)
  case Nil
  then show ?case by (simp add: accepted_uploads_def upload_effects_def act_return_def)
next
  case (Cons f fs)
  then have f: "CHR ''/'' \<notin> set f" "\<not> blank (path_join dir f)" and fs: "listing_ok dir fs"
    by (simp_all add: listing_ok_def)
  let ?up = "upload_artifact s (rn_fs env) (rn_put env) (PStr tid) (PStr (path_join dir f))"
  let ?keep = "\<lambda>w. w\<lparr>w_trace := w_trace w @ (if upload_answered s env tid dir f
        then [HttpPut (artifact_url s tid f)] else [])\<rparr>"
  let ?act = "if is_artifact f then act_catch (act_bind ?up (\<lambda>url. act_return [url])) (\<lambda>_. act_return [])
        else act_return []"
  have one: "?act w =
      (Inr (if is_artifact f \<and> upload_succeeds s env tid dir f then [artifact_url s tid f] else []), ?keep w)"
    using f assms(1)
    by (auto simp: upload_artifact_def upload_answered_def upload_succeeds_def basename_join act_catch_def
        act_bind_def act_lift_def act_return_def act_raise_def emit_def raise_for_status_def Let_def
        split: option.splits http_outcome.splits)
  have eq: "upload_each s env tid dir (f # fs) w =
      (Inr ((if is_artifact f \<and> upload_succeeds s env tid dir f then [artifact_url s tid f] else []) @
         accepted_uploads s env tid dir fs),
       (?keep w)\<lparr>w_trace := w_trace (?keep w) @ upload_effects s env tid dir fs\<rparr>)"
    unfolding upload_each.simps(2) act_bind_step [where m = ?act and w = w, OF one]
    by (simp add: act_bind_step [where m = "upload_each s env tid dir fs", OF Cons.IH [OF fs]] act_return_def)
  then show ?case by (simp add: accepted_uploads_def upload_effects_def)
qed

section \<open>The whole\<close>

text \<open>The calls of a run up to the removal of the container, given those of the runner.\<close>

definition run_calls :: "settings \<Rightarrow> run_env \<Rightarrow> test_bundle \<Rightarrow> effect list \<Rightarrow> string list \<Rightarrow> effect list" where
  "run_calls s env req cfg fnames =
     (let tid = tb_test_id req; name = container_prefix @ tid; out = output_dir_of s tid in
      cfg @ [MakeDirs out,
        DockerRun (tb_framework_image req) name (docker_network_mode s)
          [(path_join (test_runs_dir s) tid, ''/config'', ''ro''), (out, ''/artifacts'', ''rw'')]
          [(''managed-by'', PStr ''test_orch''), (''test-id'', PStr tid)]]
      @ pumped s tid 0 (stream_logs (dk_output (rn_docker env)))
      @ upload_effects s env tid out fnames)"

definition run_works :: "settings \<Rightarrow> run_env \<Rightarrow> test_bundle \<Rightarrow> effect list \<Rightarrow> string list \<Rightarrow> bool" where
  "run_works s env req cfg fnames \<longleftrightarrow>
     (let tid = tb_test_id req; name = container_prefix @ tid; fs = rn_fs env; dk = rn_docker env;
          dir = path_join (test_runs_dir s) tid; out = output_dir_of s tid in
      (\<exists>runner. get_runner (PStr (tb_runner_type req)) (PStr tid) (PDict (tb_runner_variables req)) = Inr runner \<and>
         (\<forall>w. write_config s fs (rn_frepr env) runner w = (Inr dir, w\<lparr>w_trace := w_trace w @ cfg\<rparr>))) \<and>
      \<not> blank dir \<and> fs_makedirs fs out = None \<and> fs_isdir fs dir \<and> fs_isdir fs out \<and>
      dk_run dk name = None \<and> dk_get dk name = None \<and> dk_remove dk name = None \<and>
      lines_flow env \<and> fs_listdir fs out = Inr fnames \<and> listing_ok out fnames \<and>
      rn_decrement env = None \<and> rn_influx_close env = None)"

lemma path_join_longer: "b \<noteq> [] \<Longrightarrow> \<not> startswith b ''/'' \<Longrightarrow> length a < length (path_join a b)"
  by (auto simp: path_join_def)

lemma output_dir_of_new: "output_dir_of s tid \<noteq> path_join (test_runs_dir s) tid" "output_dir_of s tid \<noteq> []"
  using path_join_longer [of "''artifacts''" "path_join (test_runs_dir s) tid"]
  by (auto simp: output_dir_of_def startswith_def)

lemma run_container_works:
  assumes "run_works s env req cfg fnames" "dk_wait (rn_docker env) = Inr result" "\<not> blank (tb_test_id req)"
    and "\<not> blank (tb_framework_image req)"
  shows "run_container s env req w =
    (Inr (result, accepted_uploads s env (tb_test_id req) (output_dir_of s (tb_test_id req)) fnames),
     w\<lparr>w_db := index_lines (rn_now env) (tb_test_id req) 0 (stream_logs (dk_output (rn_docker env))) (w_db w),
       w_trace := w_trace w @ run_calls s env req cfg fnames\<rparr>)"
proof -
  let ?tid = "tb_test_id req" and ?out = "output_dir_of s (tb_test_id req)"
  let ?dir = "path_join (test_runs_dir s) ?tid"
  from assms(1) obtain runner where r:
    "get_runner (PStr (tb_runner_type req)) (PStr ?tid) (PDict (tb_runner_variables req)) = Inr runner"
    "\<And>w. write_config s (rn_fs env) (rn_frepr env) runner w = (Inr ?dir, w\<lparr>w_trace := w_trace w @ cfg\<rparr>)"
    by (auto simp: run_works_def Let_def)
  have m: "make_dirs (rn_fs env) ?out w = (Inr (), w\<lparr>w_trace := w_trace w @ [MakeDirs ?out]\<rparr>)" for w
    using assms(1) by (simp add: make_dirs_def run_works_def Let_def)
  have l: "lines_flow env" "fs_listdir (rn_fs env) ?out = Inr fnames" "listing_ok ?out fnames"
    using assms(1) by (simp_all add: run_works_def Let_def)
  have c: "start_test_container s (rn_fs env) (rn_docker env) (PStr (tb_framework_image req)) (PStr ?dir) (PStr ?tid) (Some ?out) w =
     (Inr (container_prefix @ ?tid), w\<lparr>w_trace := w_trace w @
      [DockerRun (tb_framework_image req) (container_prefix @ ?tid) (docker_network_mode s)
         [(?dir, ''/config'', ''ro''), (?out, ''/artifacts'', ''rw'')]
         [(''managed-by'', PStr ''test_orch''), (''test-id'', PStr ?tid)]]\<rparr>)" for w
    using assms(1,3,4) output_dir_of_new [of s ?tid]
    by (intro start_test_container_ok) (auto simp: run_works_def Let_def)
  show ?thesis
    unfolding run_container_def Let_def
    by (simp add: r(1) l(2) assms(2) act_bind_step [where m = "write_config s (rn_fs env) (rn_frepr env) runner", OF r(2)]
        act_bind_step [where m = "make_dirs (rn_fs env) ?out", OF m]
        act_bind_step [where m = "start_test_container s (rn_fs env) (rn_docker env) (PStr (tb_framework_image req)) (PStr ?dir) (PStr ?tid) (Some ?out)", OF c]
        act_bind_step [where m = "pump_lines s env ?tid 0 (stream_logs (dk_output (rn_docker env)))", OF pump_lines_flow [OF assms(3) l(1)]]
        act_bind_step [where m = "upload_each s env ?tid ?out fnames", OF upload_each_effects [OF assms(3) l(3)]]
        act_return_def run_calls_def Let_def)
qed

lemma log_index_set [simp]: "log_index (set_hosts f d) = log_index d" "log_index (set_executions g d) = log_index d"
  by (simp_all add: log_index_def set_hosts_def set_executions_def)

lemma execution_updates:
  assumes "unique_by te_test_id es" "find_by te_test_id tid es = Inr (Some r)"
    and "\<And>r. te_test_id (f r) = te_test_id r"
  shows "find_by te_test_id tid (update_by te_test_id tid f es) = Inr (Some (f r))"
proof -
  have r: "r \<in> set es" "te_test_id r = tid" using assms(2) by (simp_all add: find_by_Some [OF assms(1)])
  have "unique_by te_test_id (update_by te_test_id tid f es)" using assms(1,3) by (rule unique_update_by)
  moreover have "f r \<in> set (update_by te_test_id tid f es)" using r by (force simp: update_by_def)
  ultimately show ?thesis using r assms(3) by (simp add: find_by_Some)
qed

lemma run_guarded_returns:
  assumes "run_container s env req (w\<lparr>w_db := rn_others env (w_db w)\<rparr>) = (Inr x, w1)"
    and "record_result env (tb_test_id req) x w1 = (Inr v, w2)"
  shows "run_guarded s env req w = (Inr v, w2)"
proof -
  have "run_body s env req (w\<lparr>w_db := rn_others env (w_db w)\<rparr>) = (Inr v, w2)"
    using assms by (simp add: run_body_def act_bind_step)
  then show ?thesis unfolding run_guarded_def act_catch_bind_put by (simp add: act_catch_def)
qed

lemma run_cleanup_returns:
  assumes "\<not> blank (tb_test_id req)" "unique_by wh_host_id (hosts (w_db w))"
    and "rn_decrement env = None" "rn_influx_close env = None"
    and "dk_get (rn_docker env) (container_prefix @ tb_test_id req) = None"
    and "dk_remove (rn_docker env) (container_prefix @ tb_test_id req) = None"
  shows "run_cleanup s env req w = (Inr (), w\<lparr>w_db := set_hosts (update_by wh_host_id (worker_host_id s) release_one) (w_db w),
    w_trace := w_trace w @ [DockerRemove (container_prefix @ tb_test_id req), InfluxClose]\<rparr>)"
proof -
  let ?w = "w\<lparr>w_trace := w_trace w @ [DockerRemove (container_prefix @ tb_test_id req)]\<rparr>"
  have h: "unique_by wh_host_id (hosts (w_db ?w))" using assms(2) by simp
  show ?thesis
    unfolding run_cleanup_def assms(3,4) act_bind_step [OF cleanup_removes [OF assms(1,5,6)]]
      act_bind_step [where m = "decrement_active_containers None (worker_host_id s)", OF decrement_ok [OF h]]
    by simp
qed

text \<open>What the run makes of the row of its test.\<close>

definition finished_row :: "settings \<Rightarrow> run_env \<Rightarrow> test_status \<Rightarrow> string list \<Rightarrow> test_execution \<Rightarrow> test_execution" where
  "finished_row s env st urls r =
     touch (Aware (rn_now env)) (status_fields st None (case urls of [] \<Rightarrow> None | u # _ \<Rightarrow> Some u))
       (touch (Aware (rn_now env)) (status_fields RUNNING (Some (worker_host_id s)) None) r)"

lemma touch_user_id: "(\<And>r. te_user_id (f r) = te_user_id r) \<Longrightarrow> te_user_id (touch now f r) = te_user_id r"
  by (simp add: touch_def)

lemma finished_row_fields [simp]:
  "te_test_id (finished_row s env st urls r) = te_test_id r" "te_user_id (finished_row s env st urls r) = te_user_id r"
  "te_status (finished_row s env st urls r) = status_value st"
  "te_target_host_id (finished_row s env st urls r) = Some (worker_host_id s)"
  "te_artifact_url (finished_row s env st urls r) = (case urls of [] \<Rightarrow> te_artifact_url r | u # _ \<Rightarrow> Some u)"
  by (simp_all add: finished_row_def status_fields_def touch_user_id split: list.splits)

lemma run_outcome_rule:
  assumes "from_dict bundle = Inr req" "run_opens env" "\<And>st. rn_commit env st = None" "rn_others env = id"
    and "unique_by te_test_id (executions (w_db w))" "unique_by wh_host_id (hosts (w_db w))"
    and "find_by te_test_id (tb_test_id req) (executions (w_db w)) = Inr (Some row)"
    and "run_works s env req cfg fnames" "dk_wait (rn_docker env) = Inr result"
  shows "\<exists>w'. run_test_bundle s env bundle w = (Inr (status_value (final_status (exit_code result))), w') \<and>
    w_trace w' = w_trace w @ run_calls s env req cfg fnames @
      [DockerRemove (container_prefix @ tb_test_id req), InfluxClose] \<and>
    hosts (w_db w') = update_by wh_host_id (worker_host_id s) release_one (hosts (w_db w)) \<and>
    log_index (w_db w') = log_index (w_db w) @ indexed (tb_test_id req) 0 (stream_logs (dk_output (rn_docker env))) \<and>
    find_by te_test_id (tb_test_id req) (executions (w_db w')) =
      Inr (Some (finished_row s env (final_status (exit_code result))
        (accepted_uploads s env (tb_test_id req) (output_dir_of s (tb_test_id req)) fnames) row))"
proof -
  let ?tid = "tb_test_id req" and ?now = "Aware (rn_now env)" and ?st = "final_status (exit_code result)"
  let ?urls = "accepted_uploads s env ?tid (output_dir_of s ?tid) fnames"
  let ?lines = "stream_logs (dk_output (rn_docker env))"
  let ?f = "touch ?now (status_fields RUNNING (Some (worker_host_id s)) None)"
  let ?g = "touch ?now (status_fields ?st None (case ?urls of [] \<Rightarrow> None | u # _ \<Rightarrow> Some u))"
  have b: "\<not> blank ?tid" "\<not> blank (tb_framework_image req)"
    using from_dict_valid [OF assms(1)] by (simp_all add: valid_bundle_def)
  have keys: "te_test_id (?f r) = te_test_id r" "te_test_id (?g r) = te_test_id r" for r
    by (simp_all add: status_fields_def)
  let ?w1 = "w\<lparr>w_db := set_executions (update_by te_test_id ?tid ?f) (w_db w)\<rparr>"
  let ?w2 = "?w1\<lparr>w_db := index_lines (rn_now env) ?tid 0 ?lines (w_db ?w1), w_trace := w_trace w @ run_calls s env req cfg fnames\<rparr>"
  let ?w3 = "?w2\<lparr>w_db := set_executions (update_by te_test_id ?tid ?g) (w_db ?w2)\<rparr>"
  let ?w5 = "?w3\<lparr>w_db := set_hosts (update_by wh_host_id (worker_host_id s) release_one) (w_db ?w3),
      w_trace := w_trace ?w3 @ [DockerRemove (container_prefix @ ?tid), InfluxClose]\<rparr>"
  have u1: "unique_by te_test_id (update_by te_test_id ?tid ?f (executions (w_db w)))"
    using assms(5) keys(1) by (rule unique_update_by)
  then have u2: "unique_by te_test_id (executions (w_db ?w2))" by simp
  have "run_container s env req ?w1 = (Inr (result, ?urls), ?w2)"
    by (simp add: run_container_works [OF assms(8,9) b])
  moreover have "record_result env ?tid (result, ?urls) ?w2 = (Inr (status_value ?st), ?w3)"
  proof -
    have "set_status None (rn_now env) ?tid ?st None (case ?urls of [] \<Rightarrow> None | u # _ \<Rightarrow> Some u) ?w2 = (Inr (), ?w3)"
      by (rule set_status_ok [OF b(1) u2])
    then show ?thesis
      by (simp only: record_result_def Let_def prod.case assms(3) act_bind_step act_return_def)
  qed
  moreover have "?w1\<lparr>w_db := rn_others env (w_db ?w1)\<rparr> = ?w1" using assms(4) by simp
  ultimately have body: "run_guarded s env req ?w1 = (Inr (status_value ?st), ?w3)"
    by (intro run_guarded_returns) simp_all
  have works: "rn_decrement env = None" "rn_influx_close env = None"
    "dk_get (rn_docker env) (container_prefix @ ?tid) = None" "dk_remove (rn_docker env) (container_prefix @ ?tid) = None"
    using assms(8) by (simp_all add: run_works_def Let_def)
  have "unique_by wh_host_id (hosts (w_db ?w3))" using assms(6) by simp
  from run_cleanup_returns [OF b(1) this works]
  have "run_cleanup s env req ?w3 = (Inr (), ?w5)" .
  then have "run_test_bundle s env bundle w = (Inr (status_value ?st), ?w5)"
    by (simp only: run_test_bundle_opens [OF assms(1,2,5)] act_finally_def body prod.case sum.case)
  moreover have "find_by te_test_id ?tid (executions (w_db ?w5)) = Inr (Some (?g (?f row)))"
    using execution_updates [OF u1 execution_updates [OF assms(5,7) keys(1)] keys(2)] by simp
  ultimately show ?thesis by (simp add: finished_row_def)
qed

text \<open>
  C10: A run whose external calls work makes exactly these calls, in this order: the configuration
  file, the artifact directory, the container with its two mounts, every printed line once to
  InfluxDB and once to the live exchange, the uploads, the removal of the container and the
  closing of the client. It returns PASSED if the container exited with code zero and FAILED
  otherwise, stores that status with the host and the first accepted artifact, indexes every
  twenty-fifth line, and gives its slot back.
\<close>

theorem run_outcome:
  assumes "from_dict bundle = Inr req" "run_opens env" "\<And>st. rn_commit env st = None" "rn_others env = id"
    and "unique_by te_test_id (executions (w_db w))" "unique_by wh_host_id (hosts (w_db w))"
    and "find_by te_test_id (tb_test_id req) (executions (w_db w)) = Inr (Some row)"
    and "run_works s env req cfg fnames" "dk_wait (rn_docker env) = Inr result"
    and "status = (if key_eq (dict_get result ''StatusCode'' (PInt 1)) (PInt 0) then ''PASSED'' else ''FAILED'')"
  shows "\<exists>w' run. run_test_bundle s env bundle w = (Inr status, w') \<and>
    w_trace w' = w_trace w @ run_calls s env req cfg fnames @
      [DockerRemove (container_prefix @ tb_test_id req), InfluxClose] \<and>
    hosts (w_db w') = update_by wh_host_id (worker_host_id s) release_one (hosts (w_db w)) \<and>
    log_index (w_db w') = log_index (w_db w) @ indexed (tb_test_id req) 0 (stream_logs (dk_output (rn_docker env))) \<and>
    find_by te_test_id (tb_test_id req) (executions (w_db w')) = Inr (Some run) \<and>
    te_status run = status \<and> te_target_host_id run = Some (worker_host_id s) \<and> te_user_id run = te_user_id row \<and>
    te_artifact_url run = (case accepted_uploads s env (tb_test_id req) (output_dir_of s (tb_test_id req)) fnames of
      [] \<Rightarrow> te_artifact_url row | url # _ \<Rightarrow> Some url)"
proof -
  have "status = status_value (final_status (exit_code result))"
    using assms(10) by (simp add: final_status_def exit_code_def)
  with run_outcome_rule [OF assms(1-9)] show ?thesis by fastforce
qed

definition listing_run :: run_env where
  "listing_run = quiet_run\<lparr>rn_fs := good_fs\<lparr>fs_listdir := (\<lambda>_. Inr [''notes.txt'', ''out.log''])\<rparr>\<rparr>"

definition listing_config :: "effect list" where
  "listing_config = config_effects (path_join (test_runs_dir worker_settings) ''t-1'') ''pytest_config.json''
     (json_dump_indented (\<lambda>_. []) (pytest_cfg [(PStr ''target_dut'', PStr ''dut'')] 600))"

lemma listing_run_works: "run_works worker_settings listing_run example_bundle listing_config [''notes.txt'', ''out.log'']"
proof -
  let ?vars = "[(PStr ''target_dut'', PStr ''dut'')]"
  have b: "\<not> blank ''t-1''" by code_simp
  have t: "parse_timeout (\<lambda>_. []) ?vars = Inr 600" by code_simp
  have d: "disk_ok (rn_fs listing_run)" by (simp add: disk_ok_def listing_run_def quiet_run_def good_fs_def)
  have p: "path_join (test_runs_dir worker_settings) ''t-1'' = ''/tmp/test_runs/t-1''" by code_simp
  have l: "listing_ok (output_dir_of worker_settings ''t-1'') [''notes.txt'', ''out.log'']" by code_simp
  have "get_runner (PStr ''pytest'') (PStr ''t-1'') (PDict ?vars) = Inr (PytestRunner ''t-1'' ?vars)"
    by (rule get_runner_known(1) [OF b])
  moreover have "rn_frepr listing_run = (\<lambda>_. [])" by (simp add: listing_run_def quiet_run_def)
  moreover have "\<not> blank ''/tmp/test_runs/t-1''" by code_simp
  ultimately show ?thesis
    using write_config_pytest [OF d t] l
    by (simp add: run_works_def Let_def listing_config_def p example_bundle_def lines_flow_def)
       (simp add: listing_run_def quiet_run_def good_fs_def example_docker_def)
qed

theorem run_outcome_witness:
  "\<exists>w' r. run_test_bundle worker_settings listing_run (PDict (to_dict example_bundle)) started_world = (Inr ''PASSED'', w') \<and>
     find_by te_test_id ''t-1'' (executions (w_db w')) = Inr (Some r) \<and> te_status r = ''PASSED'' \<and>
     te_artifact_url r = Some (artifact_url worker_settings ''t-1'' ''out.log'') \<and> log_index (w_db w') = [(''t-1'', 0, ''one'')]"
proof -
  have o: "run_opens listing_run" "\<And>st. rn_commit listing_run st = None" "rn_others listing_run = id"
    "dk_wait (rn_docker listing_run) = Inr [(PStr ''StatusCode'', PInt 0)]"
    by (simp_all add: run_opens_def listing_run_def quiet_run_def example_docker_def)
  have ls: "stream_logs (dk_output (rn_docker listing_run)) = [''one'', ''two'']" by code_simp
  have u: "unique_by te_test_id (executions (w_db started_world))" "unique_by wh_host_id (hosts (w_db started_world))"
    by code_simp+
  obtain row where row: "find_by te_test_id (tb_test_id example_bundle) (executions (w_db started_world)) = Inr (Some row)"
    by (simp add: started_world_def example_bundle_def find_by_def one_or_none_def new_test_execution_def)
  have e: "key_eq (dict_get [(PStr ''StatusCode'', PInt 0)] ''StatusCode'' (PInt 1)) (PInt 0)" by code_simp
  have a: "accepted_uploads worker_settings listing_run ''t-1'' (output_dir_of worker_settings ''t-1'') [''notes.txt'', ''out.log''] =
      [artifact_url worker_settings ''t-1'' ''out.log'']"
  proof -
    have "is_artifact ''out.log''" "\<not> is_artifact ''notes.txt''" by code_simp+
    then show ?thesis
      by (simp add: accepted_uploads_def upload_succeeds_def listing_run_def quiet_run_def good_fs_def)
  qed
  have x: "log_index (w_db started_world) = []" by code_simp
  have t: "tb_test_id example_bundle = ''t-1''" by (simp add: example_bundle_def)
  from run_outcome [OF example_decodes o(1-3) u row listing_run_works o(4) refl]
  show ?thesis by (auto simp: e a t ls x log_checkpoint_every_def)
qed

end
