(* ===== verification/Submission.thy ===== *)
theory Submission
  imports RunOutcome Routes
begin

text \<open>
  The journey of one test: the form, the dispatch, the run of the task on the chosen host, and the
  log page at the end.
\<close>

lemma release_after_reserve:
  assumes "wf_hosts hs"
  shows "update_by wh_host_id h release_one (update_by wh_host_id h
    (\<lambda>h. h\<lparr>wh_active_containers := wh_active_containers h + 1\<rparr>) hs) = hs"
proof -
  have "release_one (r\<lparr>wh_active_containers := wh_active_containers r + 1\<rparr>) = r" if "r \<in> set hs" for r
    using wf_hosts_in [OF assms that] by (simp add: release_one_def wf_host_def)
  then show ?thesis by (simp add: update_by_update_by) (rule update_by_id_on)
qed

lemma submission_runs:
  assumes "valid_submission env rt img u (w_db w)" "wf_hosts (hosts (w_db w))" "unique_by te_test_id (executions (w_db w))"
    and "sb_commit_pending env = None" "sb_commit_final env = None" "sb_others env = id"
    and "de_commit_reserve (sb_dispatch env) = None" "\<And>q. de_send (sb_dispatch env) q = None"
    and "b = submitted_bundle (sb_uuid env) u rt img dut tags emu" "pick_host b (hosts (w_db w)) = Some h"
    and "worker_host_id s = wh_host_id h" "run_opens renv" "\<And>st. rn_commit renv st = None" "rn_others renv = id"
    and "run_works s renv b cfg fnames" "dk_wait (rn_docker renv) = Inr result"
    and "status = (if key_eq (dict_get result ''StatusCode'' (PInt 1)) (PInt 0) then ''PASSED'' else ''FAILED'')"
  shows "\<exists>w1 payload w2 run. submit_test env rt img dut tags emu (Some u) w = (Inr (Redirect ''/''), w1) \<and>
    w_trace w1 = w_trace w @ [SendTask ''worker.run_test_bundle'' payload (queue_of (worker_host_id s))] \<and>
    run_test_bundle s renv payload w1 = (Inr status, w2) \<and>
    hosts (w_db w2) = hosts (w_db w) \<and>
    test_logs_page (w_db w2) (sb_uuid env) (Some u) = Inr (LogsPage u run) \<and>
    te_status run = status \<and> te_target_host_id run = Some (wh_host_id h) \<and>
    w_trace w2 = w_trace w1 @ run_calls s renv b cfg fnames @ [DockerRemove (container_prefix @ sb_uuid env), InfluxClose] \<and>
    te_artifact_url run = (case accepted_uploads s renv (sb_uuid env) (output_dir_of s (sb_uuid env)) fnames of
      [] \<Rightarrow> None | url # _ \<Rightarrow> Some url)"
proof -
  let ?hs = "hosts (w_db w)" and ?incr = "\<lambda>h. h\<lparr>wh_active_containers := wh_active_containers h + 1\<rparr>"
  let ?row = "submitted_row env rt img u (Some (wh_host_id h)) (w_db w)"
  let ?payload = "PDict (to_dict b)"
  let ?w1 = "w\<lparr>w_db := set_hosts (update_by wh_host_id (wh_host_id h) ?incr) (submitted_db env rt img u (Some (wh_host_id h)) (w_db w)),
      w_trace := w_trace w @ [SendTask ''worker.run_test_bundle'' ?payload (queue_of (wh_host_id h))]\<rparr>"
  have submit: "submit_test env rt img dut tags emu (Some u) w = (Inr (Redirect ''/''), ?w1)"
    using submit_test_effect_rule [OF assms(1,2,4-8), of dut tags emu] assms(9,10) by (simp add: Let_def)
  have v: "valid_bundle b" using submit_bundle [OF assms(1)] assms(9) by (simp add: TestBundleRequest_Inr)
  have tid: "tb_test_id b = sb_uuid env" using assms(9) by (simp add: submitted_bundle_def)
  have new: "sb_uuid env \<notin> te_test_id ` set (executions (w_db w))" and row: "te_test_id ?row = sb_uuid env"
    "te_user_id ?row = u_id u" "te_artifact_url ?row = None"
    using assms(1) by (simp_all add: valid_submission_def submitted_row_def)
  have es: "executions (w_db ?w1) = executions (w_db w) @ [?row]" by (simp add: submitted_db_def)
  have ue: "unique_by te_test_id (executions (w_db ?w1))"
    unfolding es using assms(3) new row(1) by (auto simp: unique_by_def)
  have hs: "hosts (w_db ?w1) = update_by wh_host_id (wh_host_id h) ?incr ?hs" by (simp add: submitted_db_def)
  have uh: "unique_by wh_host_id (hosts (w_db ?w1))"
    using assms(2) unfolding hs by (auto intro: unique_update_by simp: wf_hosts_def)
  have f: "find_by te_test_id (tb_test_id b) (executions (w_db ?w1)) = Inr (Some ?row)"
    unfolding es tid using new row(1) by (rule find_by_new)
  from run_outcome_rule [OF from_dict_to_dict [OF v] assms(12-14) ue uh f assms(15,16)] obtain w2 where
    w2: "run_test_bundle s renv ?payload ?w1 = (Inr (status_value (final_status (exit_code result))), w2)"
    "w_trace w2 = w_trace ?w1 @ run_calls s renv b cfg fnames @ [DockerRemove (container_prefix @ sb_uuid env), InfluxClose]"
    "hosts (w_db w2) = update_by wh_host_id (worker_host_id s) release_one (hosts (w_db ?w1))"
    "find_by te_test_id (sb_uuid env) (executions (w_db w2)) = Inr (Some (finished_row s renv
       (final_status (exit_code result)) (accepted_uploads s renv (sb_uuid env) (output_dir_of s (sb_uuid env)) fnames) ?row))"
    unfolding tid by blast
  let ?run = "finished_row s renv (final_status (exit_code result))
      (accepted_uploads s renv (sb_uuid env) (output_dir_of s (sb_uuid env)) fnames) ?row"
  have end_hosts: "hosts (w_db w2) = ?hs"
    unfolding w2(3) hs assms(11) by (rule release_after_reserve [OF assms(2)])
  have page: "test_logs_page (w_db w2) (sb_uuid env) (Some u) = Inr (LogsPage u ?run)"
    using w2(4) row(2) by (simp add: test_logs_page_def)
  have status: "status = status_value (final_status (exit_code result))"
    using assms(17) by (simp add: final_status_def exit_code_def)
  show ?thesis
    unfolding status
  proof (rule exI [of _ ?w1], rule exI [of _ ?payload], rule exI [of _ w2], rule exI [of _ ?run], intro conjI)
  qed (use submit w2(1,2) end_hosts page row(3) assms(11) in \<open>simp_all split: list.splits\<close>)
qed

text \<open>A worker on the host the scheduler prefers, and a submission of the form.\<close>

definition host2_settings :: settings where
  "host2_settings = default_settings\<lparr>worker_host_id := ''host2''\<rparr>"

definition u1_config :: "effect list" where
  "u1_config = config_effects (path_join (test_runs_dir host2_settings) ''u1'') ''robot.args''
     (join [newline] [''--variable DUT:dut1''])"

abbreviation u1_bundle :: test_bundle where
  "u1_bundle \<equiv> submitted_bundle (sb_uuid quiet_submit) example_user ''robot'' ''img'' ''dut1'' '' DUT_A ,'' True"

lemma u1_fields:
  "tb_test_id u1_bundle = ''u1''" "tb_runner_type u1_bundle = ''robot''"
  "tb_runner_variables u1_bundle = [(PStr ''target_dut'', PStr ''dut1'')]" "tb_framework_image u1_bundle = ''img''"
  by (simp_all add: submitted_bundle_def quiet_submit_def)

lemma u1_works: "run_works host2_settings listing_run u1_bundle u1_config [''notes.txt'', ''out.log'']"
proof -
  have d: "disk_ok (rn_fs listing_run)" by (simp add: disk_ok_def listing_run_def quiet_run_def good_fs_def)
  have ls: "robot_lines (\<lambda>_. []) [(PStr ''target_dut'', PStr ''dut1'')] = Inr [''--variable DUT:dut1'']" by code_simp
  have "\<not> blank ''u1''" "path_join (test_runs_dir host2_settings) ''u1'' = ''/tmp/test_runs/u1''"
    "\<not> blank ''/tmp/test_runs/u1''" "listing_ok (output_dir_of host2_settings ''u1'') [''notes.txt'', ''out.log'']" by code_simp+
  moreover have "rn_frepr listing_run = (\<lambda>_. [])" by (simp add: listing_run_def quiet_run_def)
  ultimately show ?thesis
    using write_config_robot [OF d ls]
    by (simp add: run_works_def Let_def u1_fields u1_config_def lines_flow_def)
       (simp add: listing_run_def quiet_run_def good_fs_def example_docker_def)
qed

end
