(* ===== verification/Orchestrator.thy ===== *)
theory Orchestrator
  imports Guarantees Submission
begin

text \<open>
  The whole orchestrator: one database, one trace of calls, and the handlers of the backend and of
  any number of workers, in any order, in any environment. A worker runs a task that has been
  sent to its queue, as often as the broker delivers it. Between the handlers' own transactions
  other ones may commit any consistent evolution, which is what every handler guarantees.
\<close>

section \<open>The system\<close>

text \<open>A user row whose name the directory has accepted with a password.\<close>

definition accepted_user :: "settings \<Rightarrow> (string \<Rightarrow> string \<Rightarrow> bool) \<Rightarrow> user \<Rightarrow> bool" where
  "accepted_user s accepts u \<longleftrightarrow> (\<exists>dn pw. format_username None (ldap_user_dn_template s) (u_username u) = Inr dn \<and>
     \<not> blank pw \<and> accepts dn pw)"

inductive system_step :: "settings \<Rightarrow> (string \<Rightarrow> string \<Rightarrow> bool) \<Rightarrow> world \<Rightarrow> world \<Rightarrow> bool" for s accepts where
  login: "(\<And>dn pw search. lg_ldap env dn pw = Bound search \<Longrightarrow> accepts dn pw) \<Longrightarrow>
    allowed (accepted_user s accepts) (lg_others env) \<Longrightarrow> system_step s accepts w (snd (login_submit s env name pw w))"
| submit: "current_user (w_db w) now cookie = Inr u \<Longrightarrow> allowed (accepted_user s accepts) (sb_others env) \<Longrightarrow>
    allowed_rows (de_others (sb_dispatch env)) \<Longrightarrow>
    system_step s accepts w (snd (submit_test env rt img dut tags emu u w))"
| capabilities: "current_user (w_db w) now cookie = Inr u \<Longrightarrow>
    system_step s accepts w (snd (update_host err host_id tags emu n u w))"
| sweep: "system_step s accepts w (snd (run_maintenance_sweep s env w))"
| run: "SendTask ''worker.run_test_bundle'' payload q \<in> set (w_trace w) \<Longrightarrow> task_default_queue ws = Inr q \<Longrightarrow>
    allowed (accepted_user s accepts) (rn_others env) \<Longrightarrow>
    system_step s accepts w (snd (run_test_bundle ws env payload w))"
| heartbeat: "task_default_queue ws = Inr q \<Longrightarrow> system_step s accepts w (snd (publish_heartbeat ws env w))"
| reap: "system_step s accepts w (snd (reap_stale ws init_err quali now err w))"
| report: "system_step s accepts w (snd (report_status ws frepr rd err cid w))"

inductive_cases system_stepE: "system_step s accepts w w'"

section \<open>What holds at every moment\<close>

text \<open>
  A task in a queue describes a stored run, and a container has the name of a stored run's test
  and runs its image.
\<close>

fun accounted :: "db \<Rightarrow> effect \<Rightarrow> bool" where
  "accounted d (SendTask task payload q) = (case from_dict payload of
     Inl _ \<Rightarrow> False
   | Inr b \<Rightarrow> list_ex (describes b) (executions d))"
| "accounted d (DockerRun img name net vols labels) =
     list_ex (\<lambda>r. name = container_prefix @ te_test_id r \<and> img = te_framework_image r) (executions d)"
| "accounted d _ = True"

lemma quiet_accounted: "quiet e \<Longrightarrow> accounted d e"
  by (cases e) simp_all

lemma evolves_run: "evolves d d' \<Longrightarrow> r \<in> set (executions d) \<Longrightarrow> \<exists>r' \<in> set (executions d'). job r' = job r"
  using set_mono_prefix [of "map job (executions d)" "map job (executions d')"] by (force simp: evolves_def)

lemma evolves_list_ex:
  assumes "evolves d d'" "list_ex P (executions d)" "\<And>r r'. job r' = job r \<Longrightarrow> P r \<Longrightarrow> P r'"
  shows "list_ex P (executions d')"
  using assms evolves_run [OF assms(1)] unfolding list_ex_iff by metis

lemma accounted_evolves:
  assumes "evolves d d'" "accounted d e"
  shows "accounted d' e"
proof (cases e)
  case (SendTask task payload q)
  with assms show ?thesis
    by (auto simp: describes_def job_fields split: sum.splits elim!: evolves_list_ex [OF assms(1)])
next
  case (DockerRun img name net vols labels)
  with assms show ?thesis by (auto simp: job_fields elim!: evolves_list_ex [OF assms(1)])
qed simp_all

definition system_inv :: "settings \<Rightarrow> (string \<Rightarrow> string \<Rightarrow> bool) \<Rightarrow> world \<Rightarrow> bool" where
  "system_inv s accepts w \<longleftrightarrow> consistent (accepted_user s accepts) (w_db w) \<and>
     list_all (accounted (w_db w)) (w_trace w)"

definition system_start :: "settings \<Rightarrow> (string \<Rightarrow> string \<Rightarrow> bool) \<Rightarrow> world \<Rightarrow> bool" where
  "system_start s accepts w \<longleftrightarrow> consistent (accepted_user s accepts) (w_db w) \<and> w_trace w = []"

text \<open>What a handler guarantees is enough for the invariant, and to evolve the database.\<close>

lemma guarantee_step:
  assumes "system_inv s accepts w" "later (accepted_user s accepts) (w_db w) d1"
    and "both (later (accepted_user s accepts) d1) W w'"
    and "\<And>e. W e \<Longrightarrow> e \<in> set (w_trace w) \<or> accounted d1 e"
  shows "system_inv s accepts w' \<and> evolves (w_db w) (w_db w')"
proof -
  from assms(3) have l: "later (accepted_user s accepts) d1 (w_db w')" by (rule both_db)
  then have e: "evolves d1 (w_db w')" "evolves (w_db w) (w_db w')"
    using later_trans [OF assms(2) l] by (simp_all add: later_def)
  have "accounted (w_db w') x" if "x \<in> set (w_trace w')" for x
  proof -
    have "quiet x \<or> W x" using assms(3) that by (simp add: both_def list_all_iff)
    then show ?thesis
      using assms(1,4) accounted_evolves [OF e(1)] accounted_evolves [OF e(2)] quiet_accounted
      unfolding system_inv_def list_all_iff by blast
  qed
  with l e show ?thesis by (simp add: system_inv_def list_all_iff later_consistent)
qed

lemma keeps_step:
  assumes "system_inv s accepts w"
    and "keeps (both (later (accepted_user s accepts) (w_db w)) (\<lambda>e. e \<in> set (w_trace w))) m"
  shows "system_inv s accepts (snd (m w)) \<and> evolves (w_db w) (w_db (snd (m w)))"
proof -
  have l: "later (accepted_user s accepts) (w_db w) (w_db w)"
    using assms(1) by (simp add: system_inv_def later_refl)
  then have "both (later (accepted_user s accepts) (w_db w)) (\<lambda>e. e \<in> set (w_trace w)) w"
    by (simp add: both_def list_all_iff)
  from guarantee_step [OF assms(1) l keeps_both [OF assms(2) this]] show ?thesis by blast
qed

lemma submit_step:
  assumes "system_inv s accepts w" "current_user (w_db w) now cookie = Inr u"
    and "allowed (accepted_user s accepts) (sb_others env)" "allowed_rows (de_others (sb_dispatch env))"
  shows "system_inv s accepts (snd (submit_test env rt img dut tags emu u w)) \<and>
    evolves (w_db w) (w_db (snd (submit_test env rt img dut tags emu u w)))"
proof (cases u)
  case None
  with assms(1) show ?thesis by (simp add: submit_test_def act_return_def)
next
  case (Some v)
  have c: "consistent (accepted_user s accepts) (w_db w)" using assms(1) by (simp add: system_inv_def)
  have "v \<in> set (users (w_db w))"
    using assms(2) Some
    by (auto simp: current_user_def resolve_session_def session_user_def result_simps
        dest: find_Some_in split: option.splits if_splits)
  note g = submit_guarantee [OF c this assms(3,4) refl refl refl, of rt img dut tags emu]
  let ?row = "pending_row env rt img v (w_db w)" and ?d = "add_pending env rt img v (w_db w)"
  have row: "?row \<in> set (executions ?d)" by (simp add: add_pending_def)
  have "e \<in> set (w_trace w) \<or> accounted ?d e" if "sends_for ?row (w_trace w) e" for e
    using that row by (auto simp: sends_for_def from_dict_to_dict list_ex_iff)
  with g show ?thesis using guarantee_step [OF assms(1)] assms(1) unfolding Some by (metis evolves_refl)
qed

lemma run_step:
  assumes "system_inv s accepts w" "SendTask ''worker.run_test_bundle'' payload q \<in> set (w_trace w)"
    and "allowed (accepted_user s accepts) (rn_others env)"
  shows "system_inv s accepts (snd (run_test_bundle ws env payload w)) \<and>
    evolves (w_db w) (w_db (snd (run_test_bundle ws env payload w)))"
proof -
  have l: "later (accepted_user s accepts) (w_db w) (w_db w)"
    using assms(1) by (simp add: system_inv_def later_refl)
  have "accounted (w_db w) (SendTask ''worker.run_test_bundle'' payload q)"
    using assms(1,2) unfolding system_inv_def list_all_iff by blast
  then obtain b r where b: "from_dict payload = Inr b" "r \<in> set (executions (w_db w))" "describes b r"
    by (auto simp: list_ex_iff split: sum.splits)
  let ?W = "starts_for b (w_trace w)"
  have "keeps (both (later (accepted_user s accepts) (w_db w)) ?W) (run_test_bundle ws env payload)"
    by (rule both_run_test_bundle [OF assms(3), where old = "w_trace w"]) (simp add: b(1))
  moreover have "both (later (accepted_user s accepts) (w_db w)) ?W w"
    using l by (simp add: both_def list_all_iff starts_for_def)
  ultimately have w': "both (later (accepted_user s accepts) (w_db w)) ?W (snd (run_test_bundle ws env payload w))"
    by (rule keeps_both)
  have "e \<in> set (w_trace w) \<or> accounted (w_db w) e" if "?W e" for e
    using that b(2,3) by (auto simp: starts_for_def describes_def list_ex_iff)
  from guarantee_step [OF assms(1) l w' this] show ?thesis by blast
qed

lemma heartbeat_step:
  assumes "system_inv s accepts w" "task_default_queue ws = Inr q"
  shows "system_inv s accepts (snd (publish_heartbeat ws env w)) \<and>
    evolves (w_db w) (w_db (snd (publish_heartbeat ws env w)))"
proof -
  have l: "later (accepted_user s accepts) (w_db w) (w_db w)"
    using assms(1) by (simp add: system_inv_def later_refl)
  have "\<not> blank (worker_host_id ws)"
    using assms(2) by (auto simp: task_default_queue_def worker_conf_def queue_name_for_def result_simps guard_simps)
  note h = heartbeat_guarantee [OF l this, of env]
  then have "both (later (accepted_user s accepts) (w_db w)) (\<lambda>e. e \<in> set (w_trace w)) (snd (publish_heartbeat ws env w))"
    by (simp add: both_def list_all_iff)
  from guarantee_step [OF assms(1) l this] show ?thesis by blast
qed

lemma system_step_keeps:
  assumes "system_inv s accepts w" "system_step s accepts w w'"
  shows "system_inv s accepts w' \<and> evolves (w_db w) (w_db w')"
  using assms(2)
proof cases
  case (login env name pw)
  show ?thesis
    unfolding login(1)
  proof (rule keeps_step [OF assms(1) both_login [OF login(3)]])
    fix dn search and x :: user
    assume "format_username None (ldap_user_dn_template s) name = Inr dn" "\<not> blank pw"
      "lg_ldap env dn pw = Bound search" "u_username x = name"
    with login(2) show "accepted_user s accepts x" by (auto simp: accepted_user_def)
  qed
next
  case submit
  with submit_step [OF assms(1)] show ?thesis by metis
next
  case capabilities
  with keeps_step [OF assms(1) both_update_host] show ?thesis by metis
next
  case sweep
  with keeps_step [OF assms(1) both_sweep] show ?thesis by metis
next
  case run
  with run_step [OF assms(1)] show ?thesis by metis
next
  case heartbeat
  with heartbeat_step [OF assms(1)] show ?thesis by metis
next
  case reap
  with keeps_step [OF assms(1) both_reap] show ?thesis by metis
next
  case report
  with keeps_step [OF assms(1) both_report] show ?thesis by metis
qed

interpretation orchestrator: invariant_system "system_start s accepts" "system_step s accepts" "system_inv s accepts"
  for s accepts
  by unfold_locales (simp add: system_start_def system_inv_def, blast dest: system_step_keeps)

lemma system_steps_evolve:
  assumes "(system_step s accepts)\<^sup>*\<^sup>* w w'" "system_inv s accepts w"
  shows "system_inv s accepts w' \<and> evolves (w_db w) (w_db w')"
  using assms
  by (induction rule: rtranclp_induct) (auto dest: system_step_keeps intro: evolves_trans)

section \<open>What it means\<close>

lemma cookie_stays:
  assumes "consistent known d" "consistent known d'" "evolves d d'" "current_user d now cookie = Inr (Some u)"
  shows "current_user d' now cookie = Inr (Some u)"
proof -
  obtain t sess where t: "cookie = Some t" "t \<noteq> []" "find_by us_token t (sessions d) = Inr (Some sess)"
    "\<not> utc_micros (us_expires_at sess) < now" "session_user d sess = Some u"
    using assms(4) by (auto simp: current_user_def resolve_session_def result_simps split: option.splits if_splits)
  have "unique_by us_token (sessions d)" "unique_by us_token (sessions d')"
    using assms(1,2) by (simp_all add: consistent_def wf_auth_def)
  then have "find_by us_token t (sessions d') = Inr (Some sess)"
    using t(3) assms(3) by (auto simp: find_by_Some evolves_def dest: set_mono_prefix)
  moreover have "session_user d' sess = Some u"
  proof -
    from assms(3) obtain us where "users d' = users d @ us" by (auto simp: evolves_def prefix_def)
    with t(5) show ?thesis by (auto simp: session_user_def find_Some_iff nth_append)
  qed
  ultimately show ?thesis using t(1,2,4) by (simp add: current_user_def resolve_session_def)
qed

lemma resolve_session_total:
  assumes "unique_by us_token (sessions d)"
  shows "\<exists>u. resolve_session d now cookie = Inr u"
proof (cases cookie)
  case (Some t)
  obtain f where "find_by us_token t (sessions d) = Inr f" using session_table.find_total [OF assms] by blast
  with Some show ?thesis by (cases f) (simp_all add: resolve_session_def)
qed (simp add: resolve_session_def)

lemma sound_run_status:
  "sound_run d r \<Longrightarrow> te_status r \<in> {''PENDING'', ''DISPATCHED'', ''RUNNING'', ''PASSED'', ''FAILED''} \<and>
    (te_status r \<in> {''DISPATCHED'', ''RUNNING''} \<longrightarrow> te_target_host_id r \<noteq> None)"
  unfolding sound_run_def known_statuses_def active_states_def
  by (simp only: list.map status_value.simps list.set) blast

section \<open>A journey through the system\<close>

text \<open>A user who has logged in submits a test, and the worker of the chosen host runs it.\<close>

definition eve_dn :: string where
  "eve_dn = ''uid=eve,ou=people,dc=corp,dc=example,dc=com''"

definition eve_accepts :: "string \<Rightarrow> string \<Rightarrow> bool" where
  "eve_accepts dn pw \<longleftrightarrow> dn = eve_dn \<and> pw = ''secret''"

definition journey_start :: world where
  "journey_start = \<lparr>w_db = example_db\<lparr>users := [example_user], sessions := [\<lparr>us_id = 8, us_token = ''cookie'',
     us_user_id = 7, us_created_at = Aware 0, us_expires_at = Aware 90\<rparr>]\<rparr>, w_trace = []\<rparr>"

lemma journey_starts: "system_start default_settings eve_accepts journey_start"
proof -
  have "format_username None (ldap_user_dn_template default_settings) (u_username example_user) = Inr eve_dn"
    "\<not> blank ''secret''" by code_simp+
  then have "accepted_user default_settings eve_accepts example_user"
    by (auto simp: accepted_user_def eve_accepts_def)
  moreover have "wf_auth (w_db journey_start)" "wf_hosts (hosts (w_db journey_start))" "host_ids_fresh (w_db journey_start)"
    by code_simp+
  ultimately show ?thesis
    by (simp add: system_start_def consistent_def) (simp add: journey_start_def example_db_def unique_by_def)
qed

lemma journey_cookie: "current_user (w_db journey_start) 50 (Some ''cookie'') = Inr (Some example_user)"
  by code_simp

lemma journey:
  "\<exists>w net vols labels run. (system_step default_settings eve_accepts)\<^sup>*\<^sup>* journey_start w \<and>
     DockerRun ''img'' ''test_u1'' net vols labels \<in> set (w_trace w) \<and>
     test_logs_page (w_db w) ''u1'' (Some example_user) = Inr (LogsPage example_user run)"
proof -
  have v: "valid_submission quiet_submit ''robot'' ''img'' example_user (w_db journey_start)"
    "wf_hosts (hosts (w_db journey_start))" "unique_by te_test_id (executions (w_db journey_start))"
    by code_simp+
  have q: "sb_commit_pending quiet_submit = None" "sb_commit_final quiet_submit = None" "sb_others quiet_submit = id"
    "de_commit_reserve (sb_dispatch quiet_submit) = None" "\<And>q. de_send (sb_dispatch quiet_submit) q = None"
    "de_others (sb_dispatch quiet_submit) = id"
    by (simp_all add: quiet_submit_def quiet_env_def)
  have p: "pick_host u1_bundle (hosts (w_db journey_start)) = Some (example_host ''host2'' 0 50)" by code_simp
  have same: "worker_host_id host2_settings = wh_host_id (example_host ''host2'' 0 50)"
    by (simp add: example_host_def new_worker_host_def host2_settings_def)
  have o: "run_opens listing_run" "\<And>st. rn_commit listing_run st = None" "rn_others listing_run = id"
    "dk_wait (rn_docker listing_run) = Inr [(PStr ''StatusCode'', PInt 0)]"
    by (simp_all add: run_opens_def listing_run_def quiet_run_def example_docker_def)
  have uuid: "sb_uuid quiet_submit = ''u1''" by (simp add: quiet_submit_def)
  from submission_runs [OF v q(1-5) refl p same o(1-3) u1_works o(4) refl] obtain w1 payload w2 st run where
    w1: "submit_test quiet_submit ''robot'' ''img'' ''dut1'' '' DUT_A ,'' True (Some example_user) journey_start = (Inr (Redirect ''/''), w1)"
      "w_trace w1 = w_trace journey_start @ [SendTask ''worker.run_test_bundle'' payload (queue_of (worker_host_id host2_settings))]"
    and w2: "run_test_bundle host2_settings listing_run payload w1 = (Inr st, w2)"
      "w_trace w2 = w_trace w1 @ run_calls host2_settings listing_run u1_bundle u1_config [''notes.txt'', ''out.log''] @
         [DockerRemove (container_prefix @ ''u1''), InfluxClose]"
    and page: "test_logs_page (w_db w2) ''u1'' (Some example_user) = Inr (LogsPage example_user run)"
    unfolding uuid by metis
  let ?step = "system_step default_settings eve_accepts"
  have rows: "allowed_rows id" by (simp add: allowed_rows_def)
  have "?step journey_start w1"
    using system_step.submit [OF journey_cookie, of default_settings eve_accepts quiet_submit "''robot''" "''img''" "''dut1''" "'' DUT_A ,''" True]
      w1(1) rows by (simp add: q(3,6) allowed_id)
  moreover have "?step w1 w2"
  proof -
    have "\<not> blank (worker_host_id host2_settings)" by code_simp
    then have "task_default_queue host2_settings = Inr (queue_of (worker_host_id host2_settings))" by (rule task_default_queue_ok)
    with system_step.run [of payload "queue_of (worker_host_id host2_settings)" w1 host2_settings default_settings eve_accepts listing_run]
    show ?thesis using w1(2) w2(1) o(3) by (simp add: allowed_id)
  qed
  moreover have "\<exists>net vols labels. DockerRun ''img'' ''test_u1'' net vols labels \<in> set (w_trace w2)"
    unfolding w2(2) run_calls_def Let_def by (auto simp: u1_fields container_prefix_def)
  ultimately show ?thesis using page by (meson converse_rtranclp_into_rtranclp rtranclp.rtrancl_refl)
qed

section \<open>The theorems\<close>

text \<open>
  C4: The database never becomes inconsistent: whatever the users, the backend, the workers and
  their environments do, in any order, user names, tokens, test ids and host names stay unique,
  sessions and runs belong to users, every run has one of five statuses and a host while it is
  in flight, rows are only added and say for ever what they are about. So the lookups of the
  pages, of the log socket and of the scheduler never raise.
\<close>

theorem system_stays_consistent:
  assumes "system_start s accepts w0" "(system_step s accepts)\<^sup>*\<^sup>* w0 w"
  shows "consistent (accepted_user s accepts) (w_db w) \<and> evolves (w_db w0) (w_db w) \<and>
    list_all (\<lambda>r. te_status r \<in> {''PENDING'', ''DISPATCHED'', ''RUNNING'', ''PASSED'', ''FAILED''} \<and>
      (te_status r \<in> {''DISPATCHED'', ''RUNNING''} \<longrightarrow> te_target_host_id r \<noteq> None)) (executions (w_db w)) \<and>
    (\<exists>u. current_user (w_db w) now cookie = Inr u) \<and> (\<exists>page. test_logs_page (w_db w) tid user = Inr page) \<and>
    (\<exists>code. ws_logs_close (w_db w) now cookie tid = Inr code) \<and> (\<exists>h. select_host (hosts (w_db w)) (Inr b) = Inr h)"
proof -
  from system_steps_evolve [OF assms(2) orchestrator.inv_init [OF assms(1)]]
  have c: "consistent (accepted_user s accepts) (w_db w)" and e: "evolves (w_db w0) (w_db w)"
    by (simp_all add: system_inv_def)
  from c have u: "unique_by us_token (sessions (w_db w))" "unique_by te_test_id (executions (w_db w))" "wf_hosts (hosts (w_db w))"
    by (simp_all add: consistent_def wf_auth_def)
  obtain f where f: "find_by te_test_id tid (executions (w_db w)) = Inr f"
    using execution_table.find_total [OF u(2)] by blast
  have user: "\<exists>u. current_user (w_db w) now cookie = Inr u"
    unfolding current_user_def by (rule resolve_session_total [OF u(1)])
  then obtain v where v: "resolve_session (w_db w) now cookie = Inr v" by (auto simp: current_user_def)
  have "\<exists>code. ws_logs_close (w_db w) now cookie tid = Inr code"
    using f v by (auto simp: ws_logs_close_def split: option.split)
  moreover have "\<exists>page. test_logs_page (w_db w) tid user = Inr page"
    using f by (auto simp: test_logs_page_def split: option.split)
  moreover have "\<exists>h. select_host (hosts (w_db w)) (Inr b) = Inr h" using select_host_pick [OF u(3)] by auto
  moreover have "list_all (\<lambda>r. te_status r \<in> {''PENDING'', ''DISPATCHED'', ''RUNNING'', ''PASSED'', ''FAILED''} \<and>
      (te_status r \<in> {''DISPATCHED'', ''RUNNING''} \<longrightarrow> te_target_host_id r \<noteq> None)) (executions (w_db w))"
    using c unfolding consistent_def list_all_iff by (blast dest: sound_run_status)
  ultimately show ?thesis using c e user by blast
qed

theorem system_stays_consistent_witness:
  "\<exists>(w :: world) run. test_logs_page (w_db w) ''u1'' (Some example_user) = Inr (LogsPage example_user run) \<and>
     consistent (accepted_user default_settings eve_accepts) (w_db w) \<and>
     (\<exists>u. current_user (w_db w) 0 (Some ''other'') = Inr u)"
proof -
  from journey obtain w run where w: "(system_step default_settings eve_accepts)\<^sup>*\<^sup>* journey_start w"
    "test_logs_page (w_db w) ''u1'' (Some example_user) = Inr (LogsPage example_user run)" by blast
  from system_stays_consistent [OF journey_starts w(1), of 0 "Some ''other''"] w(2) show ?thesis by blast
qed

text \<open>
  C5: Every container has been asked for by a user the directory knows: whatever happens, a
  container that was ever started on any worker is named after a stored run and runs the image
  stored with it; that run belongs to a user whose name the directory has accepted with a
  password, and of all users this one alone can open its log page.
\<close>

theorem every_container_accounted:
  assumes "system_start s accepts w0" "(system_step s accepts)\<^sup>*\<^sup>* w0 w"
    and "DockerRun img name net vols labels \<in> set (w_trace w)"
  shows "\<exists>r \<in> set (executions (w_db w)). \<exists>u \<in> set (users (w_db w)). \<exists>dn pw.
    name = container_prefix @ te_test_id r \<and> img = te_framework_image r \<and> te_user_id r = u_id u \<and>
    format_username None (ldap_user_dn_template s) (u_username u) = Inr dn \<and> \<not> blank pw \<and> accepts dn pw \<and>
    (\<forall>v \<in> set (users (w_db w)). test_logs_page (w_db w) (te_test_id r) (Some v) =
      Inr (if v = u then LogsPage u r else Redirect ''/''))"
proof -
  from system_steps_evolve [OF assms(2) orchestrator.inv_init [OF assms(1)]]
  have c: "consistent (accepted_user s accepts) (w_db w)" and t: "list_all (accounted (w_db w)) (w_trace w)"
    by (simp_all add: system_inv_def)
  have "accounted (w_db w) (DockerRun img name net vols labels)" using t assms(3) unfolding list_all_iff by blast
  then obtain r where r: "r \<in> set (executions (w_db w))" "name = container_prefix @ te_test_id r"
    "img = te_framework_image r" by (auto simp: list_ex_iff)
  then obtain u where u: "u \<in> set (users (w_db w))" "te_user_id r = u_id u"
    using c by (auto simp: consistent_def list_all_iff sound_run_def)
  have known: "accepted_user s accepts u" using c u(1) by (simp add: consistent_def list_all_iff)
  have same: "v = u" if "v \<in> set (users (w_db w))" "u_id v = u_id u" for v
    using c u(1) that by (auto simp: consistent_def wf_auth_def unique_by_def dest: distinct_map_eq)
  have "find_by te_test_id (te_test_id r) (executions (w_db w)) = Inr (Some r)"
    using c r(1) by (simp add: consistent_def find_by_Some)
  then have "test_logs_page (w_db w) (te_test_id r) (Some v) = Inr (if v = u then LogsPage u r else Redirect ''/'')"
    if "v \<in> set (users (w_db w))" for v
    using that same [OF that] u(2) by (auto simp: test_logs_page_def)
  with r u known show ?thesis unfolding accepted_user_def by blast
qed

theorem every_container_accounted_witness:
  "\<exists>(w :: world) net vols labels. DockerRun ''img'' ''test_u1'' net vols labels \<in> set (w_trace w) \<and>
     (\<exists>r \<in> set (executions (w_db w)). \<exists>u \<in> set (users (w_db w)). \<exists>dn pw.
        ''test_u1'' = container_prefix @ te_test_id r \<and> ''img'' = te_framework_image r \<and> te_user_id r = u_id u \<and>
        eve_accepts dn pw)"
proof -
  from journey obtain w net vols labels where w: "(system_step default_settings eve_accepts)\<^sup>*\<^sup>* journey_start w"
    "DockerRun ''img'' ''test_u1'' net vols labels \<in> set (w_trace w)" by blast
  from every_container_accounted [OF journey_starts w] w(2) show ?thesis by blast
qed

text \<open>
  C6: What a user has is not taken away: once a user can open the log page of a run and is logged
  in by a cookie, then at every later moment the cookie still means this user, until it expires,
  and the page still shows the same run with its owner, runner and image, to this user and to
  nobody else.
\<close>

theorem pages_stay:
  assumes "system_start s accepts w0" "(system_step s accepts)\<^sup>*\<^sup>* w0 w" "(system_step s accepts)\<^sup>*\<^sup>* w w'"
    and "current_user (w_db w) now cookie = Inr (Some u)" "test_logs_page (w_db w) tid (Some u) = Inr (LogsPage u r)"
  shows "current_user (w_db w') now cookie = Inr (Some u) \<and>
    (\<exists>r'. test_logs_page (w_db w') tid (Some u) = Inr (LogsPage u r') \<and> job r' = job r) \<and>
    (\<forall>v. u_id v \<noteq> u_id u \<longrightarrow> test_logs_page (w_db w') tid (Some v) = Inr (Redirect ''/''))"
proof -
  from system_steps_evolve [OF assms(2) orchestrator.inv_init [OF assms(1)]]
  have inv: "system_inv s accepts w" by blast
  from system_steps_evolve [OF assms(3) this] inv
  have c: "consistent (accepted_user s accepts) (w_db w)" "consistent (accepted_user s accepts) (w_db w')"
    and e: "evolves (w_db w) (w_db w')" by (simp_all add: system_inv_def)
  have uniq: "unique_by te_test_id (executions (w_db w))" "unique_by te_test_id (executions (w_db w'))"
    using c by (simp_all add: consistent_def)
  have r: "r \<in> set (executions (w_db w))" "te_test_id r = tid" "te_user_id r = u_id u"
    using assms(5) uniq(1)
    by (auto simp: test_logs_page_def result_simps find_by_Some split: option.splits if_splits)
  obtain r' where r': "r' \<in> set (executions (w_db w'))" "job r' = job r" using evolves_run [OF e r(1)] by blast
  then have "te_test_id r' = tid" "te_user_id r' = u_id u" using r by (simp_all add: job_fields)
  then have "find_by te_test_id tid (executions (w_db w')) = Inr (Some r')" "te_user_id r' = u_id u"
    using r'(1) uniq(2) by (simp_all add: find_by_Some)
  with cookie_stays [OF c e assms(4)] r'(2) show ?thesis by (simp add: test_logs_page_def)
qed

theorem pages_stay_witness:
  "\<exists>w w' r r'. (system_step default_settings eve_accepts)\<^sup>*\<^sup>* journey_start w \<and>
     w' = snd (run_maintenance_sweep default_settings
       \<lparr>sw_now = 60, sw_http = (\<lambda>_. Status 500), sw_commit_hosts = None, sw_commit_runs = None\<rparr> w) \<and>
     test_logs_page (w_db w) ''u1'' (Some example_user) = Inr (LogsPage example_user r) \<and>
     test_logs_page (w_db w') ''u1'' (Some example_user) = Inr (LogsPage example_user r') \<and> job r' = job r"
proof -
  let ?env = "\<lparr>sw_now = 60, sw_http = (\<lambda>_. Status 500), sw_commit_hosts = None, sw_commit_runs = None\<rparr>"
  from journey obtain w r where w: "(system_step default_settings eve_accepts)\<^sup>*\<^sup>* journey_start w"
    "test_logs_page (w_db w) ''u1'' (Some example_user) = Inr (LogsPage example_user r)" by blast
  let ?w' = "snd (run_maintenance_sweep default_settings ?env w)"
  have s: "(system_step default_settings eve_accepts)\<^sup>*\<^sup>* w ?w'" using sweep by (rule r_into_rtranclp)
  have inv: "system_inv default_settings eve_accepts journey_start" using journey_starts by (rule orchestrator.inv_init)
  with system_steps_evolve [OF w(1) inv] have c: "consistent (accepted_user default_settings eve_accepts) (w_db journey_start)"
    "consistent (accepted_user default_settings eve_accepts) (w_db w)" "evolves (w_db journey_start) (w_db w)"
    by (simp_all add: system_inv_def)
  from pages_stay [OF journey_starts w(1) s cookie_stays [OF c journey_cookie] w(2)] w show ?thesis by blast
qed

end
