(* ===== verification/Spec2Isabelle.thy ===== *)
theory Spec2Isabelle
  imports AdminPoll Capacity LiveLogs Sessions Environ Orchestrator
begin

text \<open>
  A verification of test_orch, an orchestrator that runs test containers on worker hosts.

  \<^bold>\<open>The program.\<close> A FastAPI backend (\<open>backend/\<close>) takes test submissions of users it has
  authenticated against LDAP, stores them in Postgres, chooses a worker host and sends the job to
  that host's own Celery queue; it streams the container's output and the hosts' status to the
  browser over WebSockets, and sweeps away hosts that stopped reporting. A worker (\<open>worker/\<close>) on
  each host writes the configuration of the test framework, runs the container, streams its lines
  to InfluxDB, to a fanout exchange and in part to Postgres, uploads the artifacts, and reports
  its load. Both sides share the job contract, the host snapshot and the argument guards
  (\<open>shared/\<close>). They meet in four places: the rows of the database, the Celery queues, the fanout
  exchanges, and the JSON that travels through both.

  \<^bold>\<open>Theories.\<close>
  \<^item> \<open>Prelude\<close>: exceptions and results, minimum of a list, the locale \<open>invariant_system\<close> of step
    relations with an invariant. \<open>PyStr\<close>, \<open>PyVal\<close>, \<open>PyFormat\<close>: the Python the program uses, that is
    strings, floats, values and dictionaries, and their conversions to text and numbers.
  \<^item> \<open>Codec\<close>, \<open>Json\<close>: the contract of a serialization and of two in a row; the \<open>json\<close> module
    (\<open>json_text\<close>, \<open>json_loads\<close>) with the proof that it satisfies the contract.
  \<^item> \<open>Tables\<close>: the contract \<open>keyed_table\<close> of a table with a unique column. \<open>Models\<close>: the rows of
    \<open>backend/models.py\<close> and the database. \<open>World\<close>: actions over the database and the trace of
    external effects, with exceptions, \<open>try\<close>, \<open>finally\<close> and commits that may fail.
  \<^item> \<open>Validation\<close> and \<open>Schemas\<close>: \<open>shared/validation.py\<close> and \<open>shared/schemas.py\<close>. \<open>HostStats\<close>:
    \<open>shared/host_stats.py\<close>.
  \<^item> \<open>Config\<close>, \<open>Auth\<close>, \<open>QualiClient\<close>, \<open>InfluxClient\<close>, \<open>Scheduler\<close>, \<open>Maintenance\<close>,
    \<open>StatusRender\<close>: the backend modules of those names (\<open>ldap_auth\<close>, \<open>quali_client\<close>,
    \<open>influx_client\<close>, \<open>status_render\<close>). \<open>Flux\<close>: what the text of a query of \<open>influx_client\<close> asks for.
  \<^item> \<open>Routes\<close>, \<open>LiveLogs\<close>, \<open>PollState\<close>, \<open>AdminPoll\<close>: \<open>backend/main.py\<close>, that is the HTTP routes; the log
    socket and its consumer; the class \<open>_PollState\<close>; the admin channel with all its tasks.
  \<^item> \<open>Runners\<close>, \<open>DockerEngine\<close>, \<open>ArtifactUploader\<close>: the modules of \<open>worker/\<close> of those names
    (\<open>translation_layer\<close>, \<open>docker_engine\<close>, \<open>artifact_uploader\<close>). \<open>worker/tasks.py\<close> fills four
    theories: \<open>Tasks\<close> (the run and its handlers), \<open>RunOutput\<close> (its log lines and artifacts),
    \<open>RunOutcome\<close> (what a run that works leaves), \<open>Periodic\<close> (status replies, heartbeat, reaper).
  \<^item> \<open>CeleryApp\<close>: the two Celery applications and the queue a worker consumes. \<open>Environ\<close>:
    \<open>backend/config.py\<close>, the settings as read from the environment and cached.
  \<^item> \<open>Sessions\<close>: \<open>backend/database.py\<close>, the requests that compete for the connection pool.
  \<^item> \<open>Capacity\<close>: the inventory under every interleaving of the reads and writes of the backend and
    the workers.
  \<^item> \<open>Evolution\<close> (what a consistent database is and how it may change), \<open>Guarantees\<close> (what each
    handler guarantees of its changes and its calls), \<open>Submission\<close> (a form from its submission to
    the log page of its run), \<open>Orchestrator\<close> (the whole system, \<open>system_step\<close>).
  \<^item> This theory: what the components guarantee together.

  \<^bold>\<open>State.\<close> A row is a record with the columns of its class; a table is the list of its rows in
  insertion order; \<open>db\<close> holds the five tables. A function that talks to the outside is an action
  \<open>world \<Rightarrow> 'a result \<times> world\<close>: an exception is \<open>Inl\<close>, and the world is the committed database
  with the trace of the calls that succeeded. Which external calls fail, and what other
  transactions commit at the points where the code has let go of its locks, are the fields of an
  environment record per operation (\<open>dispatch_env\<close>, \<open>submit_env\<close>, \<open>run_env\<close>, \<open>heartbeat_env\<close>,
  \<open>sweep_env\<close>, \<open>login_env\<close>, \<open>docker_env\<close>, \<open>fs_env\<close>, \<open>fanout_env\<close>), over which the theorems
  quantify. The coroutines of the admin poll are step relations or event functions whose steps are
  the runs between two awaits.

  \<^bold>\<open>What is shown.\<close>
  \<^item> Placement: \<open>select_host\<close> is the least eligible host in a linear order, whatever the row order;
    \<open>dispatch\<close> refines it, keeps the inventory sound in every environment, and undoes its
    reservation when nobody intervenes. The locale \<open>placement\<close> carries the ranking.
  \<^item> Jobs: what the constructor accepts survives its dictionary form and JSON; a run gives its slot
    back exactly once, ends in a final status, and streams its lines in order, as the log client
    reads them back. A message the broker delivers twice breaks this
    (\<open>Tasks.redelivered_run_stops_first\<close>). \<open>submission_completes\<close> joins all parts: from the
    submitted form to the user's log page.
  \<^item> The whole system: \<open>system_step\<close> is a login, a submission, a change of capabilities, a sweep, the
    run of a task that is in the queue of its worker, a heartbeat, a reaper or a status reply, in any
    environment and any order. In every reachable state the database is \<open>consistent\<close>, rows have only
    been added (\<open>evolves\<close>), every container was asked for by a user the directory accepted, and what
    a user could see stays visible to that user and to nobody else. The proofs are by rely and
    guarantee: a handler relies on the transactions between its own being consistent evolutions
    (\<open>allowed\<close>; between a failed send and its undo, sound changes of the existing host rows,
    \<open>allowed_rows\<close>: that another host registers for the first time in that window is not covered),
    and the handlers guarantee that what they write is such an evolution.
  \<^item> Inventory: heartbeats, sweeps and their loop; the soundness of the inventory under interleaving of
    everything that writes it, stale writes and aborted transactions included.
  \<^item> Users: sessions live twelve hours, belong to the user of the bind, and guard logs and pages.
  \<^item> Connections: while the requests with a user are fewer than the connections, everybody gets through;
    as many as the connections can hold them all and wait for a second one for ever.
  \<^item> Configuration: all parts of a process see the settings of its first read.
  \<^item> Screens: at most one sentinel per poll, which comes at the latest with the timer; no frame of one
    poll among those of another; log fragments that cannot inject markup; a status reply that
    arrives as the row of its snapshot.
  \<^item> Defects: each theorem whose text says that something is lost, left or overwritten is a fact about
    the code as it is, not about the model's freedom; the environments of its witness are ordinary.

  \<^bold>\<open>Fuel and termination.\<close> The JSON parser is fuelled with \<open>2 * length s + 1\<close>; \<open>json_loads_ends\<close> shows
  that it never runs out. Every other loop is a structural recursion over the data it consumes:
  the messages, lines, rounds or turns that arrive. A loop of the code that runs for ever is
  modelled by its finite prefixes.

  \<^bold>\<open>The database session.\<close> A commit that fails writes nothing. With \<open>expire_on_commit=False\<close>, as
  \<open>backend/database.py\<close> sets it, a row loaded before a successful commit keeps its values in the
  session, and a rollback outside a transaction does nothing: \<open>Scheduler.fresh_count\<close> depends on it.
  A row whose columns keep their values is not written, so its \<open>updated_at\<close> stays (\<open>Models.touch\<close>).
  In the functions that model a heartbeat, a release, a sweep, a reaper and the admin form the query
  and the commit are one step. What happens between them to the inventory is the subject of
  \<open>Capacity\<close>, whose steps are the single reads and writes, with only the changed columns written; for
  the runs a sweep or a reaper fails it is not modelled.

  \<^bold>\<open>Parameters.\<close> The LDAP directory, HTTP services, the broker, the Docker daemon, InfluxDB
  (assumed to answer a text by the pipeline of stages the text spells, \<open>Flux.answers_flux\<close>), \<open>psutil\<close>, the
  clock, tokens and uuids, the digits \<open>repr\<close> prints for a float.

  \<^bold>\<open>Abstractions and bounds.\<close> Floats are exact rationals with the infinities and NaN, without a
  negative zero: rounding to 64 bits is not modelled. Characters are those up to U+00FF; a wider
  one in a JSON escape is given by a parameter. Recursion limits are not modelled. Assertions are
  enabled. A configuration file whose writing fails leaves no effect in the trace. \<open>ORDER BY\<close> is a
  stable sort in the order of the characters: the collation of Postgres is not modelled.

  \<^bold>\<open>Not modelled.\<close> The construction of the SQLAlchemy engine and the creation of the tables
  (\<open>init_db\<close>), which only call libraries; the Jinja templates; the sample test image
  \<open>examples/mvp-test\<close>, which is no part of the orchestrator. The Celery applications are modelled as
  the data the code gives them, without the delivery of the broker behind them.
\<close>

section \<open>From the scheduler to the worker and back\<close>

text \<open>
  C18: A task reaches the worker it was meant for: \<open>dispatch\<close> sends to the queue that the worker
  whose host id it returned consumes by default, no worker with another host id consumes it,
  and the payload decodes there to the dispatched bundle.
\<close>

theorem task_reaches_its_worker:
  assumes "wf_hosts (hosts (w_db w))" "valid_bundle b" "dispatch env (Inr b) w = (Inr (Some h), w')"
    and "\<not> blank (worker_host_id s)"
  shows "\<exists>payload q. w_trace w' = w_trace w @ [SendTask ''worker.run_test_bundle'' payload q] \<and>
    from_dict payload = Inr b \<and> (task_default_queue s = Inr q \<longleftrightarrow> worker_host_id s = h)"
proof -
  from dispatch_success [OF assms(3,1)]
  have "w_trace w' = w_trace w @ [SendTask ''worker.run_test_bundle'' (PDict (to_dict b)) (queue_of h)]" by blast
  then show ?thesis
    using assms(2,4) by (auto simp: task_default_queue_ok queue_of_inj from_dict_to_dict)
qed

lemma example_dispatched:
  "\<exists>w'. dispatch quiet_env (Inr example_bundle) example_world = (Inr (Some ''host2''), w')"
proof -
  have "fst (dispatch quiet_env (Inr example_bundle) example_world) = Inr (Some ''host2'')" by code_simp
  then show ?thesis by (metis prod.collapse)
qed

theorem task_reaches_its_worker_witness:
  "\<exists>w' payload q. dispatch quiet_env (Inr example_bundle) example_world = (Inr (Some ''host2''), w') \<and>
     w_trace w' = w_trace example_world @ [SendTask ''worker.run_test_bundle'' payload q] \<and>
     task_default_queue (default_settings\<lparr>worker_host_id := ''host2''\<rparr>) = Inr q"
proof -
  let ?s = "default_settings\<lparr>worker_host_id := ''host2''\<rparr>"
  obtain w' where w': "dispatch quiet_env (Inr example_bundle) example_world = (Inr (Some ''host2''), w')"
    using example_dispatched by blast
  have v: "valid_bundle example_bundle" "\<not> blank (worker_host_id ?s)" by code_simp+
  have s: "worker_host_id ?s = ''host2''" by simp
  from task_reaches_its_worker [OF example_world_wf v(1) w' v(2)] w' s show ?thesis by blast
qed

text \<open>
  C7: Reservation and release match: after a dispatch and the run of the dispatched payload on
  the chosen host, the inventory is the one before the dispatch, whatever fails in the body of the
  run and however the container ends, if the run opens (the calls before its \<open>try\<close> block succeed),
  no other transaction changes the inventory meanwhile, the container can be removed and the commit
  of the release succeeds. The first and the last two are needed: \<open>Tasks.run_startup_failure_leaks\<close>,
  \<open>Tasks.run_cleanup_failure_leaks\<close>.
\<close>

theorem dispatch_run_balances:
  assumes "wf_hosts (hosts (w_db w))" "valid_bundle b" "dispatch env (Inr b) w = (Inr (Some h), w')"
    and "worker_host_id s = h" "run_opens renv" "unique_by te_test_id (executions (w_db w))" "\<And>d. hosts (rn_others renv d) = hosts d"
    and "cleanup_ok (rn_docker renv) (tb_test_id b)" "rn_decrement renv = None"
  shows "hosts (w_db (snd (run_test_bundle s renv (PDict (to_dict b)) w'))) = hosts (w_db w)"
proof -
  let ?hs = "hosts (w_db w)"
  from dispatch_success [OF assms(3,1)] obtain g where g: "wh_host_id g = h" "g \<in> set ?hs"
    "w_db w' = set_hosts (reserve_slot g) (w_db w)" by blast
  have hs': "hosts (w_db w') = update_by wh_host_id h
      (\<lambda>h. h\<lparr>wh_active_containers := wh_active_containers h + 1\<rparr>) ?hs"
    using g reserve_slot_incr [OF assms(1) g(2)] by simp
  have u: "unique_by te_test_id (executions (w_db w'))" "unique_by wh_host_id (hosts (w_db w'))"
    using assms(1,6) g(3) unfolding hs' by (auto intro: unique_update_by simp: wf_hosts_def)
  have b: "\<not> blank (tb_test_id b)" using assms(2) by (simp add: valid_bundle_def)
  have "hosts (w_db (snd (run_test_bundle s renv (PDict (to_dict b)) w'))) =
      update_by wh_host_id h release_one (hosts (w_db w'))"
    using u(2) run_guarded_hosts [where env = renv and g = id] assms(4,7)
    by (simp add: run_test_bundle_opens [OF from_dict_to_dict [OF assms(2)] assms(5) u(1)] act_finally_db
        run_cleanup_hosts [OF b assms(8,9)])
  also have "\<dots> = ?hs" unfolding hs' by (rule release_after_reserve [OF assms(1)])
  finally show ?thesis .
qed

theorem dispatch_run_balances_witness:
  "\<exists>w'. dispatch quiet_env (Inr example_bundle) example_world = (Inr (Some ''host2''), w') \<and>
     hosts (w_db (snd (run_test_bundle (default_settings\<lparr>worker_host_id := ''host2''\<rparr>) quiet_run
       (PDict (to_dict example_bundle)) w'))) = hosts (w_db example_world)"
proof -
  let ?s = "default_settings\<lparr>worker_host_id := ''host2''\<rparr>"
  obtain w' where w': "dispatch quiet_env (Inr example_bundle) example_world = (Inr (Some ''host2''), w')"
    using example_dispatched by blast
  have v: "valid_bundle example_bundle" by code_simp
  have s: "worker_host_id ?s = ''host2''" by simp
  have o: "run_opens quiet_run" "cleanup_ok (rn_docker quiet_run) (tb_test_id example_bundle)"
    "rn_decrement quiet_run = None" "\<And>d. hosts (rn_others quiet_run d) = hosts d"
    by (simp_all add: run_opens_def cleanup_ok_def quiet_run_def example_docker_def)
  have u: "unique_by te_test_id (executions (w_db example_world))" by code_simp
  from dispatch_run_balances [OF example_world_wf v w' s o(1) u o(4,2,3)] w' show ?thesis by blast
qed

text \<open>
  C3: From the form to the log page: a submission for which a host qualifies ends, once that
  host's worker has run the task it finds in its queue with all its services working, with the
  user's own log page showing the run as PASSED if the container exited with code zero and as
  FAILED otherwise, on that host and with the first uploaded artifact; and the inventory is the
  one before the submission.
\<close>

theorem submission_completes:
  assumes "valid_submission env rt img u (w_db w)" "wf_hosts (hosts (w_db w))" "unique_by te_test_id (executions (w_db w))"
    and "sb_commit_pending env = None" "sb_commit_final env = None" "sb_others env = id"
    and "de_commit_reserve (sb_dispatch env) = None" "\<And>q. de_send (sb_dispatch env) q = None"
    and "b = submitted_bundle (sb_uuid env) u rt img dut tags emu" "pick_host b (hosts (w_db w)) = Some h"
    and "worker_host_id s = wh_host_id h" "run_opens renv" "\<And>st. rn_commit renv st = None" "rn_others renv = id"
    and "run_works s renv b cfg fnames" "dk_wait (rn_docker renv) = Inr result"
    and "status = (if key_eq (dict_get result ''StatusCode'' (PInt 1)) (PInt 0) then ''PASSED'' else ''FAILED'')"
  shows "\<exists>w1 payload w2 run. submit_test env rt img dut tags emu (Some u) w = (Inr (Redirect ''/''), w1) \<and>
    w_trace w1 = w_trace w @ [SendTask ''worker.run_test_bundle'' payload (queue_of (worker_host_id s))] \<and>
    run_test_bundle s renv payload w1 = (Inr status, w2) \<and>
    hosts (w_db w2) = hosts (w_db w) \<and>
    test_logs_page (w_db w2) (sb_uuid env) (Some u) = Inr (LogsPage u run) \<and>
    te_status run = status \<and> te_target_host_id run = Some (wh_host_id h) \<and>
    te_artifact_url run = (case accepted_uploads s renv (sb_uuid env) (output_dir_of s (sb_uuid env)) fnames of
      [] \<Rightarrow> None | url # _ \<Rightarrow> Some url)"
  using submission_runs [OF assms] by blast

theorem submission_completes_witness:
  "\<exists>w1 payload w2 run. submit_test quiet_submit ''robot'' ''img'' ''dut1'' '' DUT_A ,'' True (Some example_user) example_world =
       (Inr (Redirect ''/''), w1) \<and>
     w_trace w1 = w_trace example_world @ [SendTask ''worker.run_test_bundle'' payload (queue_of ''host2'')] \<and>
     run_test_bundle host2_settings listing_run payload w1 = (Inr ''PASSED'', w2) \<and>
     test_logs_page (w_db w2) ''u1'' (Some example_user) = Inr (LogsPage example_user run) \<and>
     te_status run = ''PASSED'' \<and> te_artifact_url run = Some (artifact_url host2_settings ''u1'' ''out.log'')"
proof -
  let ?b = u1_bundle
  let ?names = "[''notes.txt'', ''out.log'']"
  have v: "valid_submission quiet_submit ''robot'' ''img'' example_user (w_db example_world)" by code_simp
  have un: "unique_by te_test_id (executions (w_db example_world))" by code_simp
  have q: "sb_commit_pending quiet_submit = None" "sb_commit_final quiet_submit = None" "sb_others quiet_submit = id"
    "de_commit_reserve (sb_dispatch quiet_submit) = None" "\<And>q. de_send (sb_dispatch quiet_submit) q = None"
    by (simp_all add: quiet_submit_def quiet_env_def)
  have p: "pick_host ?b (hosts (w_db example_world)) = Some (example_host ''host2'' 0 50)" by code_simp
  have id: "wh_host_id (example_host ''host2'' 0 50) = ''host2''" "worker_host_id host2_settings = ''host2''"
    by (simp_all add: example_host_def new_worker_host_def host2_settings_def)
  have o: "run_opens listing_run" "\<And>st. rn_commit listing_run st = None" "rn_others listing_run = id"
    "dk_wait (rn_docker listing_run) = Inr [(PStr ''StatusCode'', PInt 0)]"
    by (simp_all add: run_opens_def listing_run_def quiet_run_def example_docker_def)
  have e: "(if key_eq (dict_get [(PStr ''StatusCode'', PInt 0)] ''StatusCode'' (PInt 1)) (PInt 0) then ''PASSED'' else ''FAILED'') = ''PASSED''"
    by code_simp
  have a: "accepted_uploads host2_settings listing_run ''u1'' (output_dir_of host2_settings ''u1'') ?names =
      [artifact_url host2_settings ''u1'' ''out.log'']"
  proof -
    have "is_artifact ''out.log''" "\<not> is_artifact ''notes.txt''" by code_simp+
    then show ?thesis
      by (simp add: accepted_uploads_def upload_succeeds_def listing_run_def quiet_run_def good_fs_def)
  qed
  have same: "worker_host_id host2_settings = wh_host_id (example_host ''host2'' 0 50)" by (simp add: id)
  have uuid: "sb_uuid quiet_submit = ''u1''" by (simp add: quiet_submit_def)
  from submission_completes [OF v example_world_wf un q refl p same o(1-3) u1_works o(4) refl] show ?thesis
    unfolding uuid id e a by (elim exE conjE) (intro exI conjI; simp?)
qed

text \<open>A bundle on the wire: its dictionary form, as JSON text.\<close>

interpretation wire: codec_chain "\<lambda>b. PDict (to_dict b)" from_dict valid_bundle
  "json_dumps fr" "json_loads wide" "jsonable fr" for fr wide
  by unfold_locales (simp_all add: from_dict_to_dict json_loads_dumps)

text \<open>
  C22: A bundle survives the broker: serialized to JSON text and decoded on the worker, it is the
  bundle that was dispatched, for every valid bundle whose variables JSON can carry; so two
  different bundles never look the same on the wire.
\<close>

theorem bundle_over_json:
  assumes "valid_bundle b" "jsonable fr (PDict (to_dict b))"
  shows "ebind (json_loads wide (json_dumps fr (PDict (to_dict b)))) from_dict = Inr b \<and>
    (\<forall>b'. valid_bundle b' \<longrightarrow> jsonable fr (PDict (to_dict b')) \<longrightarrow>
       json_dumps fr (PDict (to_dict b')) = json_dumps fr (PDict (to_dict b)) \<longrightarrow> b' = b)"
  using wire.chain.dec_enc wire.chain.enc_inj assms by blast

theorem bundle_over_json_witness:
  "ebind (json_loads (\<lambda>_. CHR ''?'') (json_dumps (\<lambda>_. []) (PDict (to_dict example_bundle)))) from_dict = Inr example_bundle"
proof -
  have "valid_bundle example_bundle" "jsonable (\<lambda>_. []) (PDict (to_dict example_bundle))" by code_simp+
  from bundle_over_json [OF this] show ?thesis by blast
qed

section \<open>Heartbeats and the central sweep\<close>

text \<open>
  With the schedule and the timeout the code ships, a host that has reported within its
  last two heartbeat periods is not marked offline by a sweep: the worker may miss a beat.
\<close>

theorem heartbeat_outlives_sweep:
  assumes "wf_hosts (hosts (w_db w))" "host_ids_fresh (w_db w)" "hb_init_db env = None" "hb_commit env = None"
    and "\<not> blank (worker_host_id s)"
    and "collect_host_stats (hb_frepr env) (hb_readings env) (PStr (worker_host_id s)) (PStr (test_runs_dir s)) = Inr stats"
    and "now \<le> hb_now env + 2 * heartbeat_period"
  shows "\<exists>h \<in> set (hosts (w_db (snd (sweep_stale_hosts None (Aware now) (heartbeat_timeout default_settings)
      (snd (publish_heartbeat s env w)))))). wh_host_id h = worker_host_id s \<and> wh_is_online h"
proof -
  let ?t = "now - heartbeat_timeout default_settings"
  from heartbeat_outcome [OF assms(1-6)] obtain w' h where w': "publish_heartbeat s env w = (Inr (), w')"
    and h: "h \<in> set (hosts (w_db w'))" "wh_host_id h = worker_host_id s" "wh_is_online h"
      "wh_last_heartbeat h = Some (Aware (hb_now env))"
    and wf: "wf_hosts (hosts (w_db w'))" by blast
  have "\<not> dead_at ?t h"
    using assms(7) h(4)
    by (simp add: dead_at_def stale_at_def default_settings_def heartbeat_period_value seconds_def)
  then have "h \<in> set (hosts (w_db (snd (sweep_stale_hosts None (Aware now) (heartbeat_timeout default_settings) w'))))"
    using h(1) by (force simp: sweep_stale_hosts_ok [OF wf])
  with h w' show ?thesis by auto
qed

theorem heartbeat_outlives_sweep_witness:
  "\<exists>h \<in> set (hosts (w_db (snd (sweep_stale_hosts None (Aware (seconds 60)) (heartbeat_timeout default_settings)
      (snd (publish_heartbeat worker_settings example_beat empty_world)))))). wh_host_id h = ''h1'' \<and> wh_is_online h"
proof -
  have w: "wf_hosts (hosts (w_db empty_world))" "host_ids_fresh (w_db empty_world)"
    "hb_init_db example_beat = None" "hb_commit example_beat = None" "\<not> blank (worker_host_id worker_settings)"
    by code_simp+
  obtain st where st: "collect_host_stats (hb_frepr example_beat) (hb_readings example_beat)
      (PStr (worker_host_id worker_settings)) (PStr (test_runs_dir worker_settings)) = Inr st"
    using example_beat_collects by blast
  have t: "seconds 60 \<le> hb_now example_beat + 2 * heartbeat_period"
    by (simp add: heartbeat_period_value seconds_def example_beat_def)
  have "worker_host_id worker_settings = ''h1''" by code_simp
  with heartbeat_outlives_sweep [OF w st t] show ?thesis by simp
qed

section \<open>Channels\<close>

text \<open>
  The exchanges the worker publishes to are the ones the backend subscribes to: the lines
  of a test and the replies of a poll reach exactly the subscribers of that test or poll.
\<close>

theorem channels_agree:
  "publish_log_line None tid line w =
     (Inr (), w\<lparr>w_trace := w_trace w @ [PublishFanout (log_exchange_for tid) line]\<rparr>) \<and>
   publish_stats_reply None cid body w =
     (Inr (), w\<lparr>w_trace := w_trace w @ [PublishFanout (status_exchange_for cid) body]\<rparr>) \<and>
   inj log_exchange_for \<and> inj status_exchange_for \<and> range log_exchange_for \<inter> range status_exchange_for = {}"
proof -
  have "range log_exchange_for \<inter> range status_exchange_for = {}"
    using exchanges_disjoint by blast
  then show ?thesis
    by (simp add: publish_log_line_def publish_stats_reply_def publish_fanout_def log_exchange_for_def
        status_exchange_for_def inj_def)
qed

section \<open>A status reply\<close>

text \<open>
  C17: The reply of a worker to a poll arrives as a row of its own: what \<open>report_status\<close> publishes
  goes to the exchange of that poll's correlation id, and the panel renders the body, without
  raising, to the row of the collected snapshot: the worker's name, escaped, and its load,
  memory, disk and users.
\<close>

theorem status_reply_shown:
  assumes "\<not> blank cid" "collect_host_stats frepr rd (PStr (worker_host_id s)) (PStr (test_runs_dir s)) = Inr stats"
    and "jsonable frepr (PDict (host_stats_dict stats))"
  shows "\<exists>body row. report_status s frepr rd None (PStr cid) w =
      (Inr (), w\<lparr>w_trace := w_trace w @ [PublishFanout (status_exchange_for cid) body]\<rparr>) \<and>
    render_status_row wide frepr body = Inr row \<and>
    row = row_open @ ''<tr>'' @ cell (escape (hs_host_id stats)) @ cell (format_fixed 1 (hs_cpu_percent stats))
      @ cell (slash (format_fixed 1 (hs_ram_available_mb stats)) (format_fixed 0 (hs_ram_total_mb stats)))
      @ cell (slash (format_fixed 2 (hs_disk_available_gb stats)) (format_fixed 0 (hs_disk_total_gb stats)))
      @ cell (int_str (hs_active_users stats)) @ ''</tr></tbody>''"
proof -
  let ?body = "json_dumps frepr (PDict (host_stats_dict stats))"
  have "report_status s frepr rd None (PStr cid) w =
      (Inr (), w\<lparr>w_trace := w_trace w @ [PublishFanout (status_exchange_for cid) ?body]\<rparr>)"
    using assms(1,2)
    by (simp add: report_status_def publish_stats_reply_def publish_fanout_def status_exchange_for_def act_bind_def act_lift_def)
  with render_snapshot [OF json_loads_dumps [OF assms(3)]] show ?thesis by blast
qed

definition example_reading_repr :: "pyfloat \<Rightarrow> string" where
  "example_reading_repr x = (case map_of [(Fin 100, ''100.0''), (Fin 200, ''200.0''), (Fin 5, ''5.0''),
     (Fin 10, ''10.0'')] x of None \<Rightarrow> [] | Some t \<Rightarrow> t)"

definition example_snapshot :: host_stats where
  "example_snapshot = \<lparr>hs_host_id = ''h1'', hs_cpu_percent = Fin 100, hs_ram_available_mb = Fin 100,
     hs_ram_total_mb = Fin 200, hs_disk_available_gb = Fin 5, hs_disk_total_gb = Fin 10,
     hs_active_users = 2, hs_online = True\<rparr>"

lemma example_collect:
  "collect_host_stats example_reading_repr example_readings (PStr (worker_host_id worker_settings))
     (PStr (test_runs_dir worker_settings)) = Inr example_snapshot"
proof -
  have b: "require_non_empty_str (PStr (worker_host_id worker_settings)) ''host_id'' = Inr ''h1''"
    "require_non_empty_str (PStr (test_runs_dir worker_settings)) ''disk_path'' = Inr ''/tmp/test_runs''"
    by code_simp+
  have c: "clamp_cpu NaN = Fin 100" by (simp add: clamp_cpu_cases)
  have u: "remdups [''root'', ''ann'', ''root''] = [''ann'', ''root'']" by simp
  show ?thesis
    by (simp add: collect_host_stats_def b example_readings_def c u Let_def HostStats_def example_snapshot_def
        py_assert_def pf_le_def tolerance_def del: py_round.simps)
qed

theorem status_reply_shown_witness:
  "\<exists>body row. report_status worker_settings example_reading_repr example_readings None (PStr ''poll'') empty_world =
      (Inr (), empty_world\<lparr>w_trace := w_trace empty_world @ [PublishFanout (status_exchange_for ''poll'') body]\<rparr>) \<and>
    render_status_row (\<lambda>_. CHR ''?'') example_reading_repr body = Inr row \<and>
    row = row_open @ ''<tr>'' @ cell (escape (hs_host_id example_snapshot))
      @ cell (format_fixed 1 (hs_cpu_percent example_snapshot))
      @ cell (slash (format_fixed 1 (hs_ram_available_mb example_snapshot)) (format_fixed 0 (hs_ram_total_mb example_snapshot)))
      @ cell (slash (format_fixed 2 (hs_disk_available_gb example_snapshot)) (format_fixed 0 (hs_disk_total_gb example_snapshot)))
      @ cell (int_str (hs_active_users example_snapshot)) @ ''</tr></tbody>''"
proof (rule status_reply_shown [OF _ example_collect])
  show "\<not> blank ''poll''" by code_simp
  have "length (nat_str 2) \<le> 4300" by code_simp
  then show "jsonable example_reading_repr (PDict (host_stats_dict example_snapshot))"
    by (simp add: host_stats_dict_def example_snapshot_def example_reading_repr_def parse_number_eval)
qed

end
